(* ===== verification/Bridge_Prelude.thy ===== *)
theory Bridge_Prelude
  imports Main "HOL-Library.Word" "HOL-Library.Sublist"
begin

text \<open>
  Shared vocabulary of the Star Bridge development: machine integers, C strings and the
  handful of libc routines every component of the bridge calls.

  A NUL-terminated C string is a \<open>string\<close> (a list of bytes, the terminator left out).
  Writing a string into a buffer of \<open>n\<close> bytes with \<open>snprintf (dest, n, "%s", s)\<close>
  keeps its first \<open>n - 1\<close> bytes: \<open>cstr_copy n s\<close>. Searching is \<open>strstr\<close>, which
  returns the suffix of the haystack that starts at the first occurrence of the needle.
\<close>

section \<open>Machine integers and byte strings\<close>

type_synonym u32 = "32 word"
type_synonym u64 = "64 word"
type_synonym bytes = "char list"

named_theorems cstr_simps \<open>rewriting of C string operations\<close>

section \<open>Lists\<close>

definition last_n :: "nat \<Rightarrow> 'a list \<Rightarrow> 'a list" where
  "last_n k xs = drop (length xs - k) xs"

lemma last_n_Nil [simp]: "last_n k [] = []"
  by (simp add: last_n_def)

lemma length_last_n [simp]: "length (last_n k xs) = min k (length xs)"
  by (simp add: last_n_def)

lemma last_n_all: "length xs \<le> k \<Longrightarrow> last_n k xs = xs"
  by (simp add: last_n_def)

lemma last_n_tl: "length xs = Suc k \<Longrightarrow> last_n k xs = tl xs"
  by (simp add: last_n_def drop_Suc)

lemma last_n_append: "last_n k (last_n k xs @ ys) = last_n k (xs @ ys)"
proof (cases "length xs \<le> k")
  case False
  then have "length xs + length ys - k = (length xs - k) + length ys" by simp
  with False show ?thesis by (simp add: last_n_def add.commute)
qed (simp add: last_n_def)

lemma last_n_suffix: "suffix (last_n k xs) xs"
  by (simp add: last_n_def suffix_drop)

section \<open>C strings\<close>

definition cstr_copy :: "nat \<Rightarrow> string \<Rightarrow> string" where
  "cstr_copy n s = take (n - 1) s"

lemma cstr_copy_fits [cstr_simps]: "length s < n \<Longrightarrow> cstr_copy n s = s"
  by (simp add: cstr_copy_def)

lemma length_cstr_copy: "length (cstr_copy n s) = min (n - 1) (length s)"
  by (simp add: cstr_copy_def)

lemma length_cstr_copy_less: "0 < n \<Longrightarrow> length (cstr_copy n s) < n"
  by (auto simp: cstr_copy_def)

lemma cstr_copy_idem [simp]: "cstr_copy n (cstr_copy n s) = cstr_copy n s"
  by (simp add: cstr_copy_def)

lemma set_cstr_copy: "set (cstr_copy n s) \<subseteq> set s"
  by (simp add: cstr_copy_def set_take_subset)

lemma cstr_copy_Nil [simp]: "cstr_copy n [] = []"
  by (simp add: cstr_copy_def)

lemma cstr_copy_eq_Nil: "2 \<le> n \<Longrightarrow> cstr_copy n s = [] \<longleftrightarrow> s = []"
  by (auto simp: cstr_copy_def)

fun strstr :: "string \<Rightarrow> string \<Rightarrow> string option" where
  "strstr h p =
     (if prefix p h then Some h
      else case h of [] \<Rightarrow> None | _ # t \<Rightarrow> strstr t p)"

declare strstr.simps [simp del]

lemma strstr_Nil [simp]: "strstr [] p = (if p = [] then Some [] else None)"
  by (subst strstr.simps) simp

lemma strstr_Cons [simp]:
  "strstr (c # h) p = (if prefix p (c # h) then Some (c # h) else strstr h p)"
  by (subst strstr.simps) simp

definition contains :: "string \<Rightarrow> string \<Rightarrow> bool" where
  "contains h p = (strstr h p \<noteq> None)"

lemma strstr_Some_split: "strstr h p = Some r \<Longrightarrow> \<exists>pre post. h = pre @ r \<and> r = p @ post"
proof (induction h)
  case Nil
  then show ?case by (auto split: if_splits)
next
  case (Cons c h)
  show ?case
  proof (cases "prefix p (c # h)")
    case True
    with Cons.prems show ?thesis by (auto simp: prefix_def)
  next
    case False
    with Cons.prems have "strstr h p = Some r" by simp
    from Cons.IH [OF this] obtain pre post where "h = pre @ r" "r = p @ post" by blast
    then have "c # h = (c # pre) @ r" "r = p @ post" by simp_all
    then show ?thesis by blast
  qed
qed

lemma strstr_None_iff: "strstr h p = None \<longleftrightarrow> \<not> sublist p h"
  by (induction h) (auto simp: sublist_Cons_right)

lemma contains_iff: "contains h p \<longleftrightarrow> sublist p h"
  by (simp add: contains_def strstr_None_iff)

fun strchr :: "string \<Rightarrow> char \<Rightarrow> string option" where
  "strchr [] c = None"
| "strchr (d # s) c = (if d = c then Some (d # s) else strchr s c)"

text \<open>Bytes seen as a C string.\<close>

definition c_str :: "bytes \<Rightarrow> string" where
  "c_str bs = takeWhile (\<lambda>c. c \<noteq> CHR 0x00) bs"

definition crlf :: string where
  "crlf = [CHR 0x0D, CHR 0x0A]"

section \<open>Decimal and hexadecimal output\<close>

definition digit_char :: "nat \<Rightarrow> char" where
  "digit_char d = (if d < 10 then char_of (48 + d) else char_of (87 + d))"

fun show_base :: "nat \<Rightarrow> nat \<Rightarrow> string" where
  "show_base b n =
     (if b < 2 \<or> n < b then [digit_char n] else show_base b (n div b) @ [digit_char (n mod b)])"

declare show_base.simps [simp del]

definition show_nat :: "nat \<Rightarrow> string" where
  "show_nat n = show_base 10 n"

definition show_int :: "int \<Rightarrow> string" where
  "show_int i = (if i < 0 then CHR ''-'' # show_nat (nat (- i)) else show_nat (nat i))"

definition show_hex :: "nat \<Rightarrow> string" where
  "show_hex n = show_base 16 n"

definition show_bool :: "bool \<Rightarrow> string" where
  "show_bool b = (if b then ''true'' else ''false'')"

lemma show_base_nonempty [simp]: "show_base b n \<noteq> []"
  by (subst show_base.simps) simp

definition cval :: "char \<Rightarrow> nat" where
  "cval c = of_char c"

lemma cval_less_256 [simp]: "cval c < 256"
  by (simp add: cval_def)

lemma cval_eq_iff: "cval c = cval d \<longleftrightarrow> c = d"
  by (simp add: cval_def)

definition is_digit :: "char \<Rightarrow> bool" where
  "is_digit c = (48 \<le> cval c \<and> cval c \<le> 57)"

definition is_blank :: "char \<Rightarrow> bool" where
  "is_blank c = (c = CHR '' '' \<or> c = CHR 0x09 \<or> c = CHR 0x0A \<or> c = CHR 0x0D)"

definition is_space :: "char \<Rightarrow> bool" where
  "is_space c = (cval c = 32 \<or> (9 \<le> cval c \<and> cval c \<le> 13))"

definition is_alnum :: "char \<Rightarrow> bool" where
  "is_alnum c = (is_digit c \<or> (97 \<le> cval c \<and> cval c \<le> 122)
                 \<or> (65 \<le> cval c \<and> cval c \<le> 90))"

definition to_lower :: "char \<Rightarrow> char" where
  "to_lower c = (if 65 \<le> cval c \<and> cval c \<le> 90 then char_of (cval c + 32) else c)"

lemma show_base_digit: "is_digit c" if "c \<in> set (show_base 10 n)"
  using that
proof (induction "10 :: nat" n rule: show_base.induct)
  case (1 n)
  have d: "is_digit (digit_char (n mod 10))"
    by (simp add: is_digit_def digit_char_def cval_def)
  show ?case
  proof (cases "n < 10")
    case True
    then show ?thesis using "1.prems" d by (simp add: show_base.simps [of 10 n])
  next
    case False
    then show ?thesis using "1.prems" "1.hyps" d by (auto simp: show_base.simps [of 10 n])
  qed
qed

end
