(* ===== verification/Ring_Buffer.thy ===== *)
theory Ring_Buffer
  imports Bridge_Prelude
begin

text \<open>
  The output ring buffers of the bridge (\<^verbatim>\<open>src/ring_buffer.c\<close>). The engine owns two of
  them (HTML log and raw agent text), each with its own head and tail, which are \<open>size_t\<close>
  counters that are never reduced modulo the capacity: only the index into the buffer is.
  The counters are kept as 64-bit words, so their wrap-around is part of the model.

  The specification is a byte queue that remembers the last \<open>capacity - 1\<close> bytes
  (locale \<open>overwrite_queue\<close>); \<open>ring_content\<close> is the abstraction function.
\<close>

section \<open>State and operations\<close>

record ring =
  rb_buf :: "char list"
  rb_head :: u64
  rb_tail :: u64

text \<open>One round of the loop in \<^verbatim>\<open>ring_append\<close>: store, advance, drop the oldest on overflow.\<close>

definition ring_put :: "u64 \<Rightarrow> ring \<Rightarrow> char \<Rightarrow> ring" where
  "ring_put capacity r c =
     (let buf' = (rb_buf r)[unat (rb_head r mod capacity) := c];
          head' = rb_head r + 1;
          tail' = (if head' - rb_tail r \<ge> capacity then head' - capacity + 1 else rb_tail r)
      in r\<lparr>rb_buf := buf', rb_head := head', rb_tail := tail'\<rparr>)"

definition ring_append :: "u64 \<Rightarrow> ring \<Rightarrow> char list \<Rightarrow> ring" where
  "ring_append capacity r data = (if capacity = 0 then r else foldl (ring_put capacity) r data)"

definition ring_available :: "u64 \<Rightarrow> u64 \<Rightarrow> u64" where
  "ring_available head tail = head - tail"

definition ring_read :: "u64 \<Rightarrow> ring \<Rightarrow> u64 \<Rightarrow> string \<times> ring" where
  "ring_read capacity r max_len =
     (if max_len = 0 then ([], r)
      else let avail = rb_head r - rb_tail r;
               avail = (if avail \<ge> max_len then max_len - 1 else avail);
               dest = map (\<lambda>i. rb_buf r ! unat ((rb_tail r + of_nat i) mod capacity)) [0..<unat avail]
           in (dest, r\<lparr>rb_tail := rb_tail r + avail\<rparr>))"

definition ring_reset :: "ring \<Rightarrow> ring" where
  "ring_reset r = r\<lparr>rb_head := 0, rb_tail := 0\<rparr>"

definition ring_new :: "u64 \<Rightarrow> ring" where
  "ring_new capacity = \<lparr>rb_buf = replicate (unat capacity) (CHR 0x00), rb_head = 0, rb_tail = 0\<rparr>"

section \<open>Invariant and abstraction\<close>

definition ring_inv :: "u64 \<Rightarrow> ring \<Rightarrow> bool" where
  "ring_inv capacity r =
     (length (rb_buf r) = unat capacity \<and> rb_head r - rb_tail r < capacity)"

definition ring_content :: "u64 \<Rightarrow> ring \<Rightarrow> char list" where
  "ring_content capacity r =
     map (\<lambda>i. rb_buf r ! unat ((rb_tail r + of_nat i) mod capacity))
       [0..<unat (rb_head r - rb_tail r)]"

lemma length_ring_content [simp]:
  "length (ring_content capacity r) = unat (rb_head r - rb_tail r)"
  by (simp add: ring_content_def)

lemma ring_inv_new: "0 < capacity \<Longrightarrow> ring_inv capacity (ring_new capacity)"
  by (simp add: ring_inv_def ring_new_def)

lemma ring_content_new [simp]: "ring_content capacity (ring_new capacity) = []"
  by (simp add: ring_content_def ring_new_def)

text \<open>
  The slot of a counter. When the capacity divides \<open>2 ^ 64\<close> (the engine's 131072 does) the
  wrap-around of the counters does not disturb the slots.
\<close>

definition slot :: "u64 \<Rightarrow> u64 \<Rightarrow> nat" where
  "slot capacity w = unat (w mod capacity)"

lemma slot_less: "0 < capacity \<Longrightarrow> slot capacity w < unat capacity"
  by (simp add: slot_def unat_mod word_less_nat_alt)

lemma slot_add:
  assumes "unat capacity dvd 2 ^ 64"
  shows "slot capacity (w + of_nat i) = (unat w + i) mod unat capacity"
proof -
  have "unat (w + of_nat i) = (unat w + i) mod 2 ^ 64"
    by (simp add: unat_word_ariths unat_of_nat mod_add_right_eq)
  with assms show ?thesis by (simp add: slot_def unat_mod mod_mod_cancel)
qed

lemma slot_add_neq:
  assumes dvd: "unat capacity dvd 2 ^ 64" and "i < n" and "n < unat capacity"
  shows "slot capacity (w + of_nat i) \<noteq> slot capacity (w + of_nat n)"
proof
  assume "slot capacity (w + of_nat i) = slot capacity (w + of_nat n)"
  then have "(unat w + n) mod unat capacity = (unat w + i) mod unat capacity"
    by (simp add: slot_add [OF dvd])
  then have "unat capacity dvd (unat w + n) - (unat w + i)"
    using \<open>i < n\<close> by (intro mod_eq_dvd_iff_nat [THEN iffD1]) simp_all
  then have "unat capacity dvd n - i" by simp
  with \<open>i < n\<close> \<open>n < unat capacity\<close> show False
    by (auto dest: dvd_imp_le)
qed

section \<open>One byte\<close>

lemma content_slot:
  "ring_content capacity r =
     map (\<lambda>i. rb_buf r ! slot capacity (rb_tail r + of_nat i)) [0..<unat (rb_head r - rb_tail r)]"
  by (simp add: ring_content_def slot_def)

text \<open>Storing at the head extends the window by the byte.\<close>

lemma window_store:
  assumes dvd: "unat capacity dvd 2 ^ 64" and len: "length buf = unat capacity"
    and n: "n < unat capacity"
  shows "map (\<lambda>i. buf[slot capacity (t + of_nat n) := c] ! slot capacity (t + of_nat i)) [0..<Suc n]
       = map (\<lambda>i. buf ! slot capacity (t + of_nat i)) [0..<n] @ [c]"
proof -
  have pos: "0 < capacity" using n by (simp add: word_less_nat_alt)
  have "buf[slot capacity (t + of_nat n) := c] ! slot capacity (t + of_nat i)
        = buf ! slot capacity (t + of_nat i)" if "i < n" for i
    using slot_add_neq [OF dvd that n, of t] by simp
  moreover have "buf[slot capacity (t + of_nat n) := c] ! slot capacity (t + of_nat n) = c"
    using slot_less [OF pos, of "t + of_nat n"] len by simp
  ultimately show ?thesis by simp
qed

lemma unat_succ_diff:
  fixes h t capacity :: u64
  assumes "h - t < capacity"
  shows "unat (h + 1 - t) = Suc (unat (h - t))"
proof -
  have "h + 1 - t = 1 + (h - t)" by simp
  moreover have "1 + (h - t) \<noteq> 0"
    using assms by (metis add.commute max_word_wrap word_not_simps(3))
  ultimately show ?thesis using unatSuc [of "h - t"] by metis
qed

lemma ring_put_step:
  assumes dvd: "unat capacity dvd 2 ^ 64" and inv: "ring_inv capacity r"
  shows "ring_inv capacity (ring_put capacity r c)"
    and "ring_content capacity (ring_put capacity r c)
         = last_n (unat capacity - 1) (ring_content capacity r @ [c])"
proof -
  let ?h = "rb_head r" and ?t = "rb_tail r"
  define n where "n = unat (?h - ?t)"
  have len: "length (rb_buf r) = unat capacity" and less: "?h - ?t < capacity"
    using inv by (simp_all add: ring_inv_def)
  have n: "n < unat capacity" using less by (simp add: n_def word_less_nat_alt)
  have h: "?h = ?t + of_nat n" by (simp add: n_def)
  have sz: "unat (?h + 1 - ?t) = Suc n" using unat_succ_diff [OF less] by (simp add: n_def)
  have win: "map (\<lambda>i. (rb_buf r)[slot capacity ?h := c] ! slot capacity (?t + of_nat i)) [0..<Suc n]
      = ring_content capacity r @ [c]"
    using window_store [OF dvd len n, of ?t c] by (simp add: content_slot n_def)
  show "ring_inv capacity (ring_put capacity r c)"
  proof (cases "?h + 1 - ?t \<ge> capacity")
    case True
    have "capacity \<noteq> 0" using less by (metis word_not_simps(1))
    then have "capacity - 1 < capacity" by (simp add: word_less_nat_alt unat_minus_one word_gt_0 unat_gt_0)
    then show ?thesis using True len by (simp add: ring_put_def ring_inv_def Let_def)
  next
    case False
    then show ?thesis using len by (simp add: ring_put_def ring_inv_def Let_def not_le leD)
  qed
  show "ring_content capacity (ring_put capacity r c)
         = last_n (unat capacity - 1) (ring_content capacity r @ [c])"
  proof (cases "?h + 1 - ?t \<ge> capacity")
    case True
    then have "Suc n = unat capacity"
      using sz n by (simp add: word_le_nat_alt)
    then have cap: "capacity = ?h + 1 - ?t"
      using sz by (simp add: word_unat_eq_iff)
    have t': "?h + 1 - capacity + 1 = ?t + 1" by (simp add: cap)
    have "ring_content capacity (ring_put capacity r c)
        = map (\<lambda>i. (rb_buf r)[slot capacity ?h := c] ! slot capacity (?t + of_nat (Suc i))) [0..<n]"
      using True by (simp add: ring_put_def content_slot Let_def t' slot_def [symmetric] n_def add.assoc)
    also have "\<dots> = tl (ring_content capacity r @ [c])"
      by (simp add: win [symmetric] map_upt_Suc del: upt_Suc)
    also have "\<dots> = last_n (unat capacity - 1) (ring_content capacity r @ [c])"
      using \<open>Suc n = unat capacity\<close> [symmetric] by (simp add: last_n_tl n_def)
    finally show ?thesis .
  next
    case False
    then have "Suc n < unat capacity" using sz by (simp add: word_le_nat_alt)
    moreover have "ring_content capacity (ring_put capacity r c)
        = map (\<lambda>i. (rb_buf r)[slot capacity ?h := c] ! slot capacity (?t + of_nat i)) [0..<Suc n]"
      using False by (simp add: ring_put_def content_slot Let_def sz slot_def [symmetric] del: upt_Suc)
    then have "ring_content capacity (ring_put capacity r c) = ring_content capacity r @ [c]"
      by (simp only: win)
    ultimately show ?thesis by (simp add: last_n_all n_def [symmetric])
  qed
qed

section \<open>Appending and reading\<close>

lemma ring_fold_put:
  assumes dvd: "unat capacity dvd 2 ^ 64" and inv: "ring_inv capacity r"
  shows "ring_inv capacity (foldl (ring_put capacity) r xs)
    \<and> ring_content capacity (foldl (ring_put capacity) r xs)
      = last_n (unat capacity - 1) (ring_content capacity r @ xs)"
  using inv
proof (induction xs arbitrary: r)
  case Nil
  then have "length (ring_content capacity r) \<le> unat capacity - 1"
    by (auto simp: ring_inv_def word_less_nat_alt)
  then show ?case using Nil by (simp add: last_n_all)
next
  case (Cons x xs)
  note step = ring_put_step [OF dvd Cons.prems, of x]
  from Cons.IH [OF step(1)] show ?case
    by (simp add: step(2) last_n_append)
qed

lemma ring_append_inv:
  "unat capacity dvd 2 ^ 64 \<Longrightarrow> ring_inv capacity r \<Longrightarrow> ring_inv capacity (ring_append capacity r xs)"
  by (cases "capacity = 0") (simp_all add: ring_append_def ring_fold_put)

lemma ring_append_content:
  assumes "unat capacity dvd 2 ^ 64" and inv: "ring_inv capacity r"
  shows "ring_content capacity (ring_append capacity r xs)
       = last_n (unat capacity - 1) (ring_content capacity r @ xs)"
proof -
  have "capacity \<noteq> 0" using inv by (metis ring_inv_def word_not_simps(1))
  with assms show ?thesis by (simp add: ring_append_def ring_fold_put)
qed

text \<open>The number of bytes one read returns: all there is, or the room in \<open>dest\<close> less one.\<close>

definition read_count :: "u64 \<Rightarrow> ring \<Rightarrow> nat" where
  "read_count max_len r = min (unat (rb_head r - rb_tail r)) (unat max_len - 1)"

lemma ring_read_avail:
  assumes "max_len \<noteq> 0"
  shows "unat (if (a::u64) \<ge> max_len then max_len - 1 else a) = min (unat a) (unat max_len - 1)"
  using assms by (auto simp: word_le_nat_alt unat_minus_one)

lemma unat_sub_le: "(b::u64) \<le> a \<Longrightarrow> unat (a - b) = unat a - unat b"
  by (rule unat_sub)

lemma ring_read_content:
  assumes "max_len \<noteq> 0"
  shows "fst (ring_read capacity r max_len) = take (read_count max_len r) (ring_content capacity r)"
    and "ring_content capacity (snd (ring_read capacity r max_len))
         = drop (read_count max_len r) (ring_content capacity r)"
    and "rb_buf (snd (ring_read capacity r max_len)) = rb_buf r"
    and "unat (rb_head (snd (ring_read capacity r max_len)) - rb_tail (snd (ring_read capacity r max_len)))
         = unat (rb_head r - rb_tail r) - read_count max_len r"
proof -
  let ?d = "rb_head r - rb_tail r"
  define a where "a = (if ?d \<ge> max_len then max_len - 1 else ?d)"
  have a: "unat a = read_count max_len r"
    using ring_read_avail [OF assms] by (simp add: a_def read_count_def)
  have le: "a \<le> ?d"
    using a by (simp add: word_le_nat_alt read_count_def)
  have rr: "ring_read capacity r max_len =
      (map (\<lambda>i. rb_buf r ! unat ((rb_tail r + of_nat i) mod capacity)) [0..<unat a],
       r\<lparr>rb_tail := rb_tail r + a\<rparr>)"
    using assms by (simp add: ring_read_def a_def Let_def)
  have d: "unat (rb_head r - (rb_tail r + a)) = unat ?d - unat a"
    using unat_sub_le [OF le] by (simp add: algebra_simps)
  show "fst (ring_read capacity r max_len) = take (read_count max_len r) (ring_content capacity r)"
    by (simp add: rr ring_content_def take_map read_count_def a)
  show "ring_content capacity (snd (ring_read capacity r max_len))
         = drop (read_count max_len r) (ring_content capacity r)"
  proof (rule nth_equalityI)
    fix i
    assume "i < length (ring_content capacity (snd (ring_read capacity r max_len)))"
    then have "i < unat ?d - unat a" by (simp add: rr d)
    moreover have "of_nat (unat a) = a" by simp
    ultimately show "ring_content capacity (snd (ring_read capacity r max_len)) ! i
        = drop (read_count max_len r) (ring_content capacity r) ! i"
      by (simp add: rr ring_content_def d a [symmetric] add.assoc)
  qed (simp add: rr d a)
  show "rb_buf (snd (ring_read capacity r max_len)) = rb_buf r" by (simp add: rr)
  show "unat (rb_head (snd (ring_read capacity r max_len)) - rb_tail (snd (ring_read capacity r max_len)))
         = unat ?d - read_count max_len r"
    by (simp add: rr d a)
qed

lemma ring_read_inv:
  assumes "ring_inv capacity r"
  shows "ring_inv capacity (snd (ring_read capacity r max_len))"
proof (cases "max_len = 0")
  case True
  then show ?thesis using assms by (simp add: ring_read_def)
next
  case False
  note rd = ring_read_content [OF False, of capacity r]
  show ?thesis using assms by (auto simp: ring_inv_def rd(3,4) word_less_nat_alt)
qed

lemma ring_reset_content [simp]: "ring_content capacity (ring_reset r) = []"
  by (simp add: ring_reset_def ring_content_def)

section \<open>The interface: a queue that forgets its oldest bytes\<close>

locale overwrite_queue =
  fixes push :: "'q \<Rightarrow> 'a list \<Rightarrow> 'q"
    and pop :: "nat \<Rightarrow> 'q \<Rightarrow> 'a list \<times> 'q"
    and content :: "'q \<Rightarrow> 'a list"
    and good :: "'q \<Rightarrow> bool"
    and bound :: nat
  assumes good_push: "good q \<Longrightarrow> good (push q xs)"
    and content_push: "good q \<Longrightarrow> content (push q xs) = last_n bound (content q @ xs)"
    and good_pop: "good q \<Longrightarrow> good (snd (pop n q))"
    and pop_out: "good q \<Longrightarrow> fst (pop n q) = take n (content q)"
    and pop_rest: "good q \<Longrightarrow> content (snd (pop n q)) = drop n (content q)"
begin

lemma pushes:
  "good q \<Longrightarrow> good (foldl push q xss)
     \<and> content (foldl push q xss) = (if xss = [] then content q else last_n bound (content q @ concat xss))"
proof (induction xss rule: rev_induct)
  case Nil
  then show ?case by simp
next
  case (snoc xs xss)
  then have IH: "good (foldl push q xss)"
    "content (foldl push q xss) = (if xss = [] then content q else last_n bound (content q @ concat xss))"
    by auto
  show ?case
    using IH by (auto simp: good_push content_push last_n_append append_assoc [symmetric]
        simp del: append_assoc)
qed

lemma push_pop_fits:
  assumes "good q" and "content q = []" and "length xs \<le> bound" and "length xs \<le> n"
  shows "fst (pop n (push q xs)) = xs" and "content (snd (pop n (push q xs))) = []"
  using assms by (simp_all add: good_push content_push pop_out pop_rest last_n_all)

lemma never_invents:
  assumes "good q"
  shows "suffix (content (push q xs)) (content q @ xs)"
  using assms by (simp add: content_push last_n_suffix)

end

text \<open>The engine's buffers: \<^verbatim>\<open>BRIDGE_BUFFER_SIZE\<close> is 131072.\<close>

definition BRIDGE_BUFFER_SIZE :: u64 where
  "BRIDGE_BUFFER_SIZE = 131072"

definition ring_pop :: "nat \<Rightarrow> ring \<Rightarrow> string \<times> ring" where
  "ring_pop n r = ring_read BRIDGE_BUFFER_SIZE r (of_nat (min n 131071) + 1)"

lemma buffer_size_dvd: "unat BRIDGE_BUFFER_SIZE dvd 2 ^ 64"
  by (simp add: BRIDGE_BUFFER_SIZE_def)

lemma unat_ring_pop_arg: "unat (of_nat (min n 131071) + 1 :: u64) = Suc (min n 131071)"
  by (simp add: unat_word_ariths unat_of_nat)

lemma ring_pop_nz: "(of_nat (min n 131071) + 1 :: u64) \<noteq> 0"
  using unat_ring_pop_arg [of n] by (metis nat.distinct(1) unat_0)

lemma ring_pop_count:
  assumes "ring_inv BRIDGE_BUFFER_SIZE r"
  shows "read_count (of_nat (min n 131071) + 1) r = min n (length (ring_content BRIDGE_BUFFER_SIZE r))"
proof -
  have "unat (rb_head r - rb_tail r) < 131072"
    using assms by (simp add: ring_inv_def BRIDGE_BUFFER_SIZE_def word_less_nat_alt)
  then show ?thesis by (simp only: read_count_def unat_ring_pop_arg) simp
qed

interpretation rq: overwrite_queue "ring_append BRIDGE_BUFFER_SIZE" ring_pop
  "ring_content BRIDGE_BUFFER_SIZE" "ring_inv BRIDGE_BUFFER_SIZE" 131071
proof
  fix q :: ring and xs :: "char list" and n :: nat
  assume inv: "ring_inv BRIDGE_BUFFER_SIZE q"
  have cap: "unat BRIDGE_BUFFER_SIZE - 1 = 131071" by (simp add: BRIDGE_BUFFER_SIZE_def)
  show "ring_inv BRIDGE_BUFFER_SIZE (ring_append BRIDGE_BUFFER_SIZE q xs)"
    by (rule ring_append_inv [OF buffer_size_dvd inv])
  show "ring_content BRIDGE_BUFFER_SIZE (ring_append BRIDGE_BUFFER_SIZE q xs)
      = last_n 131071 (ring_content BRIDGE_BUFFER_SIZE q @ xs)"
    by (simp only: ring_append_content [OF buffer_size_dvd inv] cap)
  show "ring_inv BRIDGE_BUFFER_SIZE (snd (ring_pop n q))"
    by (simp add: ring_pop_def ring_read_inv [OF inv])
  note rd = ring_read_content [OF ring_pop_nz [of n], of BRIDGE_BUFFER_SIZE q]
  show "fst (ring_pop n q) = take n (ring_content BRIDGE_BUFFER_SIZE q)"
    by (simp only: ring_pop_def rd ring_pop_count [OF inv]) (simp add: min_def)
  show "ring_content BRIDGE_BUFFER_SIZE (snd (ring_pop n q)) = drop n (ring_content BRIDGE_BUFFER_SIZE q)"
    by (simp only: ring_pop_def rd ring_pop_count [OF inv]) (simp add: min_def)
qed

section \<open>Properties\<close>

text \<open>Property C15: whatever is appended to a fresh engine buffer, in however many calls, the
  buffer holds exactly the last 131071 bytes of it, in order; the wrap-around of the 64-bit
  counters does not show.\<close>

theorem engine_buffer_window:
  "ring_content BRIDGE_BUFFER_SIZE
     (foldl (ring_append BRIDGE_BUFFER_SIZE) (ring_new BRIDGE_BUFFER_SIZE) xss)
   = last_n 131071 (concat xss)"
  using rq.pushes [OF ring_inv_new, of xss] by (simp add: BRIDGE_BUFFER_SIZE_def)

text \<open>A read hands out the oldest bytes, at most \<open>max_len - 1\<close> of them, leaves the
  rest in order and never lets the tail pass the head.\<close>

theorem ring_read_front:
  assumes "ring_inv capacity r" and "max_len \<noteq> 0"
  shows "case ring_read capacity r max_len of (out, r') \<Rightarrow>
      out @ ring_content capacity r' = ring_content capacity r
      \<and> length out = min (unat (rb_head r - rb_tail r)) (unat max_len - 1)
      \<and> ring_inv capacity r'"
proof -
  obtain out r' where r: "ring_read capacity r max_len = (out, r')" by force
  note rd = ring_read_content [OF assms(2), of capacity r, unfolded r fst_conv snd_conv]
  have "ring_inv capacity r'" using ring_read_inv [OF assms(1), of max_len] r by simp
  then show ?thesis by (simp add: r rd(1,2)) (simp add: read_count_def)
qed

theorem ring_read_front_witness:
  "case ring_read 8 (ring_append 8 (ring_new 8) ''bridge'') 4 of (out, r') \<Rightarrow>
      out @ ring_content 8 r' = ''bridge''
      \<and> length out = 3 \<and> ring_inv 8 r'"
proof -
  let ?r = "ring_append 8 (ring_new 8) ''bridge''"
  have "ring_inv 8 ?r" by (intro ring_append_inv ring_inv_new) simp_all
  moreover have "ring_content 8 ?r = ''bridge''"
    by (simp add: ring_append_content ring_inv_new last_n_all)
  moreover from this have "unat (rb_head ?r - rb_tail ?r) = 6"
    using length_ring_content [of 8 ?r] by simp
  ultimately show ?thesis using ring_read_front [of 8 ?r 4] by (simp split: prod.splits)
qed

end
