(* ===== verification/Json_Value.thy ===== *)
theory Json_Value
  imports Bridge_Prelude Complex_Main
begin

text \<open>
  Parsed JSON as the bridge sees it, and the accessors of \<^verbatim>\<open>src/json_utils.c\<close> over it.

  The bridge parses and prints JSON with the cJSON library. The library's parser and printer
  are third-party code and are parameters of the model (\<open>parse\<close>, \<open>print\<close>); its tree and
  the few tree accessors are modelled as the vendored sources define them. A \<open>cJSON *\<close> that
  may be NULL is a \<open>json option\<close>. Object members keep their order and duplicates;
  \<^verbatim>\<open>cJSON_GetObjectItem\<close> takes the first member whose name agrees up to ASCII case.
  A number is the rational value of its double; the cast to \<open>int\<close> truncates towards zero
  (outside the range of \<open>int\<close> the cast is undefined in C).
\<close>

section \<open>The cJSON tree\<close>

datatype json =
    JNull
  | JBool bool
  | JNum rat
  | JStr string
  | JArr "json list"
  | JObj "(string \<times> json) list"

type_synonym jptr = "json option"

definition ci_eq :: "string \<Rightarrow> string \<Rightarrow> bool" where
  "ci_eq a b = (map to_lower a = map to_lower b)"

fun members_item :: "(string \<times> json) list \<Rightarrow> string \<Rightarrow> json option" where
  "members_item [] name = None"
| "members_item ((k, v) # kvs) name = (if ci_eq name k then Some v else members_item kvs name)"

fun cJSON_GetObjectItem :: "json \<Rightarrow> string \<Rightarrow> json option" where
  "cJSON_GetObjectItem (JObj kvs) name = members_item kvs name"
| "cJSON_GetObjectItem _ name = None"

fun cJSON_children :: "json \<Rightarrow> json list" where
  "cJSON_children (JArr xs) = xs"
| "cJSON_children (JObj kvs) = map snd kvs"
| "cJSON_children _ = []"

definition cJSON_GetArraySize :: "json \<Rightarrow> nat" where
  "cJSON_GetArraySize j = length (cJSON_children j)"

definition cJSON_GetArrayItem :: "json \<Rightarrow> int \<Rightarrow> json option" where
  "cJSON_GetArrayItem j i =
     (if i < 0 then None
      else if nat i < length (cJSON_children j) then Some (cJSON_children j ! nat i) else None)"

fun cJSON_IsString :: "json \<Rightarrow> bool" where
  "cJSON_IsString (JStr _) = True"
| "cJSON_IsString _ = False"

fun cJSON_IsObject :: "json \<Rightarrow> bool" where
  "cJSON_IsObject (JObj _) = True"
| "cJSON_IsObject _ = False"

fun cJSON_IsArray :: "json \<Rightarrow> bool" where
  "cJSON_IsArray (JArr _) = True"
| "cJSON_IsArray _ = False"

fun cJSON_IsBool :: "json \<Rightarrow> bool" where
  "cJSON_IsBool (JBool _) = True"
| "cJSON_IsBool _ = False"

fun cJSON_IsTrue :: "json \<Rightarrow> bool" where
  "cJSON_IsTrue (JBool b) = b"
| "cJSON_IsTrue _ = False"

definition c_trunc :: "rat \<Rightarrow> int" where
  "c_trunc q = (if q < 0 then - \<lfloor>- q\<rfloor> else \<lfloor>q\<rfloor>)"

section \<open>Accessors of json\_utils.c\<close>

definition json_parse :: "(string \<Rightarrow> json option) \<Rightarrow> string option \<Rightarrow> jptr" where
  "json_parse parse js = (case js of None \<Rightarrow> None | Some s \<Rightarrow> parse s)"

text \<open>\<open>None\<close> is the result \<open>false\<close>, which leaves the destination untouched.\<close>

definition json_get_string :: "jptr \<Rightarrow> string \<Rightarrow> nat \<Rightarrow> string option" where
  "json_get_string obj field max_len =
     (case obj of None \<Rightarrow> None
      | Some j \<Rightarrow> (case cJSON_GetObjectItem j field of
            Some (JStr s) \<Rightarrow> Some (cstr_copy max_len s)
          | _ \<Rightarrow> None))"

text \<open>The same call seen from its caller: the new content of the destination buffer.\<close>

definition get_into :: "jptr \<Rightarrow> string \<Rightarrow> nat \<Rightarrow> string \<Rightarrow> string" where
  "get_into obj field max_len dest =
     (case json_get_string obj field max_len of None \<Rightarrow> dest | Some s \<Rightarrow> s)"

definition json_get_string_ptr :: "jptr \<Rightarrow> string \<Rightarrow> string option" where
  "json_get_string_ptr obj field =
     (case obj of None \<Rightarrow> None
      | Some j \<Rightarrow> (case cJSON_GetObjectItem j field of Some (JStr s) \<Rightarrow> Some s | _ \<Rightarrow> None))"

definition json_get_int :: "jptr \<Rightarrow> string \<Rightarrow> int" where
  "json_get_int obj field =
     (case obj of None \<Rightarrow> 0
      | Some j \<Rightarrow> (case cJSON_GetObjectItem j field of Some (JNum q) \<Rightarrow> c_trunc q | _ \<Rightarrow> 0))"

definition json_get_bool :: "jptr \<Rightarrow> string \<Rightarrow> bool" where
  "json_get_bool obj field =
     (case obj of None \<Rightarrow> False
      | Some j \<Rightarrow> (case cJSON_GetObjectItem j field of Some (JBool b) \<Rightarrow> b | _ \<Rightarrow> False))"

definition json_get_object :: "jptr \<Rightarrow> string \<Rightarrow> jptr" where
  "json_get_object obj field =
     (case obj of None \<Rightarrow> None
      | Some j \<Rightarrow> (case cJSON_GetObjectItem j field of Some (JObj kvs) \<Rightarrow> Some (JObj kvs) | _ \<Rightarrow> None))"

definition json_get_array :: "jptr \<Rightarrow> string \<Rightarrow> jptr" where
  "json_get_array obj field =
     (case obj of None \<Rightarrow> None
      | Some j \<Rightarrow> (case cJSON_GetObjectItem j field of Some (JArr xs) \<Rightarrow> Some (JArr xs) | _ \<Rightarrow> None))"

definition json_array_count :: "jptr \<Rightarrow> nat" where
  "json_array_count arr = (case arr of None \<Rightarrow> 0 | Some j \<Rightarrow> cJSON_GetArraySize j)"

definition json_array_item :: "jptr \<Rightarrow> int \<Rightarrow> jptr" where
  "json_array_item arr i = (case arr of None \<Rightarrow> None | Some j \<Rightarrow> cJSON_GetArrayItem j i)"

definition json_array_get_string :: "jptr \<Rightarrow> int \<Rightarrow> nat \<Rightarrow> string option" where
  "json_array_get_string arr i max_len =
     (case json_array_item arr i of Some (JStr s) \<Rightarrow> Some (cstr_copy max_len s) | _ \<Rightarrow> None)"

definition json_is_valid_object :: "(string \<Rightarrow> json option) \<Rightarrow> string option \<Rightarrow> bool" where
  "json_is_valid_object parse js =
     (case json_parse parse js of None \<Rightarrow> False | Some j \<Rightarrow> cJSON_IsObject j)"

definition json_has_field :: "(string \<Rightarrow> json option) \<Rightarrow> string option \<Rightarrow> string \<Rightarrow> bool" where
  "json_has_field parse js field =
     (case json_parse parse js of None \<Rightarrow> False | Some j \<Rightarrow> cJSON_GetObjectItem j field \<noteq> None)"

definition json_field_is_string :: "(string \<Rightarrow> json option) \<Rightarrow> string option \<Rightarrow> string \<Rightarrow> bool" where
  "json_field_is_string parse js field =
     (case json_parse parse js of None \<Rightarrow> False
      | Some j \<Rightarrow> (case cJSON_GetObjectItem j field of Some (JStr _) \<Rightarrow> True | _ \<Rightarrow> False))"

definition json_string_matches :: "string option \<Rightarrow> string list \<Rightarrow> bool" where
  "json_string_matches str cands = (case str of None \<Rightarrow> False | Some s \<Rightarrow> s \<in> set cands)"

section \<open>Facts\<close>

lemmas json_accessor_defs = json_get_string_def json_get_string_ptr_def json_get_int_def
  json_get_bool_def json_get_object_def json_get_array_def get_into_def

lemma json_get_None [simp]:
  "json_get_string None f n = None" "json_get_string_ptr None f = None" "json_get_int None f = 0"
  "json_get_bool None f = False" "json_get_object None f = None" "json_get_array None f = None"
  "get_into None f n d = d"
  by (simp_all add: json_accessor_defs)

lemma json_get_string_bound: "json_get_string obj f n = Some s \<Longrightarrow> 0 < n \<Longrightarrow> length s < n"
  by (auto simp: json_get_string_def length_cstr_copy_less split: option.splits json.splits)

lemma get_into_bound: "length d < n \<Longrightarrow> length (get_into obj f n d) < n"
  by (auto simp: get_into_def dest: json_get_string_bound split: option.splits)

lemma json_get_string_ptr_iff:
  "json_get_string obj f n = map_option (cstr_copy n) (json_get_string_ptr obj f)"
  by (auto simp: json_accessor_defs split: option.splits json.splits)

lemma json_array_item_Some:
  "json_array_item arr i = Some j \<Longrightarrow> 0 \<le> i \<and> nat i < json_array_count arr"
  by (auto simp: json_array_item_def json_array_count_def cJSON_GetArrayItem_def
      cJSON_GetArraySize_def split: option.splits if_splits)

lemma members_item_append:
  "members_item (kvs @ kws) f = (case members_item kvs f of None \<Rightarrow> members_item kws f | Some v \<Rightarrow> Some v)"
  by (induction kvs) auto

lemma ci_eq_refl [simp]: "ci_eq a a"
  by (simp add: ci_eq_def)

lemma cval_to_lower: "cval (to_lower c) = (if 65 \<le> cval c \<and> cval c \<le> 90 then cval c + 32 else cval c)"
  by (simp add: to_lower_def cval_def)

lemma ci_eq_length: "ci_eq u v \<Longrightarrow> length u = length v"
  unfolding ci_eq_def by (rule map_eq_imp_length_eq)

lemma ci_eq_cval: "ci_eq u v = (map (cval \<circ> to_lower) u = map (cval \<circ> to_lower) v)"
  by (metis ci_eq_def cval_eq_iff inj_map_eq_map injI list.map_comp)

lemma ci_eq_vals:
  "ci_eq u v = (map (\<lambda>c. let n = of_char c :: nat in if 65 \<le> n \<and> n \<le> 90 then n + 32 else n) u
    = map (\<lambda>c. let n = of_char c in if 65 \<le> n \<and> n \<le> 90 then n + 32 else n) v)"
  unfolding ci_eq_cval comp_def cval_to_lower Let_def by (simp only: cval_def)

end
