(* ===== verification/Json_Text.thy ===== *)
theory Json_Text
  imports Json_Value
begin

text \<open>
  JSON text: escaping, decoding and the ad-hoc extractors of \<^verbatim>\<open>src/json_utils.c\<close>.

  \<open>json_escape\<close> writes into a bounded buffer and stops early when fewer than nine bytes
  are left, so its result is the escape of a prefix of the source. \<open>json_decode_string\<close>
  keeps the escape \<open>\u\<close> and its digits as they are (the source says so); a backslash at
  the very end of the input makes it step over the terminating NUL, which the model
  reports as \<open>DecOverrun\<close>.
\<close>

abbreviation bslash :: char where "bslash \<equiv> CHR 0x5C"
abbreviation dquote :: char where "dquote \<equiv> CHR 0x22"

section \<open>Escaping\<close>

definition hex4 :: "nat \<Rightarrow> string" where
  "hex4 n = [digit_char (n div 4096 mod 16), digit_char (n div 256 mod 16),
             digit_char (n div 16 mod 16), digit_char (n mod 16)]"

definition esc_char :: "char \<Rightarrow> string" where
  "esc_char c =
     (if c = dquote then [bslash, dquote]
      else if c = bslash then [bslash, bslash]
      else if c = CHR 0x08 then [bslash, CHR ''b'']
      else if c = CHR 0x0C then [bslash, CHR ''f'']
      else if c = CHR 0x0A then [bslash, CHR ''n'']
      else if c = CHR 0x0D then [bslash, CHR ''r'']
      else if c = CHR 0x09 then [bslash, CHR ''t'']
      else if cval c < 32 then [bslash, CHR ''u''] @ hex4 (cval c)
      else [c])"

fun escape_loop :: "nat \<Rightarrow> nat \<Rightarrow> string \<Rightarrow> string" where
  "escape_loop max_len pos [] = []"
| "escape_loop max_len pos (c # s) =
     (if pos + 8 < max_len then
        (let esc = esc_char c
         in if pos + length esc \<ge> max_len - 1 then []
            else esc @ escape_loop max_len (pos + length esc) s)
      else [])"

text \<open>The destination after the call; with \<open>max_len = 0\<close> it is not written.\<close>

definition json_escape :: "string \<Rightarrow> nat \<Rightarrow> string" where
  "json_escape src max_len = escape_loop max_len 0 src"

definition esc_all :: "string \<Rightarrow> string" where
  "esc_all s = concat (map esc_char s)"

section \<open>Decoding\<close>

datatype decode_result =
    DecOk string string     \<comment> \<open>destination, input after the closing quote\<close>
  | DecFail string          \<comment> \<open>destination so far\<close>
  | DecOverrun              \<comment> \<open>the scan has passed the terminating NUL\<close>

definition unesc :: "char \<Rightarrow> char" where
  "unesc d =
     (if d = CHR ''b'' then CHR 0x08 else if d = CHR ''f'' then CHR 0x0C
      else if d = CHR ''n'' then CHR 0x0A else if d = CHR ''r'' then CHR 0x0D
      else if d = CHR ''t'' then CHR 0x09 else d)"

fun decode_loop :: "nat \<Rightarrow> string \<Rightarrow> string \<Rightarrow> decode_result" where
  "decode_loop limit dest [] = DecFail dest"
| "decode_loop limit dest (c # p) =
     (if \<not> length dest < limit then DecFail dest
      else if c = bslash then
        (case p of
           [] \<Rightarrow> DecOverrun
         | d # q \<Rightarrow>
             if d = CHR ''u'' then
               (let hex = [bslash, CHR ''u''] @ take 4 q
                in decode_loop limit (if length dest + length hex < limit then dest @ hex else dest)
                     (drop 4 q))
             else decode_loop limit (dest @ [unesc d]) q)
      else if c = dquote then DecOk dest p
      else decode_loop limit (dest @ [c]) p)"

text \<open>
  \<open>max_len - 1\<close> is a \<open>size_t\<close> expression: with \<open>max_len = 0\<close> the bound is
  \<open>2 ^ 64 - 1\<close>. The result \<open>None\<close> is the early \<open>return false\<close> with nothing written.
\<close>

definition json_decode_string :: "string \<Rightarrow> nat \<Rightarrow> decode_result option" where
  "json_decode_string p max_len =
     (case p of [] \<Rightarrow> None
      | c # q \<Rightarrow> if c \<noteq> dquote then None
          else Some (decode_loop (if max_len = 0 then 2 ^ 64 - 1 else max_len - 1) [] q))"

section \<open>Probes and extractors\<close>

definition json_probe_first_byte :: "string \<Rightarrow> nat \<Rightarrow> char" where
  "json_probe_first_byte body len =
     (case filter (\<lambda>c. \<not> is_space c) (take len body) of [] \<Rightarrow> CHR 0x00 | c # _ \<Rightarrow> c)"

definition field_pattern :: "string \<Rightarrow> string \<Rightarrow> string" where
  "field_pattern field tail = cstr_copy 128 ([dquote] @ field @ [dquote, CHR '':''] @ tail)"

text \<open>The result and, where the pattern was found, what was written to \<open>dest\<close>.\<close>

definition json_extract_string :: "string \<Rightarrow> string \<Rightarrow> nat \<Rightarrow> bool \<times> string option" where
  "json_extract_string js field max_len =
     (let pattern = field_pattern field [dquote]
      in case strstr js pattern of
           None \<Rightarrow> (False, None)
         | Some p \<Rightarrow>
             let dest = take (max_len - 1) (takeWhile (\<lambda>c. c \<noteq> dquote) (drop (length pattern) p))
             in (dest \<noteq> [], Some dest))"

fun digits_value :: "int \<Rightarrow> string \<Rightarrow> int" where
  "digits_value acc [] = acc"
| "digits_value acc (c # s) = digits_value (acc * 10 + (int (cval c) - 48)) s"

text \<open>\<open>None\<close>: the accumulation overflows \<open>int\<close>, which is undefined in C.\<close>

definition json_extract_int :: "string \<Rightarrow> string \<Rightarrow> int \<Rightarrow> int option" where
  "json_extract_int js field fallback =
     (let pattern = field_pattern field []
      in case strstr js pattern of
           None \<Rightarrow> Some fallback
         | Some p \<Rightarrow>
             let q = dropWhile is_blank (drop (length pattern) p);
                 ds = takeWhile is_digit q
             in if ds = [] then Some fallback
                else if digits_value 0 ds < 2 ^ 31 then Some (digits_value 0 ds) else None)"

definition json_extract_bool :: "string \<Rightarrow> string \<Rightarrow> bool \<Rightarrow> bool" where
  "json_extract_bool js field fallback =
     (let pattern = field_pattern field []
      in case strstr js pattern of
           None \<Rightarrow> fallback
         | Some p \<Rightarrow>
             let q = dropWhile is_blank (drop (length pattern) p)
             in if take 4 q = ''true'' then True
                else if take 5 q = ''false'' then False else fallback)"

section \<open>Facts about escaping\<close>

definition plain_escape :: "char \<Rightarrow> bool" where
  "plain_escape c =
     (c \<in> {dquote, bslash, CHR 0x08, CHR 0x09, CHR 0x0A, CHR 0x0C, CHR 0x0D})"

lemma length_esc_char: "1 \<le> length (esc_char c)" "length (esc_char c) \<le> 6"
  by (simp_all add: esc_char_def hex4_def)

text \<open>The three shapes of an escape.\<close>

lemma esc_char_cases:
  obtains (literal) "esc_char c = [c]" "c \<noteq> bslash" "c \<noteq> dquote" "32 \<le> cval c"
  | (short) d where "esc_char c = [bslash, d]" "d \<noteq> CHR ''u''" "unesc d = c" "plain_escape c"
  | (unicode) h1 h2 h3 h4 where "esc_char c = [bslash, CHR ''u'', h1, h2, h3, h4]"
      "hex4 (cval c) = [h1, h2, h3, h4]" "cval c < 32" "\<not> plain_escape c"
proof (cases "plain_escape c")
  case True
  then have "\<exists>d. esc_char c = [bslash, d] \<and> d \<noteq> CHR ''u'' \<and> unesc d = c"
    by (auto simp: plain_escape_def esc_char_def unesc_def)
  then show ?thesis using short True by blast
next
  case False
  then have e: "esc_char c = (if cval c < 32 then [bslash, CHR ''u''] @ hex4 (cval c) else [c])"
    by (simp add: plain_escape_def esc_char_def)
  show ?thesis
  proof (cases "cval c < 32")
    case True
    then show ?thesis using e unicode False by (simp add: hex4_def)
  next
    case big: False
    with e False show ?thesis using literal by (simp add: plain_escape_def)
  qed
qed

lemma cval_digit_char: "d < 16 \<Longrightarrow> cval (digit_char d) = (if d < 10 then 48 + d else 87 + d)"
  by (simp add: digit_char_def cval_def)

lemma hex4_printable: "c \<in> set (hex4 n) \<Longrightarrow> 48 \<le> cval c \<and> cval c \<noteq> 92 \<and> cval c \<noteq> 34"
  by (auto simp: hex4_def cval_digit_char split: if_splits)

lemma esc_char_printable:
  assumes d: "d \<in> set (esc_char c)"
  shows "32 \<le> cval d"
proof (cases c rule: esc_char_cases)
  case literal
  with d show ?thesis by simp
next
  case (short e)
  then have "d = bslash \<or> d \<in> set (tl (esc_char c))" using d by auto
  moreover have "\<forall>e \<in> set (tl (esc_char c)). 32 \<le> cval e"
    using short(4) by (auto simp: plain_escape_def esc_char_def cval_def)
  ultimately show ?thesis by (auto simp: cval_def)
next
  case (unicode h1 h2 h3 h4)
  then have "d = bslash \<or> d = CHR ''u'' \<or> d \<in> set (hex4 (cval c))" using d by auto
  then show ?thesis using hex4_printable [of d "cval c"] by (auto simp: cval_def)
qed

lemma escape_loop_prefix:
  "\<exists>k. k \<le> length s \<and> escape_loop max_len pos s = esc_all (take k s)
     \<and> (pos + length (esc_all s) + 8 \<le> max_len \<longrightarrow> k = length s)"
proof (induction s arbitrary: pos)
  case Nil
  then show ?case by (simp add: esc_all_def)
next
  case (Cons c s)
  show ?case
  proof (cases "pos + 8 < max_len")
    case False
    then have "\<not> pos + length (esc_all (c # s)) + 8 \<le> max_len"
      using length_esc_char(1) [of c] unfolding esc_all_def list.map concat.simps length_append
      by linarith
    with False show ?thesis by (intro exI [of _ 0]) (auto simp: esc_all_def)
  next
    case True
    from Cons.IH [of "pos + length (esc_char c)"] obtain k where
      k: "k \<le> length s" "escape_loop max_len (pos + length (esc_char c)) s = esc_all (take k s)"
         "pos + length (esc_char c) + length (esc_all s) + 8 \<le> max_len \<longrightarrow> k = length s"
      by blast
    have "\<not> pos + length (esc_char c) \<ge> max_len - 1"
      using True length_esc_char(2) [of c] by linarith
    then have "escape_loop max_len pos (c # s) = esc_all (take (Suc k) (c # s))"
      using True k(2) by (simp add: esc_all_def Let_def)
    then show ?thesis using k by (intro exI [of _ "Suc k"]) (auto simp: esc_all_def)
  qed
qed

lemma escape_loop_bound: "pos < max_len \<Longrightarrow> pos + length (escape_loop max_len pos s) < max_len"
proof (induction s arbitrary: pos)
  case Nil
  then show ?case by simp
next
  case (Cons c s)
  show ?case
  proof (cases "pos + 8 < max_len \<and> \<not> pos + length (esc_char c) \<ge> max_len - 1")
    case True
    then have "pos + length (esc_char c) < max_len" by linarith
    from Cons.IH [OF this] True show ?thesis by (simp add: Let_def)
  next
    case False
    with Cons.prems show ?thesis by (auto simp: Let_def)
  qed
qed

lemma json_escape_bound: "0 < max_len \<Longrightarrow> length (json_escape s max_len) < max_len"
  using escape_loop_bound [of 0 max_len s] by (simp add: json_escape_def)

lemma json_escape_fits: "length (esc_all s) + 8 \<le> max_len \<Longrightarrow> json_escape s max_len = esc_all s"
  using escape_loop_prefix [of s max_len 0] by (auto simp: json_escape_def)

lemma length_esc_all_le: "length (esc_all s) \<le> 6 * length s"
proof (induction s)
  case (Cons c s)
  then show ?case using length_esc_char(2) [of c] by (simp add: esc_all_def)
qed (simp add: esc_all_def)

lemma esc_all_printable: "c \<in> set (esc_all s) \<Longrightarrow> 32 \<le> cval c"
  by (auto simp: esc_all_def dest: esc_char_printable)

text \<open>Decoding what was escaped: a control character comes back as its \<open>\u\<close> escape.\<close>

definition plain :: "char \<Rightarrow> bool" where
  "plain c = (32 \<le> cval c \<or> plain_escape c)"

definition dec_view :: "char \<Rightarrow> string" where
  "dec_view c = (if plain c then [c] else [bslash, CHR ''u''] @ hex4 (cval c))"

lemma length_dec_view: "length (dec_view c) \<le> 6"
  by (simp add: dec_view_def hex4_def)

lemma decode_loop_esc_char:
  assumes "length dest + 6 < limit"
  shows "decode_loop limit dest (esc_char c @ p) = decode_loop limit (dest @ dec_view c) p"
proof (cases c rule: esc_char_cases)
  case literal
  with assms show ?thesis by (simp add: dec_view_def plain_def)
next
  case (short d)
  with assms show ?thesis by (simp add: dec_view_def plain_def)
next
  case (unicode h1 h2 h3 h4)
  with assms show ?thesis by (simp add: dec_view_def plain_def Let_def)
qed

lemma decode_loop_esc_all:
  assumes "length dest + 6 * length s + 1 < limit"
  shows "decode_loop limit dest (esc_all s @ dquote # p) = DecOk (dest @ concat (map dec_view s)) p"
  using assms
proof (induction s arbitrary: dest)
  case Nil
  then show ?case by (simp add: esc_all_def)
next
  case (Cons c s)
  have "length (dest @ dec_view c) + 6 * length s + 1 < limit"
    using Cons.prems length_dec_view [of c] by simp
  from Cons.IH [OF this] Cons.prems show ?case
    by (simp add: esc_all_def decode_loop_esc_char)
qed

lemma concat_dec_view_plain: "(\<forall>c \<in> set s. plain c) \<Longrightarrow> concat (map dec_view s) = s"
  by (induction s) (simp_all add: dec_view_def)

section \<open>Properties\<close>

text \<open>Property C29: \<open>json_escape\<close> never writes past its buffer, its result is the escape of a
  prefix of the source, contains no control character, and is the escape of the whole source
  when eight bytes are to spare.\<close>

theorem json_escape_safe:
  assumes "0 < max_len"
  shows "length (json_escape src max_len) < max_len
    \<and> (\<exists>k. json_escape src max_len = esc_all (take k src)
          \<and> (length (esc_all src) + 8 \<le> max_len \<longrightarrow> k = length src))
    \<and> (\<forall>c \<in> set (json_escape src max_len). 32 \<le> cval c)"
proof -
  obtain k where k: "json_escape src max_len = esc_all (take k src)"
    "length (esc_all src) + 8 \<le> max_len \<longrightarrow> k = length src"
    using escape_loop_prefix [of src max_len 0] by (auto simp: json_escape_def)
  then have "\<forall>c \<in> set (json_escape src max_len). 32 \<le> cval c" by (simp add: esc_all_printable)
  with k show ?thesis using json_escape_bound [OF assms, of src] by blast
qed

theorem json_escape_safe_witness:
  "length (json_escape [dquote, CHR 0x0A, CHR ''x''] 13) < 13
    \<and> (\<exists>k. json_escape [dquote, CHR 0x0A, CHR ''x''] 13 = esc_all (take k [dquote, CHR 0x0A, CHR ''x'']))"
  using json_escape_safe [of 13 "[dquote, CHR 0x0A, CHR ''x'']"] by auto

text \<open>Property C28: a string of printable characters and of the control characters with a short
  escape comes back unchanged from escaping and decoding, and the decoder stops right after
  the closing quote.\<close>

theorem json_text_roundtrip:
  assumes "\<forall>c \<in> set s. plain c" and "6 * length s + 8 \<le> n" and "6 * length s + 3 \<le> m"
  shows "json_decode_string ([dquote] @ json_escape s n @ [dquote] @ p) m = Some (DecOk s p)"
proof -
  have "json_escape s n = esc_all s"
    using length_esc_all_le [of s] assms(2) by (intro json_escape_fits) simp
  moreover have "decode_loop (m - 1) [] (esc_all s @ dquote # p) = DecOk s p"
    using decode_loop_esc_all [of "[]" s "m - 1" p] assms(1,3) by (simp add: concat_dec_view_plain)
  ultimately show ?thesis using assms(3) by (simp add: json_decode_string_def)
qed

theorem json_text_roundtrip_witness:
  "json_decode_string ([dquote] @ json_escape [CHR ''a'', dquote, CHR 0x0A] 26 @ [dquote] @ ''}'') 21
   = Some (DecOk [CHR ''a'', dquote, CHR 0x0A] ''}'')"
  by (rule json_text_roundtrip) (simp_all add: plain_def plain_escape_def cval_def)

end
