(* ===== verification/Frame_Protocol.thy ===== *)
theory Frame_Protocol
  imports Json_Text
begin

text \<open>
  The length-prefixed frame protocol between the bridge and the native agent
  (\<^verbatim>\<open>src/native_frame.c\<close> and the byte helpers of \<^verbatim>\<open>src/uds_transport.c\<close>).

  What the operating system does with a descriptor is a script: the list of outcomes of the
  \<open>poll\<close> and \<open>read\<close> calls, in order. \<open>Read_Data bs\<close> is a run of bytes that has arrived; a
  \<open>read\<close> takes at most as many as it asks for and leaves the rest. End of file stays at the
  head of the script. An exhausted script is a silent peer: a blocking read waits for ever
  (\<open>RBlocked\<close>), a read with a deadline expires. The writing side is a script of \<open>write\<close>
  outcomes; when it is exhausted the kernel takes everything.

  The header is the host's \<open>uint32_t\<close>, read as little endian, as the protocol documents it.
  \<open>malloc_ok\<close> says which allocations succeed.
\<close>

section \<open>Reading bytes\<close>

datatype io =
    Read_Data bytes | Read_Eof | Read_Intr | Read_Err
  | Poll_Expired | Poll_Intr | Poll_Err | Poll_Hup

text \<open>What is left in a script: its bytes and its other outcomes.\<close>

definition io_size :: "io list \<Rightarrow> nat" where
  "io_size es = sum_list (map (\<lambda>e. case e of Read_Data bs \<Rightarrow> length bs + 1 | _ \<Rightarrow> 1) es)"

lemma io_size_simps [simp]:
  "io_size [] = 0" "io_size (Read_Data bs # es) = Suc (length bs + io_size es)"
  "io_size (Read_Eof # es) = Suc (io_size es)" "io_size (Read_Intr # es) = Suc (io_size es)"
  "io_size (Read_Err # es) = Suc (io_size es)" "io_size (Poll_Expired # es) = Suc (io_size es)"
  "io_size (Poll_Intr # es) = Suc (io_size es)" "io_size (Poll_Err # es) = Suc (io_size es)"
  "io_size (Poll_Hup # es) = Suc (io_size es)"
  by (simp_all add: io_size_def)

lemma io_size_Cons: "io_size es \<le> io_size (e # es)"
  by (cases e) simp_all

datatype rres = RBytes bytes | RErr | RBlocked

fun read_all :: "nat \<Rightarrow> bytes \<Rightarrow> io list \<Rightarrow> rres \<times> io list" where
  "read_all count buf [] = (if length buf < count then RBlocked else RBytes buf, [])"
| "read_all count buf (e # es) =
     (if \<not> length buf < count then (RBytes buf, e # es)
      else case e of
        Read_Data bs \<Rightarrow>
          (if bs = [] then (RBytes buf, e # es)
           else if length bs \<le> count - length buf then read_all count (buf @ bs) es
           else (RBytes (buf @ take (count - length buf) bs),
                 Read_Data (drop (count - length buf) bs) # es))
      | Read_Eof \<Rightarrow> (RBytes buf, e # es)
      | Read_Intr \<Rightarrow> read_all count buf es
      | Read_Err \<Rightarrow> (RErr, es)
      | _ \<Rightarrow> read_all count buf es)"

text \<open>
  The polling loop. The second component is the flag \<open>timed_out\<close>; \<open>remaining\<close> loses a
  nominal ten milliseconds for each successful read, whatever time has really passed.
\<close>

fun read_poll_loop :: "int \<Rightarrow> int \<Rightarrow> nat \<Rightarrow> bytes \<Rightarrow> io list \<Rightarrow> (rres \<times> bool) \<times> io list" where
  "read_poll_loop deadline remaining count buf [] =
     (if \<not> length buf < count then ((RBytes buf, False), [])
      else ((RBytes buf, True), []))"
| "read_poll_loop deadline remaining count buf (e # es) =
     (if \<not> length buf < count then ((RBytes buf, False), e # es)
      else if deadline > 0 \<and> remaining \<le> 0 then ((RBytes buf, True), e # es)
      else case e of
        Poll_Intr \<Rightarrow> read_poll_loop deadline remaining count buf es
      | Poll_Err \<Rightarrow> ((RErr, False), es)
      | Poll_Expired \<Rightarrow> ((RBytes buf, True), es)
      | Poll_Hup \<Rightarrow> ((RErr, False), es)
      | Read_Eof \<Rightarrow> ((RBytes buf, False), e # es)
      | Read_Intr \<Rightarrow> read_poll_loop deadline remaining count buf es
      | Read_Err \<Rightarrow> ((RErr, False), es)
      | Read_Data bs \<Rightarrow>
          (if bs = [] then ((RBytes buf, False), e # es)
           else
             let k = count - length buf;
                 es' = (if length bs \<le> k then es else Read_Data (drop k bs) # es)
             in if deadline = 0 \<or> length bs \<ge> k then ((RBytes (buf @ take k bs), False), es')
                else read_poll_loop deadline (max 0 (remaining - 10)) count (buf @ bs) es))"

definition read_all_deadline :: "nat \<Rightarrow> int \<Rightarrow> io list \<Rightarrow> (rres \<times> bool) \<times> io list" where
  "read_all_deadline count deadline_ms es =
     (if deadline_ms < 0
      then (case read_all count [] es of (r, es') \<Rightarrow> ((r, False), es'))
      else read_poll_loop deadline_ms deadline_ms count [] es)"

section \<open>Reading and writing frames\<close>

definition FRAME_MAX_PAYLOAD :: nat where
  "FRAME_MAX_PAYLOAD = 16777216"

definition le32_decode :: "bytes \<Rightarrow> nat" where
  "le32_decode bs = cval (bs ! 0) + 256 * cval (bs ! 1) + 65536 * cval (bs ! 2) + 16777216 * cval (bs ! 3)"

definition le32_encode :: "nat \<Rightarrow> bytes" where
  "le32_encode n = map char_of [n mod 256, n div 256 mod 256, n div 65536 mod 256, n div 16777216 mod 256]"

datatype frame_result = Frame bytes | Frame_Error string | Frame_Blocked

definition frame_read_payload ::
    "(nat \<Rightarrow> bool) \<Rightarrow> nat \<Rightarrow> int \<Rightarrow> io list \<Rightarrow> frame_result \<times> io list" where
  "frame_read_payload malloc_ok len deadline_ms es =
     (if \<not> malloc_ok (len + 1) then (Frame_Error ''out_of_memory'', es)
      else
        let payload_deadline = (if deadline_ms > 0 then max 0 (deadline_ms - 10) else deadline_ms)
        in case read_all_deadline len payload_deadline es of
             ((RBlocked, _), es') \<Rightarrow> (Frame_Blocked, es')
           | ((RErr, timed_out), es') \<Rightarrow>
               (Frame_Error (if timed_out then ''timeout'' else ''read_error''), es')
           | ((RBytes bs, timed_out), es') \<Rightarrow>
               if bs = [] then (Frame_Error (if timed_out then ''timeout'' else ''read_error''), es')
               else if length bs < len then
                 (Frame_Error (if timed_out then ''timeout'' else ''truncated_payload''), es')
               else (Frame bs, es'))"

definition frame_read :: "(nat \<Rightarrow> bool) \<Rightarrow> int \<Rightarrow> io list \<Rightarrow> frame_result \<times> io list" where
  "frame_read malloc_ok deadline_ms es =
     (case read_all_deadline 4 deadline_ms es of
        ((RBlocked, _), es') \<Rightarrow> (Frame_Blocked, es')
      | ((RErr, timed_out), es') \<Rightarrow>
          (Frame_Error (if timed_out then ''timeout'' else ''read_error''), es')
      | ((RBytes hdr, timed_out), es') \<Rightarrow>
          if hdr = [] then (Frame_Error (if timed_out then ''timeout'' else ''read_error''), es')
          else if length hdr < 4 then
            (Frame_Error (if timed_out then ''timeout'' else ''truncated_header''), es')
          else
            let len = le32_decode hdr
            in if len > FRAME_MAX_PAYLOAD then (Frame_Error ''payload_too_large'', es')
               else if len = 0 then (Frame [], es')
               else frame_read_payload malloc_ok len deadline_ms es')"

datatype wr = Wrote nat | Write_Intr | Write_Err

text \<open>The payload loop: result, bytes that reached the descriptor, remaining script.\<close>

fun write_payload :: "wr list \<Rightarrow> bytes \<Rightarrow> bool \<times> bytes \<times> wr list" where
  "write_payload [] data = (True, data, [])"
| "write_payload (w # ws) data =
     (if data = [] then (True, [], w # ws)
      else case w of
        Wrote n \<Rightarrow>
          (if n = 0 then (False, [], ws)
           else case write_payload ws (drop n data) of
                  (ok, out, ws') \<Rightarrow> (ok, take n data @ out, ws'))
      | Write_Intr \<Rightarrow> write_payload ws data
      | Write_Err \<Rightarrow> (False, [], ws))"

text \<open>The header must go out in one \<open>write\<close> of four bytes; its length is truncated to 32 bits.\<close>

definition frame_write :: "wr list \<Rightarrow> bytes \<Rightarrow> bool \<times> bytes \<times> wr list" where
  "frame_write ws data =
     (let net_len = length data mod 2 ^ 32
      in if net_len > FRAME_MAX_PAYLOAD then (False, [], ws)
         else case ws of
           Wrote n # ws' \<Rightarrow>
             (if n < 4 then (False, take n (le32_encode net_len), ws')
              else case write_payload ws' data of
                     (ok, out, ws'') \<Rightarrow> (ok, le32_encode net_len @ out, ws''))
         | Write_Intr # ws' \<Rightarrow> (False, [], ws')
         | Write_Err # ws' \<Rightarrow> (False, [], ws')
         | [] \<Rightarrow> (True, le32_encode net_len @ data, []))"

text \<open>
  \<open>prefix_len\<close> is what \<open>snprintf\<close> would have written: with a type of more than 234 escaped
  bytes the copy reads past \<open>prefix[256]\<close> (\<open>None\<close>).
\<close>

definition typed_prefix :: "string \<Rightarrow> string" where
  \<open>typed_prefix ty = ''{"type":"'' @ json_escape ty 256 @ ''","payload":''\<close>

definition frame_write_typed ::
    "(nat \<Rightarrow> bool) \<Rightarrow> wr list \<Rightarrow> string \<Rightarrow> bytes \<Rightarrow> (bool \<times> bytes \<times> wr list) option" where
  "frame_write_typed malloc_ok ws ty body =
     (let pre = typed_prefix ty; total_len = length pre + length body + 1
      in if \<not> malloc_ok total_len then Some (False, [], ws)
         else if length pre \<ge> 256 then None
         else Some (frame_write ws (pre @ body @ ''}'')))"

definition frame_get_type ::
    "(string \<Rightarrow> json option) \<Rightarrow> bytes \<Rightarrow> string option" where
  "frame_get_type parse frame =
     (if frame = [] then None
      else case parse frame of None \<Rightarrow> None
        | Some obj \<Rightarrow> json_get_string (Some obj) ''type'' 64)"

section \<open>Facts about reading\<close>

text \<open>A clean script delivers bytes, interrupted at most by signals.\<close>

definition clean :: "io list \<Rightarrow> bool" where
  "clean es = list_all (\<lambda>e. case e of Read_Data bs \<Rightarrow> bs \<noteq> [] | Read_Intr \<Rightarrow> True | _ \<Rightarrow> False) es"

definition wire :: "io list \<Rightarrow> bytes" where
  "wire es = concat (map (\<lambda>e. case e of Read_Data bs \<Rightarrow> bs | _ \<Rightarrow> []) es)"

lemma clean_simps [simp]:
  "clean []" "clean (Read_Data bs # es) \<longleftrightarrow> bs \<noteq> [] \<and> clean es" "clean (Read_Intr # es) \<longleftrightarrow> clean es"
  by (simp_all add: clean_def)

lemma clean_Cons_cases:
  assumes "clean (e # es)"
  obtains (data) bs where "e = Read_Data bs" "bs \<noteq> []" "clean es"
  | (intr) "e = Read_Intr" "clean es"
  using assms by (cases e) (auto simp: clean_def)

lemma wire_simps [simp]:
  "wire [] = []" "wire (Read_Data bs # es) = bs @ wire es" "wire (Read_Intr # es) = wire es"
  by (simp_all add: wire_def)

lemma read_all_clean:
  assumes "clean es" and "length buf \<le> count" and "count \<le> length buf + length (wire es)"
  shows "\<exists>es'. read_all count buf es = (RBytes (buf @ take (count - length buf) (wire es)), es')
      \<and> clean es' \<and> wire es' = drop (count - length buf) (wire es)"
  using assms
proof (induction count buf es rule: read_all.induct)
  case (1 count buf)
  then show ?case by simp
next
  case (2 count buf e es)
  show ?case
  proof (cases "length buf < count")
    case False
    with "2.prems" show ?thesis by simp
  next
    case less: True
    from "2.prems"(1) show ?thesis
    proof (cases rule: clean_Cons_cases)
      case (data bs)
      show ?thesis
      proof (cases "length bs \<le> count - length buf")
        case True
        have "\<exists>es'. read_all count (buf @ bs) es
            = (RBytes ((buf @ bs) @ take (count - length (buf @ bs)) (wire es)), es')
            \<and> clean es' \<and> wire es' = drop (count - length (buf @ bs)) (wire es)"
          using less True data "2.prems" by (intro "2.IH"(1)) auto
        then show ?thesis using data less True by simp
      next
        case False
        then show ?thesis using data less by simp
      qed
    next
      case intr
      then show ?thesis using less "2.prems" "2.IH"(2) by simp
    qed
  qed
qed

lemma read_all_bound:
  "length buf \<le> count \<Longrightarrow> read_all count buf es = (RBytes bs, es') \<Longrightarrow> length bs \<le> count"
  by (induction count buf es rule: read_all.induct) (auto split: if_splits io.splits)

lemma read_poll_loop_bound:
  "length buf \<le> count \<Longrightarrow> read_poll_loop d r count buf es = ((RBytes bs, t), es') \<Longrightarrow> length bs \<le> count"
proof (induction d r count buf es rule: read_poll_loop.induct)
  case (1 deadline remaining count buf)
  then show ?case by (auto split: if_splits)
next
  case (2 deadline remaining count buf e es)
  then show ?case by (auto simp: Let_def split: if_splits io.splits)
qed

lemma read_all_deadline_bound:
  "read_all_deadline count d es = ((RBytes bs, t), es') \<Longrightarrow> length bs \<le> count"
  by (auto simp: read_all_deadline_def dest: read_all_bound [rotated] read_poll_loop_bound [rotated]
      split: if_splits prod.splits)

lemma le32_round: "n < 2 ^ 32 \<Longrightarrow> le32_decode (le32_encode n) = n"
proof -
  assume n: "n < 2 ^ 32"
  have d1: "n div 65536 = n div 256 div 256" and d2: "n div 16777216 = n div 256 div 256 div 256"
    by (simp_all add: div_mult2_eq [symmetric])
  have "n div 256 div 256 div 256 < 256" using n by (simp add: div_mult2_eq [symmetric] less_mult_imp_div_less)
  then have "le32_decode (le32_encode n) = n mod 256 + 256 * (n div 256 mod 256)
      + 65536 * (n div 256 div 256 mod 256) + 16777216 * (n div 256 div 256 div 256)"
    unfolding le32_decode_def le32_encode_def d1 d2 cval_def by simp
  moreover have "n = n mod 256 + 256 * (n div 256)"
    and "n div 256 = n div 256 mod 256 + 256 * (n div 256 div 256)"
    and "n div 256 div 256 = n div 256 div 256 mod 256 + 256 * (n div 256 div 256 div 256)"
    by simp_all
  ultimately show ?thesis by linarith
qed

lemma length_le32 [simp]: "length (le32_encode n) = 4"
  by (simp add: le32_encode_def)

lemma le32_not_Nil [simp]: "le32_encode n \<noteq> []"
  by (simp add: le32_encode_def)

definition frame_encode :: "bytes \<Rightarrow> bytes" where
  "frame_encode data = le32_encode (length data) @ data"

lemma read_all_deadline_clean:
  assumes "clean es" and "count \<le> length (wire es)"
  shows "\<exists>es'. read_all_deadline count (- 1) es = ((RBytes (take count (wire es)), False), es')
      \<and> clean es' \<and> wire es' = drop count (wire es)"
  using read_all_clean [of es "[]" count] assms by (auto simp: read_all_deadline_def)

lemma frame_read_clean:
  assumes "clean es" and wire: "wire es = frame_encode data @ more"
    and len: "length data \<le> FRAME_MAX_PAYLOAD" and mem: "malloc_ok (length data + 1)"
  shows "\<exists>es'. frame_read malloc_ok (- 1) es = (Frame data, es') \<and> clean es' \<and> wire es' = more"
proof -
  from wire have w: "wire es = le32_encode (length data) @ data @ more"
    by (simp add: frame_encode_def)
  obtain es1 where h: "read_all_deadline 4 (- 1) es = ((RBytes (le32_encode (length data)), False), es1)"
    "clean es1" "wire es1 = data @ more"
    using read_all_deadline_clean [of es 4] assms(1) w by auto
  have dec: "le32_decode (le32_encode (length data)) = length data"
    using len by (intro le32_round) (simp add: FRAME_MAX_PAYLOAD_def)
  show ?thesis
  proof (cases "data = []")
    case True
    then show ?thesis using h dec by (simp add: frame_read_def FRAME_MAX_PAYLOAD_def)
  next
    case False
    obtain es2 where p: "read_all_deadline (length data) (- 1) es1 = ((RBytes data, False), es2)"
      "clean es2" "wire es2 = more"
      using read_all_deadline_clean [of es1 "length data"] h by auto
    then show ?thesis using h dec len mem False
      by (simp add: frame_read_def frame_read_payload_def Let_def)
  qed
qed

lemma frame_read_payload_bound:
  "frame_read_payload malloc_ok len d es = (Frame bs, es') \<Longrightarrow> length bs \<le> len"
  by (auto simp: frame_read_payload_def Let_def dest: read_all_deadline_bound
      split: prod.splits rres.splits if_splits)

lemma frame_read_bound:
  "frame_read malloc_ok d es = (Frame bs, es') \<Longrightarrow> length bs \<le> FRAME_MAX_PAYLOAD"
  by (auto simp: frame_read_def Let_def dest!: frame_read_payload_bound
      split: prod.splits rres.splits if_splits)

section \<open>Facts about writing\<close>

lemma write_payload_prefix:
  "write_payload ws data = (ok, out, ws') \<Longrightarrow> prefix out data \<and> (ok \<longrightarrow> out = data)"
proof (induction ws data arbitrary: ok out rule: write_payload.induct)
  case (1 data)
  then show ?case by simp
next
  case (2 w ws data)
  show ?case
  proof (cases "data = [] \<or> (\<forall>n. w \<noteq> Wrote n \<or> n = 0)")
    case True
    with 2 show ?thesis by (auto split: wr.splits if_splits)
  next
    case False
    then obtain n where n: "w = Wrote n" "n \<noteq> 0" "data \<noteq> []" by auto
    obtain ok1 out1 where r: "write_payload ws (drop n data) = (ok1, out1, ws')"
      and o: "ok = ok1" "out = take n data @ out1"
      using "2.prems" n by (auto split: prod.splits)
    have "prefix out1 (drop n data) \<and> (ok1 \<longrightarrow> out1 = drop n data)"
      using "2.IH"(1) [of n] n r by blast
    moreover have "data = take n data @ drop n data" by simp
    ultimately show ?thesis using o by (metis append_assoc prefix_def)
  qed
qed

lemma frame_write_prefix:
  assumes "frame_write ws data = (ok, out, ws')" and "length data < 2 ^ 32"
  shows "prefix out (frame_encode data)" and "ok \<Longrightarrow> out = frame_encode data"
    and "ok \<Longrightarrow> length data \<le> FRAME_MAX_PAYLOAD"
  using assms
  by (auto simp: frame_write_def frame_encode_def Let_def prefix_append take_is_prefix
      dest!: write_payload_prefix split: if_splits list.splits wr.splits prod.splits)

section \<open>The interface: a channel of messages\<close>

primrec recv_many :: "(io list \<Rightarrow> frame_result \<times> io list) \<Rightarrow> nat \<Rightarrow> io list \<Rightarrow> frame_result list" where
  "recv_many recv 0 es = []"
| "recv_many recv (Suc n) es = (case recv es of (r, es') \<Rightarrow> r # recv_many recv n es')"

text \<open>
  What the connection layer relies on: a message that was encoded onto the wire is the next
  message received, whatever pieces the wire delivers it in.
\<close>

locale message_channel =
  fixes encode :: "bytes \<Rightarrow> bytes"
    and fits :: "bytes \<Rightarrow> bool"
    and recv :: "io list \<Rightarrow> frame_result \<times> io list"
  assumes recv_encoded: "clean es \<Longrightarrow> wire es = encode m @ more \<Longrightarrow> fits m \<Longrightarrow>
      \<exists>es'. recv es = (Frame m, es') \<and> clean es' \<and> wire es' = more"
begin

lemma recv_many_encoded:
  "clean es \<Longrightarrow> wire es = concat (map encode ms) @ more \<Longrightarrow> list_all fits ms \<Longrightarrow>
   recv_many recv (length ms) es = map Frame ms"
proof (induction ms arbitrary: es)
  case Nil
  then show ?case by simp
next
  case (Cons m ms)
  then obtain es' where "recv es = (Frame m, es')" "clean es'" "wire es' = concat (map encode ms) @ more"
    using recv_encoded [of es m "concat (map encode ms) @ more"] by auto
  with Cons show ?case by simp
qed

end

lemma frame_channel:
  assumes "\<forall>n. malloc_ok n"
  shows "message_channel frame_encode (\<lambda>m. length m \<le> FRAME_MAX_PAYLOAD) (frame_read malloc_ok (- 1))"
  by unfold_locales (rule frame_read_clean, simp_all add: assms)

interpretation fc: message_channel frame_encode "\<lambda>m. length m \<le> FRAME_MAX_PAYLOAD"
  "frame_read (\<lambda>_. True) (- 1)"
  by (rule frame_channel) simp

section \<open>Frames and deadlines\<close>

text \<open>
  A deadline that expires inside the payload loses the part already read: the next call
  starts in the middle of the payload.
\<close>

lemma read_header:
  "0 < d \<Longrightarrow> read_all_deadline 4 d (Read_Data (le32_encode n) # es) = ((RBytes (le32_encode n), False), es)"
  by (simp add: read_all_deadline_def)

lemma frame_read_expired:
  assumes d: "20 < d" and p: "a \<noteq> []" "b \<noteq> []" and len: "length (a @ b) \<le> FRAME_MAX_PAYLOAD"
    and mem: "malloc_ok (length (a @ b) + 1)"
  shows "frame_read malloc_ok d
      (Read_Data (le32_encode (length (a @ b))) # Read_Data a # Poll_Expired # Read_Data b # es)
    = (Frame_Error ''timeout'', Read_Data b # es)"
proof -
  have dec: "le32_decode (le32_encode (length (a @ b))) = length (a @ b)"
    using len by (intro le32_round) (simp add: FRAME_MAX_PAYLOAD_def)
  have "read_all_deadline (length (a @ b)) (d - 10) (Read_Data a # Poll_Expired # Read_Data b # es)
      = ((RBytes a, True), Read_Data b # es)"
    using d p by (simp add: read_all_deadline_def)
  then show ?thesis
    using d len mem p dec by (simp add: frame_read_def read_header frame_read_payload_def Let_def max_def)
qed

lemma frame_read_short_deadline:
  assumes d: "0 < d" "d \<le> 10" and p: "a \<noteq> []" "b \<noteq> []"
    and len: "length (a @ b) \<le> FRAME_MAX_PAYLOAD" and mem: "malloc_ok (length (a @ b) + 1)"
  shows "frame_read malloc_ok d
      (Read_Data (le32_encode (length (a @ b))) # Read_Data a # Read_Data b # es)
    = (Frame_Error ''truncated_payload'', Read_Data b # es)"
proof -
  have dec: "le32_decode (le32_encode (length (a @ b))) = length (a @ b)"
    using len by (intro le32_round) (simp add: FRAME_MAX_PAYLOAD_def)
  have "read_all_deadline (length (a @ b)) 0 (Read_Data a # Read_Data b # es)
      = ((RBytes a, False), Read_Data b # es)"
    using p by (simp add: read_all_deadline_def)
  then show ?thesis
    using d len mem p dec by (simp add: frame_read_def read_header frame_read_payload_def Let_def max_def)
qed

section \<open>Properties\<close>



text \<open>A frame write that reports success has put the header and the whole payload
  on the descriptor, and one that fails has put a prefix of them.\<close>

theorem frame_write_faithful:
  assumes "length data < 2 ^ 32"
  shows "case frame_write ws data of (ok, out, ws') \<Rightarrow>
      prefix out (frame_encode data)
      \<and> (ok \<longrightarrow> out = frame_encode data \<and> length data \<le> FRAME_MAX_PAYLOAD)"
  using frame_write_prefix [OF _ assms] by (auto split: prod.splits)

theorem frame_write_faithful_witness:
  "fst (snd (frame_write [Wrote 4, Wrote 1, Write_Intr, Wrote 9] ''abc'')) = frame_encode ''abc''"
  using frame_write_faithful [of "''abc''" "[Wrote 4, Wrote 1, Write_Intr, Wrote 9]"]
  by (simp add: frame_write_def FRAME_MAX_PAYLOAD_def)

text \<open>Whatever a peer sends, an accepted frame has at most 16 MiB.\<close>

lemma frame_read_limited:
  "case fst (frame_read malloc_ok deadline es) of Frame bs \<Rightarrow> length bs \<le> FRAME_MAX_PAYLOAD | _ \<Rightarrow> True"
  using frame_read_bound [of malloc_ok deadline es] by (auto split: frame_result.splits simp: prod_eq_iff)

text \<open>Property C35: a deadline that expires inside a payload throws away the header and the part
  of the payload already read, so that the next read starts in the middle of the frame.\<close>

theorem frame_read_loses_frame:
  assumes "20 < deadline" and "a \<noteq> []" and "b \<noteq> []" and "length (a @ b) \<le> FRAME_MAX_PAYLOAD"
  shows "frame_read (\<lambda>_. True) deadline
      (Read_Data (le32_encode (length (a @ b))) # Read_Data a # Poll_Expired # Read_Data b # es)
    = (Frame_Error ''timeout'', Read_Data b # es)"
  using assms by (intro frame_read_expired) auto

theorem frame_read_loses_frame_witness:
  "frame_read (\<lambda>_. True) 100
      (Read_Data (le32_encode (length (''ab'' @ ''c''))) # Read_Data ''ab'' # Poll_Expired # Read_Data ''c'' # [])
    = (Frame_Error ''timeout'', Read_Data ''c'' # [])"
  by (rule frame_read_loses_frame) (simp_all add: FRAME_MAX_PAYLOAD_def)

end
