(* ===== verification/Frame_Builders.thy ===== *)
theory Frame_Builders
  imports Frame_Protocol
begin

text \<open>
  The JSON envelopes the bridge sends (\<^verbatim>\<open>src/native_frame.c\<close>, second half). They are built
  with a cursor \<open>off\<close> into a heap block of \<open>alloc\<close> bytes: \<open>off += snprintf (buf + off,
  alloc - off, ...)\<close>. \<open>snprintf\<close> reports the length it wanted, so \<open>off\<close> can pass
  \<open>alloc\<close>; the next \<open>alloc - off\<close> then wraps to a huge \<open>size_t\<close> and the write lands outside
  the block. That state is \<open>None\<close>. The characters of a text are copied by an explicit loop
  that stops when fewer than seven bytes are left.
\<close>

section \<open>The cursor\<close>

datatype piece = Lit string | Esc string | EscZ string

type_synonym cursor = "(string \<times> nat) option"

definition fesc_char :: "char \<Rightarrow> string" where
  "fesc_char c =
     (if c = dquote \<or> c = bslash then [bslash, c]
      else if c = CHR 0x0A then [bslash, CHR ''n'']
      else if c = CHR 0x0D then []
      else if cval c < 32 then []
      else [c])"

definition fesc :: "string \<Rightarrow> string" where
  "fesc s = concat (map fesc_char s)"

fun fesc_loop :: "nat \<Rightarrow> nat \<Rightarrow> string \<Rightarrow> string" where
  "fesc_loop alloc off [] = []"
| "fesc_loop alloc off (c # s) =
     (if off + 6 < alloc then fesc_char c @ fesc_loop alloc (off + length (fesc_char c)) s else [])"

text \<open>\<open>EscZ\<close> is the loop followed by \<open>buf[off] = 0\<close>, \<open>Esc\<close> the loop alone.\<close>

fun cursor_step :: "nat \<Rightarrow> cursor \<Rightarrow> piece \<Rightarrow> cursor" where
  "cursor_step alloc None p = None"
| "cursor_step alloc (Some (buf, off)) (Lit s) =
     (if off > alloc then None
      else Some (take off buf @ take (alloc - off - 1) s, off + length s))"
| "cursor_step alloc (Some (buf, off)) (Esc s) =
     (let e = fesc_loop alloc off s in Some (take off buf @ e, off + length e))"
| "cursor_step alloc (Some (buf, off)) (EscZ s) =
     (let e = fesc_loop alloc off s
      in if off + length e \<ge> alloc then None else Some (take off buf @ e, off + length e))"

definition run_pieces :: "nat \<Rightarrow> piece list \<Rightarrow> string option" where
  "run_pieces alloc ps = map_option fst (foldl (cursor_step alloc) (Some ([], 0)) ps)"

fun piece_text :: "piece \<Rightarrow> string" where
  "piece_text (Lit s) = s"
| "piece_text (Esc s) = fesc s"
| "piece_text (EscZ s) = fesc s"

definition pieces_text :: "piece list \<Rightarrow> string" where
  "pieces_text ps = concat (map piece_text ps)"

section \<open>The envelopes\<close>

definition request_pieces ::
  "string \<Rightarrow> string \<Rightarrow> string \<Rightarrow> string \<Rightarrow> string \<Rightarrow> string \<Rightarrow> bool \<Rightarrow> int \<Rightarrow> bool \<Rightarrow> string \<Rightarrow> piece list"
where
  \<open>request_pieces request_id input system tools effort prev auto_load context_tokens reset history =
     [Lit (''{"type":"request","id":"'' @ json_escape request_id 256 @ ''","input":"''), EscZ input]
     @ (if system \<noteq> [] then [Lit ''","system":"'', EscZ system, Lit ''"''] else [Lit ''"''])
     @ (if effort \<noteq> [] then [Lit ('',"reasoning_effort":"'' @ json_escape effort 256 @ ''"'')] else [])
     @ (if prev \<noteq> [] then [Lit ('',"previous_response_id":"'' @ json_escape prev 256 @ ''"'')] else [])
     @ [Lit ('',"auto_load_resume_session":'' @ show_bool auto_load @ '',"context_tokens":''
             @ show_int context_tokens @ '',"reset_session":'' @ show_bool reset)]
     @ (if tools \<noteq> [] then [Lit ('',"tools":'' @ tools)] else [])
     @ [Lit '',"tool_permission_mode":"auto_allow_safe","do_not_prompt_for_read_only_tools":true'',
        Lit '',"accepted_events":["compaction.started","compaction.summary","compaction.completed"]'']
     @ (if history \<noteq> [] \<and> history \<noteq> ''[]'' then [Lit ('',"tool_history":'' @ history)] else [])
     @ [Lit ''}'']\<close>

definition request_alloc :: "string \<Rightarrow> string \<Rightarrow> nat" where
  "request_alloc input history = max 8192 (length input * 2 + length history + 8192)"

definition frame_build_request ::
  "string \<Rightarrow> string \<Rightarrow> string \<Rightarrow> string \<Rightarrow> string \<Rightarrow> string \<Rightarrow> bool \<Rightarrow> int \<Rightarrow> bool \<Rightarrow> string \<Rightarrow> string option"
where
  "frame_build_request request_id input system tools effort prev auto_load context_tokens reset history =
     run_pieces (request_alloc input history)
       (request_pieces request_id input system tools effort prev auto_load context_tokens reset history)"

definition frame_build_response :: "string \<Rightarrow> string option \<Rightarrow> string \<Rightarrow> string \<Rightarrow> string option" where
  \<open>frame_build_response request_id status text_chunk tool_intent =
     run_pieces 4096
       ([Lit (''{"type":"response","id":"'' @ json_escape request_id 256 @ ''","status":"''
              @ json_escape (case status of None \<Rightarrow> ''completed'' | Some s \<Rightarrow> s) 256 @ ''"'')]
        @ (if text_chunk \<noteq> [] then [Lit '',"text":"'', EscZ text_chunk, Lit ''"''] else [])
        @ (if tool_intent \<noteq> [] then [Lit ('',"tool_intent":'' @ tool_intent)] else [])
        @ [Lit ''}''])\<close>

definition tool_result_head :: "string \<Rightarrow> string \<Rightarrow> string" where
  \<open>tool_result_head request_id tool_name =
     ''{"type":"tool_result","id":"'' @ json_escape request_id 256 @ ''","tool":{"name":"''
     @ json_escape tool_name 256 @ ''","result":''\<close>

definition frame_build_tool_result :: "string \<Rightarrow> string \<Rightarrow> string \<Rightarrow> string option" where
  \<open>frame_build_tool_result request_id tool_name result =
     run_pieces 4096
       [Lit (tool_result_head request_id tool_name),
        Lit (if result \<noteq> [] then result else ''"{}"''), Lit ''}}'']\<close>

definition frame_build_tool_error :: "string \<Rightarrow> string \<Rightarrow> string \<Rightarrow> string option" where
  \<open>frame_build_tool_error request_id tool_name message =
     run_pieces 4096
       [Lit (tool_result_head request_id tool_name @ ''{"status":"error","message":"''),
        Esc message, Lit ''"}}}'']\<close>

section \<open>Facts about the cursor\<close>

lemma fesc_simps [simp]: "fesc [] = []" "fesc (c # s) = fesc_char c @ fesc s"
  by (simp_all add: fesc_def)

lemma length_fesc_char: "length (fesc_char c) \<le> 2"
  by (simp add: fesc_char_def)

lemma length_fesc: "length (fesc s) \<le> 2 * length s"
proof (induction s)
  case (Cons c s)
  then show ?case using length_fesc_char [of c] by simp
qed simp

lemma fesc_loop_fits: "off + length (fesc s) + 6 < alloc \<Longrightarrow> fesc_loop alloc off s = fesc s"
  by (induction s arbitrary: off) auto

lemma fesc_loop_bound: "off + 4 < alloc \<Longrightarrow> off + length (fesc_loop alloc off s) + 4 < alloc"
proof (induction s arbitrary: off)
  case Nil
  then show ?case by simp
next
  case (Cons c s)
  show ?case
  proof (cases "off + 6 < alloc")
    case True
    then have "off + length (fesc_char c) + 4 < alloc" using length_fesc_char [of c] by simp
    from Cons.IH [OF this] True show ?thesis by simp
  next
    case False
    with Cons.prems show ?thesis by simp
  qed
qed

lemma cursor_step_fits:
  assumes "length buf + length (piece_text p) + 6 < alloc"
  shows "cursor_step alloc (Some (buf, length buf)) p
       = Some (buf @ piece_text p, length (buf @ piece_text p))"
  using assms by (cases p) (simp_all add: fesc_loop_fits Let_def)

lemma foldl_cursor_fits:
  "length buf + length (pieces_text ps) + 6 < alloc \<Longrightarrow>
   foldl (cursor_step alloc) (Some (buf, length buf)) ps
   = Some (buf @ pieces_text ps, length (buf @ pieces_text ps))"
proof (induction ps arbitrary: buf)
  case Nil
  then show ?case by (simp add: pieces_text_def)
next
  case (Cons p ps)
  have "cursor_step alloc (Some (buf, length buf)) p
      = Some (buf @ piece_text p, length (buf @ piece_text p))"
    using Cons.prems by (intro cursor_step_fits) (simp add: pieces_text_def)
  moreover have "length (buf @ piece_text p) + length (pieces_text ps) + 6 < alloc"
    using Cons.prems by (simp add: pieces_text_def)
  ultimately show ?case
    using Cons.IH [of "buf @ piece_text p"] by (simp add: pieces_text_def)
qed

lemma run_pieces_fits:
  "length (pieces_text ps) + 6 < alloc \<Longrightarrow> run_pieces alloc ps = Some (pieces_text ps)"
  using foldl_cursor_fits [of "[]" ps alloc] by (simp add: run_pieces_def)

lemma foldl_cursor_None [simp]: "foldl (cursor_step alloc) None ps = None"
  by (induction ps) simp_all

text \<open>What the agent reads back from an escaped text: the text without its control characters.\<close>

definition kept :: "char \<Rightarrow> bool" where
  "kept c = (c = CHR 0x0A \<or> 32 \<le> cval c)"

lemma decode_loop_fesc:
  assumes "length dest + length s < limit"
  shows "decode_loop limit dest (fesc s @ dquote # p) = DecOk (dest @ filter kept s) p"
  using assms
proof (induction s arbitrary: dest)
  case Nil
  then show ?case by simp
next
  case (Cons c s)
  have k: "fesc_char c = (if kept c then (if c = dquote \<or> c = bslash then [bslash, c]
      else if c = CHR 0x0A then [bslash, CHR ''n''] else [c]) else [])"
    by (auto simp: fesc_char_def kept_def cval_def)
  show ?case
  proof (cases "kept c")
    case True
    then show ?thesis
      using Cons.prems Cons.IH [of "dest @ [c]"] by (auto simp: k unesc_def)
  next
    case False
    then show ?thesis using Cons.prems Cons.IH [of dest] by (simp add: k)
  qed
qed

section \<open>Facts about the envelopes\<close>

lemma length_json_escape_256: "length (json_escape s 256) \<le> 255"
  using json_escape_bound [of 256 s] by simp

lemma show_base_length: "2 \<le> b \<Longrightarrow> n < b ^ k \<Longrightarrow> 0 < k \<Longrightarrow> length (show_base b n) \<le> k"
proof (induction k arbitrary: n)
  case 0
  then show ?case by simp
next
  case (Suc k)
  show ?case
  proof (cases "n < b")
    case True
    then show ?thesis by (subst show_base.simps) simp
  next
    case False
    with Suc.prems have "0 < k" by (cases k) auto
    moreover have "n div b < b ^ k" using Suc.prems by (simp add: less_mult_imp_div_less mult.commute)
    ultimately show ?thesis using Suc.IH [of "n div b"] Suc.prems False by (subst show_base.simps) simp
  qed
qed

lemma length_show_int: "\<bar>i\<bar> < 10 ^ 10 \<Longrightarrow> length (show_int i) \<le> 11"
  using show_base_length [of 10 "nat (- i)" 10] show_base_length [of 10 "nat i" 10]
  by (auto simp: show_int_def show_nat_def nat_less_iff)

lemma length_show_bool: "length (show_bool b) \<le> 5"
  by (simp add: show_bool_def)

lemma request_pieces_length:
  assumes "\<bar>ctx\<bar> < 10 ^ 10"
  shows "length (pieces_text (request_pieces rid input [] [] effort prev auto ctx reset history))
    \<le> 2 * length input + length history + 1400"
  using length_json_escape_256 [of rid] length_json_escape_256 [of effort]
    length_json_escape_256 [of prev] length_fesc [of input] length_show_int [OF assms]
    length_show_bool [of auto] length_show_bool [of reset]
  by (simp add: request_pieces_def pieces_text_def)

lemma request_fits:
  assumes "\<bar>ctx\<bar> < 2 ^ 31"
  shows "frame_build_request rid input [] [] effort prev auto ctx reset history
    = Some (pieces_text (request_pieces rid input [] [] effort prev auto ctx reset history))"
proof -
  let ?ps = "request_pieces rid input [] [] effort prev auto ctx reset history"
  have "length (pieces_text ?ps) + 6 < request_alloc input history"
    using request_pieces_length [of ctx rid input effort prev auto reset history] assms
    by (simp add: request_alloc_def)
  then show ?thesis by (simp add: frame_build_request_def run_pieces_fits)
qed

lemma request_nonempty: "pieces_text (request_pieces rid input system tools effort prev auto ctx reset history) \<noteq> []"
  by (simp add: request_pieces_def pieces_text_def)

section \<open>Properties\<close>



text \<open>The envelope for a tool result is written into a block of 4096 bytes whatever
  the length of the result: it leaves the block exactly when head and result together have
  more than 4096 bytes.\<close>

theorem tool_result_overrun_iff:
  "frame_build_tool_result rid tool result = None
   \<longleftrightarrow> 4096 < length (tool_result_head rid tool) + length (if result \<noteq> [] then result else [dquote, CHR ''{'', CHR ''}'', dquote])"
proof -
  have "length (tool_result_head rid tool) \<le> 4096"
    using length_json_escape_256 [of rid] length_json_escape_256 [of tool]
    by (simp add: tool_result_head_def)
  then show ?thesis by (simp add: frame_build_tool_result_def run_pieces_def)
qed

text \<open>The envelope for a refused tool call stays inside its block whatever message it
  carries.\<close>

lemma tool_error_fits: "frame_build_tool_error rid tool message \<noteq> None"
proof -
  let ?h = \<open>tool_result_head rid tool @ ''{"status":"error","message":"''\<close>
  have h: "length ?h + 4 < 4096"
    using length_json_escape_256 [of rid] length_json_escape_256 [of tool]
    by (simp add: tool_result_head_def)
  have "length ?h + length (fesc_loop 4096 (length ?h) message) + 4 < 4096"
    by (rule fesc_loop_bound [OF h])
  then show ?thesis by (simp add: frame_build_tool_error_def run_pieces_def Let_def)
qed

end
