(* ===== verification/Tool_Policy.thy ===== *)
theory Tool_Policy
  imports Frame_Builders
begin

text \<open>
  The policy that gates tool calls of the native agent (\<^verbatim>\<open>src/tool_policy.c\<close>): which tools
  are denied, which are safe, and the exact shape demanded of the arguments of the tools the
  bridge itself knows. A tool name that may be NULL is a \<open>string option\<close>.
\<close>

section \<open>Strict decoding of arguments\<close>

definition skip_ws :: "string \<Rightarrow> string" where
  "skip_ws p = dropWhile is_blank p"

text \<open>
  The loop after the opening quote: only the eight simple escapes, no control characters, and
  at most \<open>max_len - 1\<close> bytes (the bound is checked after an escape and before a plain byte).
\<close>

definition simple_escape :: "char \<Rightarrow> char option" where
  "simple_escape d =
     (if d = dquote \<or> d = bslash \<or> d = CHR ''/'' then Some d
      else if d = CHR ''b'' then Some (CHR 0x08)
      else if d = CHR ''f'' then Some (CHR 0x0C)
      else if d = CHR ''n'' then Some (CHR 0x0A)
      else if d = CHR ''r'' then Some (CHR 0x0D)
      else if d = CHR ''t'' then Some (CHR 0x09)
      else None)"

fun strict_loop :: "nat \<Rightarrow> string \<Rightarrow> string \<Rightarrow> (string \<times> string) option" where
  "strict_loop max_len dest [] = None"
| "strict_loop max_len dest (c # p) =
     (if c = dquote then Some (dest, p)
      else if c = bslash then
        (case p of
           [] \<Rightarrow> None
         | d # q \<Rightarrow>
             (case simple_escape d of
                None \<Rightarrow> None
              | Some e \<Rightarrow>
                  if length dest + 2 \<ge> max_len then None
                  else strict_loop max_len (dest @ [e]) q))
      else if cval c < 32 \<or> length dest + 1 \<ge> max_len then None
      else strict_loop max_len (dest @ [c]) p)"

definition decode_json_string_value :: "string \<Rightarrow> nat \<Rightarrow> (string \<times> string) option" where
  "decode_json_string_value p max_len =
     (case p of [] \<Rightarrow> None
      | c # q \<Rightarrow> if c \<noteq> dquote \<or> max_len = 0 then None else strict_loop max_len [] q)"

text \<open>\<open>expect c p\<close>: the next byte must be \<open>c\<close>; what follows, after white space.\<close>

definition expect :: "char \<Rightarrow> string \<Rightarrow> string option" where
  "expect c p = (case p of [] \<Rightarrow> None | d # q \<Rightarrow> if d = c then Some (skip_ws q) else None)"

text \<open>An object with the one member \<open>field\<close>: its value, bounded by \<open>value_max\<close>.\<close>

definition exact_object_field :: "string \<Rightarrow> string \<Rightarrow> nat \<Rightarrow> string option" where
  "exact_object_field js field value_max =
     (if field = [] then None
      else Option.bind (expect (CHR ''{'') (skip_ws js)) (\<lambda>p1.
           Option.bind (decode_json_string_value p1 64) (\<lambda>(key, p2).
           if key \<noteq> field then None
           else Option.bind (expect (CHR '':'') (skip_ws p2)) (\<lambda>p3.
                Option.bind (decode_json_string_value p3 value_max) (\<lambda>(value, p4).
                Option.bind (expect (CHR ''}'') (skip_ws p4)) (\<lambda>p5.
                if p5 = [] \<and> value \<noteq> [] then Some value else None))))))"

definition tool_args_exact_object_field :: "string \<Rightarrow> string \<Rightarrow> bool" where
  "tool_args_exact_object_field js field = (exact_object_field js field 2048 \<noteq> None)"

section \<open>The policy\<close>

definition tool_policy_is_denied :: "string option \<Rightarrow> bool" where
  "tool_policy_is_denied tool = (tool = Some ''shell'')"

definition tool_policy_is_safe_tool :: "string option \<Rightarrow> bool" where
  "tool_policy_is_safe_tool tool =
     (case tool of None \<Rightarrow> False
      | Some t \<Rightarrow> t \<in> {''google_search'', ''browse_url'', ''read'', ''list'', ''search'', ''visit_page''})"

definition tool_policy_requires_permission :: "string option \<Rightarrow> bool" where
  "tool_policy_requires_permission tool =
     (\<not> tool_policy_is_safe_tool tool \<and> \<not> tool_policy_is_denied tool)"

definition tool_policy_args_valid :: "string \<Rightarrow> string \<Rightarrow> bool" where
  "tool_policy_args_valid tool args =
     (if tool = [] \<or> args = [] then False
      else if tool = ''google_search'' then tool_args_exact_object_field args ''query''
      else if tool = ''browse_url'' then tool_args_exact_object_field args ''url''
      else if tool = ''shell_command'' then tool_args_exact_object_field args ''command''
      else True)"

datatype tool_error_kind = TOOL_ERROR_DENIED | TOOL_ERROR_MALFORMED_ARGS | TOOL_ERROR_TIMEOUT | TOOL_ERROR_UNKNOWN

fun tool_policy_error_message :: "tool_error_kind \<Rightarrow> string" where
  "tool_policy_error_message TOOL_ERROR_DENIED = ''tool denied by bridge policy''"
| "tool_policy_error_message TOOL_ERROR_MALFORMED_ARGS = ''malformed tool arguments''"
| "tool_policy_error_message TOOL_ERROR_TIMEOUT = ''tool execution timeout''"
| "tool_policy_error_message TOOL_ERROR_UNKNOWN = ''tool execution failed''"

definition tool_policy_build_error_summary ::
    "string option \<Rightarrow> tool_error_kind \<Rightarrow> string option \<Rightarrow> nat \<Rightarrow> string" where
  "tool_policy_build_error_summary tool kind detail max_len =
     (let d = (case detail of None \<Rightarrow> [] | Some d \<Rightarrow> d)
      in cstr_copy max_len (''TOOL_ERROR '' @ (case tool of None \<Rightarrow> ''unknown'' | Some t \<Rightarrow> t) @ '' ''
           @ tool_policy_error_message kind @ (if d \<noteq> [] then '' '' @ d else []) @ [CHR 0x0A]))"

section \<open>Facts\<close>

lemma skip_ws_id [simp]: "p = [] \<or> \<not> is_blank (hd p) \<Longrightarrow> skip_ws p = p"
  by (cases p) (simp_all add: skip_ws_def)

lemma skip_ws_blanks: "(\<forall>c \<in> set w. is_blank c) \<Longrightarrow> skip_ws (w @ p) = skip_ws p"
  by (simp add: skip_ws_def dropWhile_append2)

lemma not_blank_simps [simp]:
  "\<not> is_blank (CHR ''{'')" "\<not> is_blank (CHR ''}'')" "\<not> is_blank (CHR '':'')" "\<not> is_blank dquote"
  by (simp_all add: is_blank_def)

lemma strict_loop_bound:
  "strict_loop max_len dest p = Some (v, r) \<Longrightarrow> length dest < max_len \<Longrightarrow> length v < max_len"
  by (induction max_len dest p rule: strict_loop.induct)
    (auto split: if_splits list.splits option.splits)

lemma strict_loop_esc_char:
  assumes "plain c" and "length dest + 2 < max_len"
  shows "strict_loop max_len dest (esc_char c @ p) = strict_loop max_len (dest @ [c]) p"
proof (cases c rule: esc_char_cases)
  case literal
  with assms show ?thesis by simp
next
  case (short d)
  have "simple_escape d = Some c"
    using short(4) short(1) unfolding plain_escape_def insert_iff empty_iff
    by (elim disjE FalseE; clarsimp simp: simple_escape_def esc_char_def)
  then show ?thesis using short(1) assms(2) by simp
next
  case (unicode h1 h2 h3 h4)
  with assms show ?thesis by (simp add: plain_def)
qed

lemma strict_loop_esc_all:
  "\<forall>c \<in> set s. plain c \<Longrightarrow> length dest + length s + 1 < max_len \<Longrightarrow>
   strict_loop max_len dest (esc_all s @ dquote # p) = Some (dest @ s, p)"
proof (induction s arbitrary: dest)
  case Nil
  then show ?case by (simp add: esc_all_def)
next
  case (Cons c s)
  then show ?case
    using Cons.IH [of "dest @ [c]"] by (simp add: esc_all_def strict_loop_esc_char)
qed

text \<open>The canonical one-member object.\<close>

definition one_member :: "string \<Rightarrow> string \<Rightarrow> string" where
  "one_member field v =
     [CHR ''{'', dquote] @ esc_all field @ [dquote, CHR '':'', dquote] @ esc_all v @ [dquote, CHR ''}'']"

lemma exact_object_field_canonical:
  assumes "\<forall>c \<in> set field. plain c" and "\<forall>c \<in> set v. plain c"
    and "field \<noteq> []" and "v \<noteq> []" and "length field + 1 < 64" and "length v + 1 < value_max"
  shows "exact_object_field (one_member field v) field value_max = Some v"
  using assms strict_loop_esc_all [of field "[]" 64] strict_loop_esc_all [of v "[]" value_max]
  by (simp add: exact_object_field_def one_member_def expect_def decode_json_string_value_def)

lemma exact_object_field_Some:
  assumes "exact_object_field js field n = Some v"
  shows "v \<noteq> []" and "length v < n"
  using assms
  by (auto simp: exact_object_field_def decode_json_string_value_def Option.bind_eq_Some_conv
      dest: strict_loop_bound split: if_splits list.splits)

section \<open>What is accepted\<close>

lemma strict_loop_split:
  "strict_loop max_len dest p = Some (v, r) \<Longrightarrow> \<exists>e. p = e @ dquote # r"
proof (induction max_len dest p rule: strict_loop.induct)
  case (1 max_len dest)
  then show ?case by simp
next
  case (2 max_len dest c p)
  consider "c = dquote" | d q where "c = bslash" "p = d # q" | "c \<noteq> dquote" "c \<noteq> bslash"
    using "2.prems" by (cases p) (auto split: if_splits)
  then show ?case
  proof cases
    case 1
    then show ?thesis using "2.prems" by simp
  next
    case 2
    then obtain e where "simple_escape d = Some e" "\<not> length dest + 2 \<ge> max_len"
      "strict_loop max_len (dest @ [e]) q = Some (v, r)"
      using "2.prems" by (auto split: option.splits if_splits)
    with 2 "2.IH"(1) [of d q e] obtain es where "q = es @ dquote # r" by auto
    with 2 have "c # p = (c # d # es) @ dquote # r" by simp
    then show ?thesis by blast
  next
    case 3
    then obtain es where "p = es @ dquote # r" using "2.prems" "2.IH"(2) by (auto split: if_splits)
    then have "c # p = (c # es) @ dquote # r" by simp
    then show ?thesis by blast
  qed
qed

definition blanks :: "string \<Rightarrow> bool" where
  "blanks w = list_all is_blank w"

lemma skip_ws_split: obtains w where "p = w @ skip_ws p" "blanks w"
proof -
  have "p = takeWhile is_blank p @ skip_ws p" by (simp add: skip_ws_def)
  moreover have "blanks (takeWhile is_blank p)"
    by (simp add: blanks_def list_all_iff) (metis set_takeWhileD)
  ultimately show ?thesis by (rule that)
qed

lemma expect_split:
  assumes "expect c p = Some q"
  obtains w where "p = c # w @ q" "blanks w"
proof -
  obtain p' where "p = c # p'" "q = skip_ws p'"
    using assms by (auto simp: expect_def split: list.splits if_splits)
  then show ?thesis using that skip_ws_split [of p'] by metis
qed

lemma decode_value_split:
  assumes "decode_json_string_value p n = Some (v, r)"
  obtains e where "p = dquote # e @ dquote # r"
  using assms by (auto simp: decode_json_string_value_def split: list.splits if_splits
      dest!: strict_loop_split)

section \<open>Properties\<close>

text \<open>Property C21: arguments that pass the exact check are, apart from white space, an object with
  one single member, whose name decodes to the demanded field and whose value decodes to a
  non-empty string of less than 2048 bytes; nothing else can be smuggled in.\<close>

theorem exact_args_shape:
  assumes "tool_args_exact_object_field js field"
  shows "\<exists>w1 w2 key w3 w4 val w5 w6 v r1 r2.
      js = w1 @ ''{'' @ w2 @ [dquote] @ key @ [dquote] @ w3 @ '':'' @ w4 @ [dquote] @ val @ [dquote]
           @ w5 @ ''}'' @ w6
      \<and> list_all blanks [w1, w2, w3, w4, w5, w6]
      \<and> decode_json_string_value ([dquote] @ key @ [dquote] @ r1) 64 = Some (field, r1)
      \<and> decode_json_string_value ([dquote] @ val @ [dquote] @ r2) 2048 = Some (v, r2)
      \<and> v \<noteq> [] \<and> length v < 2048"
proof -
  obtain v where ex: "exact_object_field js field 2048 = Some v"
    using assms by (auto simp: tool_args_exact_object_field_def)
  obtain p1 p2 p3 p4 where e: "expect (CHR ''{'') (skip_ws js) = Some p1"
    "decode_json_string_value p1 64 = Some (field, p2)"
    "expect (CHR '':'') (skip_ws p2) = Some p3"
    "decode_json_string_value p3 2048 = Some (v, p4)"
    "expect (CHR ''}'') (skip_ws p4) = Some []"
    using ex by (auto simp: exact_object_field_def Option.bind_eq_Some_conv split: if_splits)
  obtain w1 where 1: "js = w1 @ skip_ws js" "blanks w1" by (rule skip_ws_split)
  obtain w2 where 2: "skip_ws js = CHR ''{'' # w2 @ p1" "blanks w2" by (rule expect_split [OF e(1)])
  obtain key where 3: "p1 = dquote # key @ dquote # p2" by (rule decode_value_split [OF e(2)])
  obtain w3 where 4: "p2 = w3 @ skip_ws p2" "blanks w3" by (rule skip_ws_split)
  obtain w4 where 5: "skip_ws p2 = CHR '':'' # w4 @ p3" "blanks w4" by (rule expect_split [OF e(3)])
  obtain val where 6: "p3 = dquote # val @ dquote # p4" by (rule decode_value_split [OF e(4)])
  obtain w5 where 7: "p4 = w5 @ skip_ws p4" "blanks w5" by (rule skip_ws_split)
  obtain w6 where 8: "skip_ws p4 = CHR ''}'' # w6 @ []" "blanks w6" by (rule expect_split [OF e(5)])
  have "p4 = w5 @ CHR ''}'' # w6" using 7(1) 8(1) by simp
  moreover from this have "p2 = w3 @ CHR '':'' # w4 @ dquote # val @ dquote # w5 @ CHR ''}'' # w6"
    using 4(1) 5(1) 6 by simp
  ultimately have "js = w1 @ ''{'' @ w2 @ [dquote] @ key @ [dquote] @ w3 @ '':'' @ w4 @ [dquote] @ val
      @ [dquote] @ w5 @ ''}'' @ w6"
    using 1(1) 2(1) 3 by simp
  moreover have "decode_json_string_value ([dquote] @ key @ [dquote] @ p2) 64 = Some (field, p2)"
    "decode_json_string_value ([dquote] @ val @ [dquote] @ p4) 2048 = Some (v, p4)"
    using e(2,4) 3 6 by simp_all
  ultimately show ?thesis
    using 1(2) 2(2) 4(2) 5(2) 7(2) 8(2) exact_object_field_Some [OF ex]
    by (intro exI conjI) (assumption | simp)+
qed

theorem exact_args_shape_witness:
  "\<exists>w1 w2 key w3 w4 val w5 w6 v r1 r2.
      one_member ''query'' ''isabelle'' = w1 @ ''{'' @ w2 @ [dquote] @ key @ [dquote] @ w3 @ '':'' @ w4
           @ [dquote] @ val @ [dquote] @ w5 @ ''}'' @ w6
      \<and> list_all blanks [w1, w2, w3, w4, w5, w6]
      \<and> decode_json_string_value ([dquote] @ key @ [dquote] @ r1) 64 = Some (''query'', r1)
      \<and> decode_json_string_value ([dquote] @ val @ [dquote] @ r2) 2048 = Some (v, r2)
      \<and> v \<noteq> [] \<and> length v < 2048"
proof (rule exact_args_shape)
  show "tool_args_exact_object_field (one_member ''query'' ''isabelle'') ''query''"
    using exact_object_field_canonical [of "''query''" "''isabelle''" 2048]
    by (simp add: tool_args_exact_object_field_def plain_def cval_def)
qed

text \<open>The canonical object for a search query, an address or a command is accepted
  for the tool that takes it, as long as its text is not empty, has at most 2046 bytes and only
  printable characters or control characters with a short escape.\<close>

theorem canonical_args_accepted:
  assumes "(tool, field) \<in> {(''google_search'', ''query''), (''browse_url'', ''url''), (''shell_command'', ''command'')}"
    and "\<forall>c \<in> set v. plain c" and "v \<noteq> []" and "length v + 1 < 2048"
  shows "tool_policy_args_valid tool (one_member field v)"
proof -
  have "\<forall>c \<in> set field. plain c" "field \<noteq> []" "length field + 1 < 64"
    using assms(1) by (auto simp: plain_def cval_def)
  from exact_object_field_canonical [OF this(1) assms(2) this(2) assms(3) this(3) assms(4)]
  have "tool_args_exact_object_field (one_member field v) field"
    by (simp add: tool_args_exact_object_field_def)
  then show ?thesis using assms(1) by (auto simp: tool_policy_args_valid_def one_member_def)
qed

theorem canonical_args_accepted_witness:
  "tool_policy_args_valid ''shell_command'' (one_member ''command'' ''ls -l'')"
  by (rule canonical_args_accepted) (simp_all add: plain_def cval_def)

text \<open>Every tool name is exactly one of denied, safe or in need of a permission; the
  denied one is never run and no unknown tool is safe.\<close>

lemma policy_trichotomy:
  "tool_policy_is_denied t \<noteq> (tool_policy_is_safe_tool t \<noteq> tool_policy_requires_permission t)
   \<and> \<not> (tool_policy_is_denied t \<and> tool_policy_is_safe_tool t)
   \<and> (tool_policy_is_safe_tool t \<longleftrightarrow>
       t \<in> Some ` {''google_search'', ''browse_url'', ''read'', ''list'', ''search'', ''visit_page''})"
  by (auto simp: tool_policy_is_denied_def tool_policy_is_safe_tool_def
      tool_policy_requires_permission_def split: option.splits)

end
