(* ===== verification/Tool_History.thy ===== *)
theory Tool_History
  imports Tool_Policy
begin

text \<open>
  The history of tool calls (\<^verbatim>\<open>src/tool_history.c\<close>): a raw byte buffer of 2048 bytes with the
  latest lines, and a bounded list of structured entries that is rendered as JSON for the
  native agent. The state gathers the file's static variables.
\<close>

section \<open>State\<close>

datatype tool_status =
  TOOL_STATUS_OK | TOOL_STATUS_ERROR | TOOL_STATUS_DENIED | TOOL_STATUS_TIMEOUT | TOOL_STATUS_UNKNOWN

record tool_history_entry =
  he_tool :: string
  he_args :: string
  he_status :: tool_status

record tool_history =
  th_entries :: "tool_history_entry list"
  th_max :: nat
  th_dropped :: nat
  th_raw :: string

definition MAX_HISTORY_ENTRIES :: nat where
  "MAX_HISTORY_ENTRIES = 64"

definition tool_history_init :: tool_history where
  "tool_history_init = \<lparr>th_entries = [], th_max = 20, th_dropped = 0, th_raw = []\<rparr>"

fun tool_status_to_string :: "tool_status \<Rightarrow> string" where
  "tool_status_to_string TOOL_STATUS_OK = ''ok''"
| "tool_status_to_string TOOL_STATUS_ERROR = ''error''"
| "tool_status_to_string TOOL_STATUS_DENIED = ''denied''"
| "tool_status_to_string TOOL_STATUS_TIMEOUT = ''timeout''"
| "tool_status_to_string TOOL_STATUS_UNKNOWN = ''unknown''"

definition tool_status_from_string :: "string option \<Rightarrow> tool_status" where
  "tool_status_from_string s =
     (case s of None \<Rightarrow> TOOL_STATUS_UNKNOWN
      | Some s \<Rightarrow>
          if s = ''ok'' \<or> s = ''OK'' then TOOL_STATUS_OK
          else if s = ''error'' \<or> s = ''ERROR'' then TOOL_STATUS_ERROR
          else if s = ''denied'' \<or> s = ''DENIED'' then TOOL_STATUS_DENIED
          else if s = ''timeout'' \<or> s = ''TIMEOUT'' then TOOL_STATUS_TIMEOUT
          else TOOL_STATUS_UNKNOWN)"

section \<open>Appending a line\<close>

definition history_raw_append :: "string \<Rightarrow> string \<Rightarrow> string" where
  "history_raw_append raw line =
     (let need = length raw + length line + 1
      in (if need \<ge> 2048 then
            (let n = need - 2048 in if n \<ge> length raw then [] else drop n raw)
          else raw) @ line)"

text \<open>The second and third blank-separated parts of the first 1023 bytes of the line.\<close>

definition split_space :: "string \<Rightarrow> string \<times> string option" where
  "split_space s =
     (takeWhile (\<lambda>c. c \<noteq> CHR '' '') s, map_option tl (strchr s (CHR '' '')))"

definition history_fields :: "string \<Rightarrow> (string \<times> string option) option" where
  "history_fields line = map_option split_space (snd (split_space (cstr_copy 1024 line)))"

definition clamp_history_max :: "int \<Rightarrow> nat" where
  "clamp_history_max cfg = (if cfg > 0 then min (nat cfg) MAX_HISTORY_ENTRIES else 20)"

definition history_entry :: "string \<Rightarrow> string \<Rightarrow> string option \<Rightarrow> tool_history_entry" where
  "history_entry line tool detail =
     \<lparr>he_tool = cstr_copy 64 tool,
      he_args = (case detail of None \<Rightarrow> [] | Some d \<Rightarrow> cstr_copy 256 d),
      he_status = (if contains line ''TOOL_ERROR'' then TOOL_STATUS_ERROR else TOOL_STATUS_OK)\<rparr>"

definition tool_history_append :: "int \<Rightarrow> tool_history \<Rightarrow> string \<Rightarrow> tool_history" where
  "tool_history_append max_history_entries h line =
     (if line = [] then h
      else if length line + 1 \<ge> 2048 then h\<lparr>th_raw := cstr_copy 2048 line\<rparr>
      else
        let m = clamp_history_max max_history_entries;
            h1 = h\<lparr>th_raw := history_raw_append (th_raw h) line, th_max := m\<rparr>
        in case history_fields line of
             None \<Rightarrow> h1
           | Some (tool, detail) \<Rightarrow>
               let evict = (if length (th_entries h1) \<ge> m then length (th_entries h1) - m + 1 else 0)
               in h1\<lparr>th_entries := drop evict (th_entries h1) @ [history_entry line tool detail],
                     th_dropped := th_dropped h1 + evict\<rparr>)"

definition tool_history_count :: "tool_history \<Rightarrow> nat" where
  "tool_history_count h = length (th_entries h)"

definition tool_history_reset :: "tool_history \<Rightarrow> tool_history" where
  "tool_history_reset h = h\<lparr>th_entries := [], th_dropped := 0, th_raw := []\<rparr>"

section \<open>Rendering\<close>

fun hist_escape :: "bool \<Rightarrow> nat \<Rightarrow> nat \<Rightarrow> string \<Rightarrow> string" where
  "hist_escape newlines cap ai [] = []"
| "hist_escape newlines cap ai (c # s) =
     (if ai + 5 < cap then
        (let e = (if c = dquote then [bslash, dquote]
                  else if c = bslash then [bslash, bslash]
                  else if newlines \<and> c = CHR 0x0A then [bslash, CHR ''n'']
                  else [c])
         in e @ hist_escape newlines cap (ai + length e) s)
      else [])"

definition entry_json :: "tool_history_entry \<Rightarrow> string" where
  \<open>entry_json e =
     ''{"tool":"'' @ hist_escape False 128 0 (he_tool e) @ ''","args":"''
     @ hist_escape True 160 0 (he_args e) @ ''","status":"''
     @ tool_status_to_string (he_status e) @ ''"}''\<close>

text \<open>The loop over the entries stops when fewer than 513 bytes are left in the block.\<close>

fun entries_loop :: "nat \<Rightarrow> bool \<Rightarrow> cursor \<Rightarrow> tool_history_entry list \<Rightarrow> cursor" where
  "entries_loop alloc first cur [] = cur"
| "entries_loop alloc first cur (e # es) =
     (case cur of None \<Rightarrow> None
      | Some (buf, off) \<Rightarrow>
          if off + 512 < alloc then
            (let cur1 = (if first then cur else cursor_step alloc cur (Lit '',''))
             in entries_loop alloc False (cursor_step alloc cur1 (Lit (entry_json e))) es)
          else cur)"

definition dropped_notice :: "nat \<Rightarrow> string" where
  \<open>dropped_notice n = ''{"truncated":true,"dropped":'' @ show_nat n @ ''},''\<close>

definition history_alloc :: "nat \<Rightarrow> nat" where
  "history_alloc m = min (if m > 0 then m else 20) MAX_HISTORY_ENTRIES * 1024 + 512"

definition tool_history_build_json :: "tool_history \<Rightarrow> string option" where
  "tool_history_build_json h =
     (let alloc = history_alloc (th_max h);
          count = length (th_entries h);
          start_index = (if count > 12 then count - 12 else 0);
          dropped_count = th_dropped h + start_index;
          cur0 = cursor_step alloc (Some ([], 0)) (Lit ''['');
          cur1 = (if dropped_count > 0 \<and> count > 0
                  then cursor_step alloc cur0 (Lit (dropped_notice dropped_count)) else cur0);
          cur2 = entries_loop alloc True cur1 (drop start_index (th_entries h))
      in map_option fst (cursor_step alloc cur2 (Lit '']'')))"

section \<open>Invariant\<close>

definition entry_ok :: "tool_history_entry \<Rightarrow> bool" where
  "entry_ok e = (length (he_tool e) < 64 \<and> length (he_args e) < 256)"

definition history_inv :: "tool_history \<Rightarrow> bool" where
  "history_inv h =
     (length (th_raw h) < 2048 \<and> 0 < th_max h \<and> th_max h \<le> MAX_HISTORY_ENTRIES
      \<and> length (th_entries h) \<le> MAX_HISTORY_ENTRIES \<and> list_all entry_ok (th_entries h))"

lemma history_inv_init: "history_inv tool_history_init"
  by (simp add: history_inv_def tool_history_init_def MAX_HISTORY_ENTRIES_def)

lemma clamp_history_max_bounds: "0 < clamp_history_max n \<and> clamp_history_max n \<le> MAX_HISTORY_ENTRIES"
  by (auto simp: clamp_history_max_def MAX_HISTORY_ENTRIES_def)

text \<open>For a line that fits, the raw buffer is a window on everything appended.\<close>

lemma history_raw_append_last:
  "length line < 2047 \<Longrightarrow> history_raw_append raw line = last_n 2047 (raw @ line)"
  by (auto simp: history_raw_append_def last_n_def Let_def)

lemma entry_ok_history_entry: "entry_ok (history_entry line tool detail)"
  by (auto simp: entry_ok_def history_entry_def length_cstr_copy split: option.splits)

lemma length_drop_evict:
  "length (drop (if length xs \<ge> m then length xs - m + 1 else 0) xs @ [x]) \<le> max 1 m"
  by auto

lemma list_all_drop: "list_all P xs \<Longrightarrow> list_all P (drop n xs)"
  by (auto simp: list_all_iff dest: in_set_dropD)

lemma tool_history_append_inv:
  assumes "history_inv h"
  shows "history_inv (tool_history_append cfg h line)"
proof -
  consider (nil) "line = []" | (long) "line \<noteq> []" "length line + 1 \<ge> 2048"
    | (fits) "line \<noteq> []" "length line < 2047" by linarith
  then show ?thesis
  proof cases
    case nil
    then show ?thesis using assms by (simp add: tool_history_append_def)
  next
    case long
    then show ?thesis using assms
      by (simp add: tool_history_append_def history_inv_def length_cstr_copy)
  next
    case fits
    let ?m = "clamp_history_max cfg" and ?es = "th_entries h"
    note m = clamp_history_max_bounds [of cfg]
    have raw: "length (history_raw_append (th_raw h) line) < 2048"
      using fits by (simp add: history_raw_append_last)
    show ?thesis
    proof (cases "history_fields line")
      case None
      then show ?thesis using assms fits raw m
        by (simp add: tool_history_append_def history_inv_def Let_def)
    next
      case (Some td)
      obtain tool detail where td: "td = (tool, detail)" by force
      define k where "k = (if length ?es \<ge> ?m then length ?es - ?m + 1 else 0)"
      have "length (drop k ?es @ [history_entry line tool detail]) \<le> MAX_HISTORY_ENTRIES"
        using length_drop_evict [of ?m ?es "history_entry line tool detail"] m
        unfolding k_def by linarith
      moreover have "list_all entry_ok (drop k ?es)"
        using assms by (simp add: history_inv_def list_all_drop)
      ultimately show ?thesis using assms Some td fits raw m
        by (simp add: tool_history_append_def history_inv_def Let_def k_def [symmetric]
            entry_ok_history_entry list_all_drop)
    qed
  qed
qed

lemma tool_history_reset_inv: "history_inv h \<Longrightarrow> history_inv (tool_history_reset h)"
  by (simp add: history_inv_def tool_history_reset_def)

section \<open>The rendering fits its block\<close>

lemma hist_escape_bound: "ai + 3 < cap \<Longrightarrow> ai + length (hist_escape nl cap ai s) + 3 < cap"
proof (induction nl cap ai s rule: hist_escape.induct)
  case (1 nl cap ai)
  then show ?case by simp
next
  case (2 nl cap ai c s)
  then show ?case by (auto simp: Let_def)
qed

lemma entry_json_length: "length (entry_json e) \<le> 330"
proof -
  have "length (hist_escape False 128 0 (he_tool e)) \<le> 124"
    using hist_escape_bound [of 0 128 False "he_tool e"] by simp
  moreover have "length (hist_escape True 160 0 (he_args e)) \<le> 156"
    using hist_escape_bound [of 0 160 True "he_args e"] by simp
  moreover have "length (tool_status_to_string (he_status e)) \<le> 7"
    by (cases "he_status e") simp_all
  ultimately show ?thesis by (simp add: entry_json_def)
qed

fun joined :: "bool \<Rightarrow> tool_history_entry list \<Rightarrow> string" where
  "joined first [] = []"
| "joined first (e # es) = (if first then [] else '','') @ entry_json e @ joined False es"

lemma length_joined: "length (joined first es) \<le> 331 * length es"
proof (induction first es rule: joined.induct)
  case (2 first e es)
  then show ?case using entry_json_length [of e] by simp
qed simp

lemma entries_loop_text:
  assumes "length buf + 64 < alloc"
  shows "\<exists>k \<le> length es. entries_loop alloc first (Some (buf, length buf)) es
        = Some (buf @ joined first (take k es), length (buf @ joined first (take k es)))
      \<and> length (buf @ joined first (take k es)) + 64 < alloc
      \<and> (length buf + 331 * length es + 512 < alloc + 331 \<longrightarrow> k = length es)"
  using assms
proof (induction es arbitrary: first buf)
  case Nil
  then show ?case by simp
next
  case (Cons e es)
  show ?case
  proof (cases "length buf + 512 < alloc")
    case False
    then show ?thesis using Cons.prems by (intro exI [of _ 0]) simp
  next
    case True
    let ?sep = "if first then [] else '',''"
    let ?buf = "buf @ ?sep @ entry_json e"
    have room: "length buf + length ?sep + length (entry_json e) + 64 < alloc"
      using True entry_json_length [of e] by simp
    have step: "entries_loop alloc first (Some (buf, length buf)) (e # es)
        = entries_loop alloc False (Some (?buf, length ?buf)) es"
      using True room by (simp add: Let_def)
    have "length ?buf + 64 < alloc" using room by simp
    from Cons.IH [OF this, of False] obtain k where k: "k \<le> length es"
      "entries_loop alloc False (Some (?buf, length ?buf)) es
        = Some (?buf @ joined False (take k es), length (?buf @ joined False (take k es)))"
      "length (?buf @ joined False (take k es)) + 64 < alloc"
      "length ?buf + 331 * length es + 512 < alloc + 331 \<longrightarrow> k = length es"
      by blast
    have "k = length es" if "length buf + 331 * length (e # es) + 512 < alloc + 331"
      using that k(4) entry_json_length [of e] by (simp split: if_splits)
    then show ?thesis
      using k step by (intro exI [of _ "Suc k"]) simp
  qed
qed

definition history_prefix :: "tool_history \<Rightarrow> string" where
  "history_prefix h =
     (let count = length (th_entries h); dropped = th_dropped h + (count - 12)
      in ''['' @ (if dropped > 0 \<and> count > 0 then dropped_notice dropped else []))"

lemma show_nat_length: "n < 10 ^ 10 \<Longrightarrow> length (show_nat n) \<le> 10"
  by (simp add: show_nat_def show_base_length)

lemma history_prefix_length:
  assumes "th_dropped h + length (th_entries h) < 10 ^ 10"
  shows "length (history_prefix h) \<le> 50"
proof -
  define n where "n = th_dropped h + (length (th_entries h) - 12)"
  have "n < 10 ^ 10" using assms by (simp add: n_def)
  from show_nat_length [OF this] show ?thesis
    by (simp add: history_prefix_def dropped_notice_def Let_def n_def [symmetric])
qed

lemma history_alloc_ge: "history_inv h \<Longrightarrow> history_alloc (th_max h) = th_max h * 1024 + 512"
  by (simp add: history_inv_def history_alloc_def MAX_HISTORY_ENTRIES_def)

lemma build_json_unfold:
  assumes "history_inv h" and "th_dropped h + length (th_entries h) < 10 ^ 10"
  shows "tool_history_build_json h =
    map_option fst (cursor_step (history_alloc (th_max h))
      (entries_loop (history_alloc (th_max h)) True
         (Some (history_prefix h, length (history_prefix h)))
         (last_n 12 (th_entries h))) (Lit '']''))"
proof -
  have a: "1024 < history_alloc (th_max h)"
    using assms(1) by (simp add: history_alloc_ge) (simp add: history_inv_def)
  have p: "length (history_prefix h) \<le> 50" by (rule history_prefix_length [OF assms(2)])
  have c: "(if length (th_entries h) > 12 then length (th_entries h) - 12 else 0) = length (th_entries h) - 12"
    by simp
  show ?thesis
    using a p unfolding tool_history_build_json_def Let_def c last_n_def history_prefix_def
    by (auto simp: Let_def)
qed

section \<open>Properties\<close>

text \<open>Whatever lines are appended, under whatever configured limits, the raw buffer
  keeps below its 2048 bytes, at most 64 entries are kept and each fits its fields.\<close>

lemma history_bounds:
  "history_inv (foldl (\<lambda>h (cfg, line). tool_history_append cfg h line) tool_history_init calls)"
proof (induction calls rule: rev_induct)
  case Nil
  then show ?case by (simp add: history_inv_init)
next
  case (snoc c cs)
  then show ?case by (cases c) (simp add: tool_history_append_inv)
qed

lemma append_raw:
  "line \<noteq> [] \<Longrightarrow> length line < 2047 \<Longrightarrow>
   th_raw (tool_history_append cfg h line) = last_n 2047 (th_raw h @ line)"
  by (auto simp: tool_history_append_def history_raw_append_last Let_def split: option.splits)

text \<open>As long as every line fits the raw buffer, the buffer holds exactly the last
  2047 bytes of all the lines appended.\<close>

theorem history_raw_window:
  assumes "\<forall>(cfg, line) \<in> set calls. line \<noteq> [] \<and> length line < 2047"
  shows "th_raw (foldl (\<lambda>h (cfg, line). tool_history_append cfg h line) tool_history_init calls)
    = last_n 2047 (concat (map snd calls))"
  using assms
proof (induction calls rule: rev_induct)
  case Nil
  then show ?case by (simp add: tool_history_init_def)
next
  case (snoc c cs)
  obtain cfg line where c: "c = (cfg, line)" by force
  then have "line \<noteq> []" "length line < 2047" using snoc.prems by auto
  from append_raw [OF this, of cfg] snoc c show ?case by (simp add: last_n_append)
qed

theorem history_raw_window_witness:
  "th_raw (foldl (\<lambda>h (cfg, line). tool_history_append cfg h line) tool_history_init
      [(5, ''TOOL_RESULT a b''), (0, ''TOOL_ERROR c d'')])
    = last_n 2047 (concat (map snd [(5::int, ''TOOL_RESULT a b''), (0, ''TOOL_ERROR c d'')]))"
  by (rule history_raw_window) simp

text \<open>Property C22: the rendering never leaves its block; it is the JSON array with the notice about
  dropped entries, if any were dropped, followed by the latest entries in order.\<close>

theorem history_json_text:
  assumes "history_inv h" and "th_dropped h + length (th_entries h) < 10 ^ 10"
  shows "\<exists>k. tool_history_build_json h
        = Some (history_prefix h @ joined True (take k (last_n 12 (th_entries h))) @ '']'')
      \<and> (331 * min 12 (length (th_entries h)) \<le> 1024 * th_max h \<longrightarrow> k = min 12 (length (th_entries h)))"
proof -
  let ?a = "history_alloc (th_max h)" and ?es = "last_n 12 (th_entries h)"
  have a: "?a = th_max h * 1024 + 512" and m: "0 < th_max h"
    using assms(1) by (simp_all add: history_alloc_ge history_inv_def)
  have p: "length (history_prefix h) \<le> 50" by (rule history_prefix_length [OF assms(2)])
  then have "length (history_prefix h) + 64 < ?a" using a m by simp
  from entries_loop_text [OF this, of ?es True] obtain k where k: "k \<le> length ?es"
    "entries_loop ?a True (Some (history_prefix h, length (history_prefix h))) ?es
      = Some (history_prefix h @ joined True (take k ?es), length (history_prefix h @ joined True (take k ?es)))"
    "length (history_prefix h @ joined True (take k ?es)) + 64 < ?a"
    "length (history_prefix h) + 331 * length ?es + 512 < ?a + 331 \<longrightarrow> k = length ?es"
    by blast
  have "tool_history_build_json h
      = Some (history_prefix h @ joined True (take k ?es) @ '']'')"
    using k(2,3) by (simp add: build_json_unfold [OF assms])
  then show ?thesis using k(4) a p by (intro exI [of _ k]) auto
qed

theorem history_json_text_witness:
  "\<exists>k. tool_history_build_json (tool_history_append 5 tool_history_init ''TOOL_RESULT read x'')
        = Some (history_prefix (tool_history_append 5 tool_history_init ''TOOL_RESULT read x'')
            @ joined True (take k (last_n 12
                (th_entries (tool_history_append 5 tool_history_init ''TOOL_RESULT read x'')))) @ '']'')"
proof -
  let ?h = "tool_history_append 5 tool_history_init ''TOOL_RESULT read x''"
  have "th_dropped ?h + length (th_entries ?h) < 10 ^ 10"
    by (simp add: tool_history_append_def tool_history_init_def history_fields_def split_space_def
      cstr_copy_def clamp_history_max_def Let_def MAX_HISTORY_ENTRIES_def)
  from history_json_text [OF tool_history_append_inv [OF history_inv_init] this] show ?thesis by blast
qed

end
