(* ===== verification/Stream_Events.thy ===== *)
theory Stream_Events
  imports Json_Text
begin

text \<open>
  The Responses API events of a stream (\<^verbatim>\<open>src/codex_stream_events.c\<close>): each function fills an
  event name and a \<open>data:\<close> payload of at most 131071 bytes. \<open>now\<close> is \<open>time (NULL)\<close>. A
  \<open>const char *\<close> that the function replaces by a default when it is NULL or empty is a
  string, NULL being the empty one.
\<close>

record stream_event =
  ev_event :: string
  ev_data :: string

definition EVENT_DATA_MAX :: nat where
  "EVENT_DATA_MAX = 131072"

definition mk_event :: "string \<Rightarrow> string \<Rightarrow> stream_event" where
  "mk_event name data = \<lparr>ev_event = cstr_copy 64 name, ev_data = cstr_copy EVENT_DATA_MAX data\<rparr>"

definition default_to :: "string \<Rightarrow> string \<Rightarrow> string" where
  "default_to d s = (if s = [] then d else s)"

definition json_escape_event_text :: "string \<Rightarrow> string" where
  "json_escape_event_text s = json_escape s EVENT_DATA_MAX"

definition codex_stream_created :: "int \<Rightarrow> string \<Rightarrow> string \<Rightarrow> stream_event" where
  \<open>codex_stream_created now rid model =
     mk_event ''response.created''
      (''{"type":"response.created","response":{"id":"'' @ default_to ''resp-stream'' rid
       @ ''","object":"response","created_at":'' @ show_int now
       @ '',"status":"in_progress","error":null,"incomplete_details":null,"instructions":null,"max_output_tokens":null,"model":"''
       @ default_to ''star-bridge-ds4'' model
       @ ''","output":[],"parallel_tool_calls":true,"previous_response_id":null,"reasoning":null,"store":false,"temperature":1,"text":{"format":{"type":"text"}},"tool_choice":"auto","tools":[],"top_p":1,"truncation":"disabled","usage":null,"user":null,"metadata":{}},"sequence_number":0}'')\<close>

text \<open>The counts that \<^verbatim>\<open>codex_stream_completed\<close> looks up in the agent's usage text.\<close>

definition usage_count :: "string \<Rightarrow> string \<Rightarrow> int" where
  "usage_count usage key =
     (case strstr usage ([dquote] @ key @ [dquote]) of
        None \<Rightarrow> 0
      | Some p \<Rightarrow>
          digits_value 0 (takeWhile is_digit
            (dropWhile (\<lambda>c. c = CHR '':'' \<or> is_blank c) (drop (length key + 2) p))))"

definition usage_text :: "int \<Rightarrow> int \<Rightarrow> string \<Rightarrow> string" where
  \<open>usage_text prompt completion usage =
     (if prompt > 0 \<or> completion > 0 then
        cstr_copy 512 (''"usage":{"input_tokens":'' @ show_int prompt @ '',"output_tokens":'' @ show_int completion
          @ '',"total_tokens":'' @ show_int (prompt + completion)
          @ '',"input_tokens_details":{"text_tokens":'' @ show_int prompt
          @ '',"cached_tokens":'' @ show_int (usage_count usage ''cache_hit'' + usage_count usage ''cache_create'')
          @ ''},"output_tokens_details":{"text_tokens":'' @ show_int completion
          @ '',"reasoning_tokens":'' @ show_int (usage_count usage ''reasoning_tokens'') @ ''}}'')
      else [])\<close>

definition incomplete_text :: "string \<Rightarrow> string" where
  \<open>incomplete_text details =
     (if details \<noteq> []
      then ''"incomplete_details":"'' @ json_escape details (length details * 2 + 32) @ ''"''
      else ''"incomplete_details":null'')\<close>

definition codex_stream_completed ::
  "int \<Rightarrow> string \<Rightarrow> string \<Rightarrow> string \<Rightarrow> int \<Rightarrow> int \<Rightarrow> int \<Rightarrow> string \<Rightarrow> string \<Rightarrow> stream_event"
where
  \<open>codex_stream_completed now rid model final_text seqno prompt completion usage details =
     (let usage_buf = usage_text prompt completion usage in
      mk_event ''response.completed''
       (''{"type":"response.completed","response":{"id":"'' @ default_to ''resp-stream'' rid
        @ ''","object":"response","created_at":'' @ show_int now
        @ '',"status":"completed","error":null,'' @ incomplete_text details
        @ '',"instructions":null,"max_output_tokens":null,"model":"'' @ default_to ''star-bridge-ds4'' model
        @ ''","output":[{"id":"msg_0","type":"message","status":"completed","role":"assistant","content":[{"type":"output_text","text":"''
        @ json_escape_event_text final_text
        @ ''","annotations":[]}]}],"parallel_tool_calls":true,"previous_response_id":null,"reasoning":null,"store":false,"temperature":1,"text":{"format":{"type":"text"}},"tool_choice":"auto","tools":[],"top_p":1,"truncation":"disabled"''
        @ (if usage_buf \<noteq> [] then '','' @ usage_buf else [])
        @ '',"user":null,"metadata":{}},"sequence_number":'' @ show_int seqno @ ''}''))\<close>

definition codex_stream_output_item_added :: "int \<Rightarrow> int \<Rightarrow> stream_event" where
  \<open>codex_stream_output_item_added output_index seqno =
     mk_event ''response.output_item.added''
      (''{"type":"response.output_item.added","output_index":'' @ show_int output_index
       @ '',"item":{"id":"msg_'' @ show_int output_index
       @ ''","type":"message","status":"in_progress","role":"assistant","content":[]},"sequence_number":''
       @ show_int seqno @ ''}'')\<close>

definition codex_stream_content_part_added :: "int \<Rightarrow> int \<Rightarrow> int \<Rightarrow> stream_event" where
  \<open>codex_stream_content_part_added output_index content_index seqno =
     mk_event ''response.content_part.added''
      (''{"type":"response.content_part.added","item_id":"msg_'' @ show_int output_index
       @ ''","output_index":'' @ show_int output_index @ '',"content_index":'' @ show_int content_index
       @ '',"part":{"type":"output_text","text":"","annotations":[]},"sequence_number":''
       @ show_int seqno @ ''}'')\<close>

definition codex_stream_output_text_delta :: "string \<Rightarrow> int \<Rightarrow> int \<Rightarrow> int \<Rightarrow> stream_event" where
  \<open>codex_stream_output_text_delta delta_text item_index content_index seqno =
     mk_event ''response.output_text.delta''
      (''{"type":"response.output_text.delta","item_id":"msg_'' @ show_int item_index
       @ ''","output_index":'' @ show_int item_index @ '',"content_index":'' @ show_int content_index
       @ '',"delta":"'' @ json_escape_event_text delta_text
       @ ''","sequence_number":'' @ show_int seqno @ ''}'')\<close>

definition codex_stream_delta :: "string \<Rightarrow> stream_event" where
  "codex_stream_delta delta_text = codex_stream_output_text_delta delta_text 0 0 1"

definition codex_stream_output_text_done :: "string \<Rightarrow> int \<Rightarrow> int \<Rightarrow> int \<Rightarrow> stream_event" where
  \<open>codex_stream_output_text_done txt output_index content_index seqno =
     mk_event ''response.output_text.done''
      (''{"type":"response.output_text.done","item_id":"msg_'' @ show_int output_index
       @ ''","output_index":'' @ show_int output_index @ '',"content_index":'' @ show_int content_index
       @ '',"text":"'' @ json_escape_event_text txt
       @ ''","logprobs":[],"sequence_number":'' @ show_int seqno @ ''}'')\<close>

definition codex_stream_content_part_done :: "string \<Rightarrow> int \<Rightarrow> int \<Rightarrow> int \<Rightarrow> stream_event" where
  \<open>codex_stream_content_part_done txt output_index content_index seqno =
     mk_event ''response.content_part.done''
      (''{"type":"response.content_part.done","item_id":"msg_'' @ show_int output_index
       @ ''","output_index":'' @ show_int output_index @ '',"content_index":'' @ show_int content_index
       @ '',"part":{"type":"output_text","text":"'' @ json_escape_event_text txt
       @ ''","annotations":[]},"sequence_number":'' @ show_int seqno @ ''}'')\<close>

definition codex_stream_output_item_done :: "string \<Rightarrow> int \<Rightarrow> int \<Rightarrow> stream_event" where
  \<open>codex_stream_output_item_done txt output_index seqno =
     mk_event ''response.output_item.done''
      (''{"type":"response.output_item.done","output_index":'' @ show_int output_index
       @ '',"item":{"id":"msg_'' @ show_int output_index
       @ ''","type":"message","status":"completed","role":"assistant","content":[{"type":"output_text","text":"''
       @ json_escape_event_text txt
       @ ''","annotations":[]}]},"sequence_number":'' @ show_int seqno @ ''}'')\<close>

definition codex_stream_error :: "string \<Rightarrow> int \<Rightarrow> stream_event" where
  \<open>codex_stream_error error_message seqno =
     mk_event ''response.error''
      (''{"type":"response.error","error":{"message":"'' @ json_escape_event_text error_message
       @ ''"},"sequence_number":'' @ show_int seqno @ ''}'')\<close>

section \<open>Facts\<close>

lemma mk_event_simps [simp]:
  "ev_event (mk_event name data) = cstr_copy 64 name"
  "ev_data (mk_event name data) = cstr_copy EVENT_DATA_MAX data"
  by (simp_all add: mk_event_def)

lemmas codex_event_defs = codex_stream_created_def codex_stream_completed_def
  codex_stream_output_item_added_def codex_stream_content_part_added_def
  codex_stream_output_text_delta_def codex_stream_output_text_done_def
  codex_stream_content_part_done_def codex_stream_output_item_done_def codex_stream_error_def

lemma codex_event_names [simp]:
  "ev_event (codex_stream_created n i m) = ''response.created''"
  "ev_event (codex_stream_completed n i m t q p c u d) = ''response.completed''"
  "ev_event (codex_stream_output_item_added o1 q) = ''response.output_item.added''"
  "ev_event (codex_stream_content_part_added o1 c1 q) = ''response.content_part.added''"
  "ev_event (codex_stream_output_text_delta t o1 c1 q) = ''response.output_text.delta''"
  "ev_event (codex_stream_output_text_done t o1 c1 q) = ''response.output_text.done''"
  "ev_event (codex_stream_content_part_done t o1 c1 q) = ''response.content_part.done''"
  "ev_event (codex_stream_output_item_done t o1 q) = ''response.output_item.done''"
  "ev_event (codex_stream_error t q) = ''response.error''"
  by (simp_all add: codex_event_defs cstr_copy_def Let_def)

end
