(* ===== verification/Stream_State.thy ===== *)
theory Stream_State
  imports Stream_Events Frame_Protocol
begin

text \<open>
  The state machine of one streamed response (\<^verbatim>\<open>src/responses_stream_state.c\<close>).

  The descriptor is part of the state: \<open>ss_script\<close> holds the outcomes of the \<open>write\<close> calls
  still to come (every call succeeds in full once it is exhausted), \<open>ss_out\<close> the bytes that
  have been accepted, one element for each call. \<open>ss_log\<close> is the line that
  \<open>send_sse_event\<close> prints on stderr: event name, payload and sequence number. Items and parts
  are lists, so \<open>item_count\<close> and \<open>content_count\<close> are their lengths. The sequence number is
  an integer; the source's \<open>int\<close> would overflow only after \<open>2 ^ 31\<close> events.
\<close>

section \<open>State\<close>

datatype content_type =
  CONTENT_TYPE_OUTPUT_TEXT | CONTENT_TYPE_REASONING_SUMMARY | CONTENT_TYPE_FUNCTION_CALL

record content_part =
  cp_type :: content_type
  cp_text :: string
  cp_name :: string
  cp_arguments :: string
  cp_seq_start :: int

record output_item =
  oi_id :: string
  oi_status :: string
  oi_role :: string
  oi_parts :: "content_part list"

datatype terminal_state =
  STREAM_ACTIVE | STREAM_COMPLETED | STREAM_CANCELLED | STREAM_ERROR | STREAM_DISCONNECTED

record stream_state =
  ss_id :: string
  ss_model :: string
  ss_seq :: int
  ss_headers_sent :: bool
  ss_items :: "output_item list"
  ss_cur_item :: int
  ss_cur_part :: int
  ss_gzip_supported :: bool
  ss_input_tokens :: int
  ss_output_tokens :: int
  ss_reasoning_tokens :: int
  ss_tracked :: bool
  ss_terminal :: terminal_state
  ss_error_message :: string
  ss_incomplete_details :: string
  ss_script :: "wr list"
  ss_out :: "bytes list"
  ss_log :: "(string \<times> string \<times> int) list"

definition RESPONSES_MAX_OUTPUT_ITEMS :: nat where
  "RESPONSES_MAX_OUTPUT_ITEMS = 16"

definition RESPONSES_MAX_CONTENT_PARTS :: nat where
  "RESPONSES_MAX_CONTENT_PARTS = 16"

definition PART_TEXT_SIZE :: nat where
  "PART_TEXT_SIZE = 131072"

text \<open>Here an absent \<open>const char *\<close> and the empty string have the same effect.\<close>

definition responses_stream_init :: "string \<Rightarrow> string \<Rightarrow> bool \<Rightarrow> wr list \<Rightarrow> stream_state" where
  "responses_stream_init rid model gzip script =
     \<lparr>ss_id = cstr_copy 64 rid, ss_model = cstr_copy 128 model, ss_seq = 0, ss_headers_sent = False,
      ss_items = [], ss_cur_item = -1, ss_cur_part = -1, ss_gzip_supported = gzip,
      ss_input_tokens = 0, ss_output_tokens = 0, ss_reasoning_tokens = 0, ss_tracked = False,
      ss_terminal = STREAM_ACTIVE, ss_error_message = [], ss_incomplete_details = [],
      ss_script = script, ss_out = [], ss_log = []\<rparr>"

section \<open>Writing to the client\<close>

text \<open>One \<open>write\<close>: did it take all the bytes?\<close>

definition fd_write :: "bytes \<Rightarrow> stream_state \<Rightarrow> bool \<times> stream_state" where
  "fd_write data s =
     (case ss_script s of
        [] \<Rightarrow> (True, s\<lparr>ss_out := ss_out s @ [data]\<rparr>)
      | Wrote n # ws \<Rightarrow> (length data \<le> n, s\<lparr>ss_script := ws, ss_out := ss_out s @ [take n data]\<rparr>)
      | _ # ws \<Rightarrow> (False, s\<lparr>ss_script := ws\<rparr>))"

definition sse_text :: "string \<Rightarrow> string \<Rightarrow> string" where
  "sse_text event data = ''event: '' @ event @ [CHR 0x0A] @ ''data: '' @ data @ [CHR 0x0A, CHR 0x0A]"

text \<open>
  What is handed to \<open>write\<close>: the buffer has 131200 bytes, and a text of exactly that length
  goes out with its last byte replaced by the terminating NUL.
\<close>

definition sse_bytes :: "string \<Rightarrow> string \<Rightarrow> bytes" where
  "sse_bytes event data =
     (let t = sse_text event data; n = length t
      in if n > 131200 then take 131199 t
         else take n (take 131199 t @ [CHR 0x00]))"

definition send_sse_event :: "string \<Rightarrow> string \<Rightarrow> int \<Rightarrow> stream_state \<Rightarrow> bool \<times> stream_state" where
  "send_sse_event event data seqno s =
     (case fd_write (sse_bytes event data) s of
        (ok, s') \<Rightarrow> (ok, s'\<lparr>ss_log := ss_log s' @ [(event, data, seqno)]\<rparr>))"

definition send_heartbeat :: "stream_state \<Rightarrow> bool \<times> stream_state" where
  "send_heartbeat s = fd_write ('':heartbeat'' @ [CHR 0x0A, CHR 0x0A]) s"


definition sse_headers :: string where
  "sse_headers = ''HTTP/1.1 200 OK'' @ crlf @ ''Content-Type: text/event-stream'' @ crlf
     @ ''Cache-Control: no-cache'' @ crlf @ ''Connection: keep-alive'' @ crlf
     @ ''Access-Control-Allow-Origin: *'' @ crlf @ crlf"

definition responses_stream_send_headers :: "stream_state \<Rightarrow> bool \<times> stream_state" where
  "responses_stream_send_headers s =
     (if ss_headers_sent s then (True, s)
      else case fd_write sse_headers s of
        (ok, s') \<Rightarrow> if ok then (True, s'\<lparr>ss_headers_sent := True\<rparr>) else (False, s'))"

text \<open>
  The common end of the emitters: take the next sequence number, send the event and, in most
  of them, a heartbeat. The results of both writes are dropped, as in the source.
\<close>

definition emit_event :: "string \<Rightarrow> string \<Rightarrow> bool \<Rightarrow> stream_state \<Rightarrow> stream_state" where
  "emit_event event data heartbeat s =
     (let s1 = snd (send_sse_event event data (ss_seq s) (s\<lparr>ss_seq := ss_seq s + 1\<rparr>))
      in if heartbeat then snd (send_heartbeat s1) else s1)"

section \<open>Emitters\<close>

definition responses_stream_emit_created :: "int \<Rightarrow> stream_state \<Rightarrow> bool \<times> stream_state" where
  "responses_stream_emit_created now s =
     (case responses_stream_send_headers s of
        (False, s1) \<Rightarrow> (False, s1)
      | (True, s1) \<Rightarrow>
          let ev = codex_stream_created now (ss_id s1) (ss_model s1)
          in (True, emit_event (ev_event ev) (ev_data ev) True s1))"

definition responses_stream_emit_output_item_added :: "stream_state \<Rightarrow> bool \<times> stream_state" where
  "responses_stream_emit_output_item_added s =
     (let idx = length (ss_items s)
      in if idx \<ge> RESPONSES_MAX_OUTPUT_ITEMS then (False, s)
         else
           let ev = codex_stream_output_item_added (int idx) (ss_seq s);
               s1 = emit_event (ev_event ev) (ev_data ev) True s;
               item = \<lparr>oi_id = cstr_copy 64 (''msg_'' @ show_nat idx), oi_status = ''in_progress'',
                       oi_role = ''assistant'', oi_parts = []\<rparr>
           in (True, s1\<lparr>ss_items := ss_items s1 @ [item], ss_cur_item := int idx, ss_cur_part := -1\<rparr>))"

definition cur_item :: "stream_state \<Rightarrow> output_item" where
  "cur_item s = ss_items s ! nat (ss_cur_item s)"

definition cur_part :: "stream_state \<Rightarrow> content_part" where
  "cur_part s = oi_parts (cur_item s) ! nat (ss_cur_part s)"

definition set_cur_item :: "output_item \<Rightarrow> stream_state \<Rightarrow> stream_state" where
  "set_cur_item item s = s\<lparr>ss_items := (ss_items s)[nat (ss_cur_item s) := item]\<rparr>"

definition set_cur_part :: "content_part \<Rightarrow> stream_state \<Rightarrow> stream_state" where
  "set_cur_part part s =
     set_cur_item ((cur_item s)\<lparr>oi_parts := (oi_parts (cur_item s))[nat (ss_cur_part s) := part]\<rparr>) s"

definition responses_stream_emit_content_part_added ::
    "content_type \<Rightarrow> stream_state \<Rightarrow> bool \<times> stream_state" where
  "responses_stream_emit_content_part_added ty s =
     (if ss_cur_item s < 0 \<or> ss_cur_item s \<ge> int (length (ss_items s)) then (False, s)
      else
        let idx = length (oi_parts (cur_item s))
        in if idx \<ge> RESPONSES_MAX_CONTENT_PARTS then (False, s)
           else
             let ev = codex_stream_content_part_added (ss_cur_item s) (int idx) (ss_seq s);
                 s1 = emit_event (ev_event ev) (ev_data ev) True s;
                 part = \<lparr>cp_type = ty, cp_text = [], cp_name = [], cp_arguments = [],
                         cp_seq_start = ss_seq s\<rparr>;
                 s2 = set_cur_item ((cur_item s1)\<lparr>oi_parts := oi_parts (cur_item s1) @ [part]\<rparr>) s1
             in (True, s2\<lparr>ss_cur_part := int idx\<rparr>))"

definition no_current_part :: "stream_state \<Rightarrow> bool" where
  "no_current_part s = (ss_cur_item s < 0 \<or> ss_cur_part s < 0)"

text \<open>The accumulation: a chunk that does not fit is dropped as a whole.\<close>

definition accumulate :: "string \<Rightarrow> string \<Rightarrow> string" where
  "accumulate text delta = (if length text + length delta < PART_TEXT_SIZE then text @ delta else text)"

definition responses_stream_emit_text_delta :: "string \<Rightarrow> stream_state \<Rightarrow> bool \<times> stream_state" where
  "responses_stream_emit_text_delta delta s =
     (if no_current_part s then (False, s)
      else if cp_type (cur_part s) \<noteq> CONTENT_TYPE_OUTPUT_TEXT then (False, s)
      else
        let ev = codex_stream_output_text_delta delta (ss_cur_item s) (ss_cur_part s) (ss_seq s);
            s1 = emit_event (ev_event ev) (ev_data ev) False s;
            part = cur_part s1
        in (True, set_cur_part (part\<lparr>cp_text := accumulate (cp_text part) delta\<rparr>) s1))"

definition delta_payload :: "string \<Rightarrow> string \<Rightarrow> stream_state \<Rightarrow> string" where
  \<open>delta_payload ty delta s =
     cstr_copy 131200 (''{"type":"'' @ ty @ ''","item_id":"'' @ oi_id (cur_item s)
       @ ''","output_index":'' @ show_int (ss_cur_item s) @ '',"content_index":'' @ show_int (ss_cur_part s)
       @ '',"delta":"'' @ json_escape delta 131072 @ ''","sequence_number":'' @ show_int (ss_seq s) @ ''}'')\<close>

definition responses_stream_emit_reasoning_delta :: "string \<Rightarrow> stream_state \<Rightarrow> bool \<times> stream_state" where
  "responses_stream_emit_reasoning_delta delta s =
     (if no_current_part s then (False, s)
      else if cp_type (cur_part s) \<noteq> CONTENT_TYPE_REASONING_SUMMARY then (False, s)
      else
        let s1 = emit_event ''reasoning_summary.delta'' (delta_payload ''reasoning_summary.delta'' delta s) False s;
            part = cur_part s1
        in (True, set_cur_part (part\<lparr>cp_text := accumulate (cp_text part) delta\<rparr>) s1))"

definition responses_stream_emit_function_call_delta :: "string \<Rightarrow> stream_state \<Rightarrow> bool \<times> stream_state" where
  "responses_stream_emit_function_call_delta delta s =
     (if no_current_part s then (False, s)
      else if cp_type (cur_part s) \<noteq> CONTENT_TYPE_FUNCTION_CALL then (False, s)
      else
        let s1 = emit_event ''function_call_arguments.delta''
                   (delta_payload ''function_call_arguments.delta'' delta s) False s;
            part = cur_part s1
        in (True, set_cur_part (part\<lparr>cp_arguments := accumulate (cp_arguments part) delta\<rparr>) s1))"

definition responses_stream_emit_text_done :: "stream_state \<Rightarrow> bool \<times> stream_state" where
  "responses_stream_emit_text_done s =
     (if no_current_part s then (False, s)
      else if cp_type (cur_part s) \<noteq> CONTENT_TYPE_OUTPUT_TEXT then (False, s)
      else
        let ev = codex_stream_output_text_done (cp_text (cur_part s)) (ss_cur_item s) (ss_cur_part s) (ss_seq s)
        in (True, emit_event (ev_event ev) (ev_data ev) True s))"

definition responses_stream_emit_content_part_done :: "stream_state \<Rightarrow> bool \<times> stream_state" where
  "responses_stream_emit_content_part_done s =
     (if no_current_part s then (False, s)
      else
        let ev = codex_stream_content_part_done (cp_text (cur_part s)) (ss_cur_item s) (ss_cur_part s) (ss_seq s)
        in (True, emit_event (ev_event ev) (ev_data ev) True s))"

definition first_part_text :: "output_item \<Rightarrow> string" where
  "first_part_text item = (case oi_parts item of [] \<Rightarrow> [] | p # _ \<Rightarrow> cp_text p)"

definition responses_stream_emit_output_item_done :: "stream_state \<Rightarrow> bool \<times> stream_state" where
  "responses_stream_emit_output_item_done s =
     (if ss_cur_item s < 0 \<or> ss_cur_item s \<ge> int (length (ss_items s)) then (False, s)
      else
        let ev = codex_stream_output_item_done (first_part_text (cur_item s)) (ss_cur_item s) (ss_seq s);
            s1 = emit_event (ev_event ev) (ev_data ev) True s
        in (True, set_cur_item ((cur_item s1)\<lparr>oi_status := ''completed''\<rparr>) s1))"

definition done_marker :: string where
  "done_marker = ''[DONE]'' @ [CHR 0x0A]"

definition responses_stream_emit_completed :: "int \<Rightarrow> stream_state \<Rightarrow> bool \<times> stream_state" where
  "responses_stream_emit_completed now s =
     (let final_text = (case ss_items s of [] \<Rightarrow> [] | item # _ \<Rightarrow> first_part_text item);
          ev = codex_stream_completed now (ss_id s) (ss_model s) final_text (ss_seq s)
                 (ss_input_tokens s) (ss_output_tokens s) [] (ss_incomplete_details s);
          s1 = emit_event (ev_event ev) (ev_data ev) True s;
          s2 = snd (fd_write done_marker s1)
      in (True, s2\<lparr>ss_terminal := STREAM_COMPLETED\<rparr>))"

definition responses_stream_emit_error :: "string \<Rightarrow> stream_state \<Rightarrow> bool \<times> stream_state" where
  "responses_stream_emit_error msg s =
     (let ev = codex_stream_error msg (ss_seq s);
          s1 = emit_event (ev_event ev) (ev_data ev) True s
      in (True, s1\<lparr>ss_error_message := cstr_copy 256 msg, ss_terminal := STREAM_ERROR\<rparr>))"

definition failed_payload :: "string \<Rightarrow> string \<Rightarrow> int \<Rightarrow> string" where
  \<open>failed_payload rid reason seqno =
     cstr_copy 2048 (''{"type":"response.failed","response":{"id":"'' @ rid
       @ ''","object":"response","status":"failed"},"error":{"code":"'' @ json_escape reason 1024
       @ ''","message":"'' @ json_escape reason 1024 @ ''"},"sequence_number":'' @ show_int seqno @ ''}'')\<close>

definition responses_stream_emit_failed :: "string \<Rightarrow> stream_state \<Rightarrow> bool \<times> stream_state" where
  "responses_stream_emit_failed reason s =
     (let r = default_to ''failed'' reason;
          s1 = emit_event ''response.failed'' (failed_payload (ss_id s) r (ss_seq s)) True s
      in (True, s1\<lparr>ss_error_message := cstr_copy 256 r, ss_terminal := STREAM_ERROR\<rparr>))"

definition responses_stream_send_heartbeat :: "stream_state \<Rightarrow> bool \<times> stream_state" where
  "responses_stream_send_heartbeat s = send_heartbeat s"

definition responses_stream_is_active :: "stream_state \<Rightarrow> bool" where
  "responses_stream_is_active s = (ss_terminal s = STREAM_ACTIVE)"

definition responses_stream_send_done_marker :: "stream_state \<Rightarrow> bool \<times> stream_state" where
  "responses_stream_send_done_marker s = fd_write done_marker s"

definition responses_stream_start_item :: "stream_state \<Rightarrow> bool \<times> stream_state" where
  "responses_stream_start_item s = responses_stream_emit_output_item_added s"

definition responses_stream_start_part ::
    "content_type \<Rightarrow> string option \<Rightarrow> stream_state \<Rightarrow> bool \<times> stream_state" where
  "responses_stream_start_part ty name s =
     (case responses_stream_emit_content_part_added ty s of
        (False, s1) \<Rightarrow> (False, s1)
      | (True, s1) \<Rightarrow>
          (case name of
             Some nm \<Rightarrow>
               if ty = CONTENT_TYPE_FUNCTION_CALL
               then (True, set_cur_part ((cur_part s1)\<lparr>cp_name := cstr_copy 64 nm\<rparr>) s1)
               else (True, s1)
           | None \<Rightarrow> (True, s1)))"

section \<open>The whole life of a text response\<close>

text \<open>
  The chunk loop. A chunk of more than 4096 bytes overruns the local \<open>chunk[4097]\<close>
  (\<open>Overrun\<close>). With a chunk size of zero the loop makes no progress, so it is a partial
  function: \<open>None\<close> means that it does not return.
\<close>

datatype 'a c_run = Overrun | Ret 'a

partial_function (option) run_chunks ::
    "nat \<Rightarrow> bytes \<Rightarrow> stream_state \<Rightarrow> (bool \<times> stream_state) c_run option" where
  "run_chunks chunk_size rest s =
     (if rest = [] then Some (Ret (True, s))
      else if \<not> responses_stream_is_active s then Some (Ret (False, s))
      else
        let chunk = take chunk_size rest
        in if length chunk > 4096 then Some Overrun
           else
             let r = responses_stream_emit_text_delta (takeWhile (\<lambda>c. c \<noteq> CHR 0x00) chunk) s
             in if fst r then run_chunks chunk_size (drop chunk_size rest) (snd r)
                else Some (Ret (False, snd r)))"

text \<open>The part before the loop, and the part after it.\<close>

definition run_text_open :: "int \<Rightarrow> stream_state \<Rightarrow> bool \<times> stream_state" where
  "run_text_open now s =
     (case responses_stream_emit_created now s of
        (False, s1) \<Rightarrow> (False, s1)
      | (True, s1) \<Rightarrow>
          (case responses_stream_start_item s1 of
             (False, s2) \<Rightarrow> (False, s2)
           | (True, s2) \<Rightarrow> responses_stream_start_part CONTENT_TYPE_OUTPUT_TEXT None s2))"

definition run_text_close :: "int \<Rightarrow> stream_state \<Rightarrow> bool \<times> stream_state" where
  "run_text_close now s =
     (if \<not> responses_stream_is_active s then (False, s)
      else case responses_stream_emit_text_done s of
        (False, s1) \<Rightarrow> (False, s1)
      | (True, s1) \<Rightarrow>
          (case responses_stream_emit_content_part_done s1 of
             (False, s2) \<Rightarrow> (False, s2)
           | (True, s2) \<Rightarrow>
               (case responses_stream_emit_output_item_done s2 of
                  (False, s3) \<Rightarrow> (False, s3)
                | (True, s3) \<Rightarrow> responses_stream_emit_completed now s3)))"

definition responses_stream_run_text ::
    "int \<Rightarrow> int \<Rightarrow> bytes \<Rightarrow> nat \<Rightarrow> stream_state \<Rightarrow> (bool \<times> stream_state) c_run option" where
  "responses_stream_run_text now now' content chunk_size s =
     (case run_text_open now s of
        (False, s1) \<Rightarrow> Some (Ret (False, s1))
      | (True, s1) \<Rightarrow>
          (case run_chunks chunk_size content s1 of
             None \<Rightarrow> None
           | Some Overrun \<Rightarrow> Some Overrun
           | Some (Ret (False, s2)) \<Rightarrow> Some (Ret (False, s2))
           | Some (Ret (True, s2)) \<Rightarrow> Some (Ret (run_text_close now' s2))))"

section \<open>What an emission changes\<close>

lemma fd_write_frame [simp]:
  "ss_id (snd (fd_write d s)) = ss_id s" "ss_model (snd (fd_write d s)) = ss_model s"
  "ss_seq (snd (fd_write d s)) = ss_seq s" "ss_headers_sent (snd (fd_write d s)) = ss_headers_sent s"
  "ss_items (snd (fd_write d s)) = ss_items s" "ss_cur_item (snd (fd_write d s)) = ss_cur_item s"
  "ss_cur_part (snd (fd_write d s)) = ss_cur_part s" "ss_terminal (snd (fd_write d s)) = ss_terminal s"
  "ss_log (snd (fd_write d s)) = ss_log s"
  by (simp_all add: fd_write_def split: list.splits wr.splits)

lemma emit_event_frame [simp]:
  "ss_id (emit_event e d hb s) = ss_id s" "ss_model (emit_event e d hb s) = ss_model s"
  "ss_seq (emit_event e d hb s) = ss_seq s + 1"
  "ss_headers_sent (emit_event e d hb s) = ss_headers_sent s"
  "ss_items (emit_event e d hb s) = ss_items s" "ss_cur_item (emit_event e d hb s) = ss_cur_item s"
  "ss_cur_part (emit_event e d hb s) = ss_cur_part s" "ss_terminal (emit_event e d hb s) = ss_terminal s"
  "ss_log (emit_event e d hb s) = ss_log s @ [(e, d, ss_seq s)]"
  by (simp_all add: emit_event_def send_sse_event_def send_heartbeat_def case_prod_beta Let_def)

lemma send_headers_frame [simp]:
  "ss_id (snd (responses_stream_send_headers s)) = ss_id s"
  "ss_model (snd (responses_stream_send_headers s)) = ss_model s"
  "ss_seq (snd (responses_stream_send_headers s)) = ss_seq s"
  "ss_items (snd (responses_stream_send_headers s)) = ss_items s"
  "ss_cur_item (snd (responses_stream_send_headers s)) = ss_cur_item s"
  "ss_cur_part (snd (responses_stream_send_headers s)) = ss_cur_part s"
  "ss_terminal (snd (responses_stream_send_headers s)) = ss_terminal s"
  "ss_log (snd (responses_stream_send_headers s)) = ss_log s"
  by (simp_all add: responses_stream_send_headers_def case_prod_beta)

lemma set_cur_item_frame [simp]:
  "ss_seq (set_cur_item i s) = ss_seq s" "ss_log (set_cur_item i s) = ss_log s"
  "ss_terminal (set_cur_item i s) = ss_terminal s" "ss_cur_item (set_cur_item i s) = ss_cur_item s"
  "ss_cur_part (set_cur_item i s) = ss_cur_part s"
  "ss_items (set_cur_item i s) = (ss_items s)[nat (ss_cur_item s) := i]"
  by (simp_all add: set_cur_item_def)

lemma cur_emit [simp]:
  "cur_item (emit_event e d hb s) = cur_item s" "cur_part (emit_event e d hb s) = cur_part s"
  by (simp_all add: cur_item_def cur_part_def)


section \<open>Every operation keeps the numbering and the bounds\<close>

definition part_ok :: "content_part \<Rightarrow> bool" where
  "part_ok p = (length (cp_text p) < PART_TEXT_SIZE \<and> length (cp_arguments p) < PART_TEXT_SIZE)"

definition item_ok :: "output_item \<Rightarrow> bool" where
  "item_ok i = (length (oi_parts i) \<le> RESPONSES_MAX_CONTENT_PARTS \<and> list_all part_ok (oi_parts i))"

definition last_part :: "output_item list \<Rightarrow> int" where
  "last_part items = (if items = [] then -1 else int (length (oi_parts (last items))) - 1)"

definition stream_inv :: "stream_state \<Rightarrow> bool" where
  "stream_inv s =
     (ss_seq s = int (length (ss_log s))
      \<and> map (\<lambda>(_, _, q). q) (ss_log s) = map int [0..<length (ss_log s)]
      \<and> length (ss_items s) \<le> RESPONSES_MAX_OUTPUT_ITEMS
      \<and> list_all item_ok (ss_items s)
      \<and> ss_cur_item s = int (length (ss_items s)) - 1
      \<and> ss_cur_part s = last_part (ss_items s))"

datatype stream_op =
    Op_Headers | Op_Created int | Op_Item | Op_Part content_type "string option"
  | Op_Text string | Op_Reasoning string | Op_Call string
  | Op_Text_Done | Op_Part_Done | Op_Item_Done | Op_Completed int
  | Op_Error string | Op_Failed string | Op_Heartbeat | Op_Done_Marker

fun stream_apply :: "stream_op \<Rightarrow> stream_state \<Rightarrow> bool \<times> stream_state" where
  "stream_apply Op_Headers s = responses_stream_send_headers s"
| "stream_apply (Op_Created now) s = responses_stream_emit_created now s"
| "stream_apply Op_Item s = responses_stream_start_item s"
| "stream_apply (Op_Part ty name) s = responses_stream_start_part ty name s"
| "stream_apply (Op_Text d) s = responses_stream_emit_text_delta d s"
| "stream_apply (Op_Reasoning d) s = responses_stream_emit_reasoning_delta d s"
| "stream_apply (Op_Call d) s = responses_stream_emit_function_call_delta d s"
| "stream_apply Op_Text_Done s = responses_stream_emit_text_done s"
| "stream_apply Op_Part_Done s = responses_stream_emit_content_part_done s"
| "stream_apply Op_Item_Done s = responses_stream_emit_output_item_done s"
| "stream_apply (Op_Completed now) s = responses_stream_emit_completed now s"
| "stream_apply (Op_Error m) s = responses_stream_emit_error m s"
| "stream_apply (Op_Failed r) s = responses_stream_emit_failed r s"
| "stream_apply Op_Heartbeat s = responses_stream_send_heartbeat s"
| "stream_apply Op_Done_Marker s = responses_stream_send_done_marker s"

definition stream_run :: "stream_op list \<Rightarrow> stream_state \<Rightarrow> stream_state" where
  "stream_run ops s = foldl (\<lambda>s op. snd (stream_apply op s)) s ops"

text \<open>The parts of the state the invariant reads; an operation that keeps them keeps it.\<close>

lemma stream_inv_cong:
  "stream_inv s \<Longrightarrow> ss_seq s' = ss_seq s \<Longrightarrow> ss_log s' = ss_log s \<Longrightarrow> ss_items s' = ss_items s \<Longrightarrow>
   ss_cur_item s' = ss_cur_item s \<Longrightarrow> ss_cur_part s' = ss_cur_part s \<Longrightarrow> stream_inv s'"
  by (simp add: stream_inv_def)

lemma stream_inv_fd_write: "stream_inv s \<Longrightarrow> stream_inv (snd (fd_write d s))"
  by (rule stream_inv_cong) simp_all

lemma stream_inv_headers: "stream_inv s \<Longrightarrow> stream_inv (snd (responses_stream_send_headers s))"
  by (rule stream_inv_cong) simp_all

lemma stream_inv_emit: "stream_inv s \<Longrightarrow> stream_inv (emit_event e d hb s)"
  by (simp add: stream_inv_def)

lemma stream_inv_terminal:
  "stream_inv (s\<lparr>ss_terminal := t\<rparr>) = stream_inv s"
  "stream_inv (s\<lparr>ss_error_message := m\<rparr>) = stream_inv s"
  by (simp_all add: stream_inv_def)

lemma stream_inv_init: "stream_inv (responses_stream_init i m g ws)"
  by (simp add: stream_inv_def responses_stream_init_def last_part_def)

lemma stream_inv_current:
  assumes "stream_inv s" and "\<not> ss_cur_item s < 0"
  shows "ss_items s \<noteq> []" and "nat (ss_cur_item s) = length (ss_items s) - 1"
    and "cur_item s = last (ss_items s)" and "item_ok (cur_item s)"
proof -
  show ne: "ss_items s \<noteq> []" using assms by (auto simp: stream_inv_def)
  show n: "nat (ss_cur_item s) = length (ss_items s) - 1"
    using assms by (auto simp: stream_inv_def nat_diff_distrib')
  show c: "cur_item s = last (ss_items s)" using ne n by (simp add: cur_item_def last_conv_nth)
  show "item_ok (cur_item s)"
    using assms(1) ne c by (auto simp: stream_inv_def list_all_iff)
qed

lemma stream_inv_set_item:
  assumes inv: "stream_inv s" and cur: "\<not> ss_cur_item s < 0" and ok: "item_ok i"
    and len: "length (oi_parts i) = length (oi_parts (cur_item s))"
  shows "stream_inv (set_cur_item i s)"
proof -
  note c = stream_inv_current [OF inv cur]
  have "(ss_items s)[length (ss_items s) - 1 := i] = butlast (ss_items s) @ [i]"
    using c(1) by (metis append_butlast_last_id length_butlast list_update_length)
  moreover have "list_all item_ok (butlast (ss_items s))"
    using inv by (auto simp: stream_inv_def list_all_iff dest: in_set_butlastD)
  ultimately show ?thesis
    using inv c ok len by (auto simp: stream_inv_def last_part_def)
qed

lemma stream_inv_current_part:
  assumes "stream_inv s" and "\<not> no_current_part s"
  shows "nat (ss_cur_part s) = length (oi_parts (cur_item s)) - 1" and "oi_parts (cur_item s) \<noteq> []"
    and "part_ok (cur_part s)"
proof -
  have cur: "\<not> ss_cur_item s < 0" using assms(2) by (simp add: no_current_part_def)
  note c = stream_inv_current [OF assms(1) cur]
  show n: "nat (ss_cur_part s) = length (oi_parts (cur_item s)) - 1"
    using assms(1) c by (auto simp: stream_inv_def last_part_def)
  show ne: "oi_parts (cur_item s) \<noteq> []"
    using assms c by (auto simp: no_current_part_def stream_inv_def last_part_def)
  show "part_ok (cur_part s)"
    using c(4) n ne by (auto simp: cur_part_def item_ok_def list_all_iff)
qed

lemma stream_inv_set_part:
  assumes inv: "stream_inv s" and cur: "\<not> no_current_part s" and ok: "part_ok p"
  shows "stream_inv (set_cur_part p s)"
proof -
  have nn: "\<not> ss_cur_item s < 0" using cur by (simp add: no_current_part_def)
  note c = stream_inv_current [OF inv nn]
  have "list_all part_ok ((oi_parts (cur_item s))[nat (ss_cur_part s) := p])"
    using c(4) ok set_update_subset_insert [of "oi_parts (cur_item s)" "nat (ss_cur_part s)" p]
    by (auto simp: item_ok_def list_all_iff)
  then show ?thesis unfolding set_cur_part_def
    using c(4) by (intro stream_inv_set_item [OF inv nn]) (simp_all add: item_ok_def)
qed

lemma no_current_part_emit [simp]: "no_current_part (emit_event e d hb s) = no_current_part s"
  by (simp add: no_current_part_def)

lemma length_accumulate: "length t < PART_TEXT_SIZE \<Longrightarrow> length (accumulate t d) < PART_TEXT_SIZE"
  by (simp add: accumulate_def)

lemma stream_inv_created: "stream_inv s \<Longrightarrow> stream_inv (snd (responses_stream_emit_created now s))"
  using stream_inv_headers [of s]
  by (auto simp: responses_stream_emit_created_def Let_def stream_inv_emit split: prod.splits bool.splits)

lemma stream_inv_item_added:
  assumes "stream_inv s"
  shows "stream_inv (snd (responses_stream_emit_output_item_added s))"
  using assms
  by (auto simp: responses_stream_emit_output_item_added_def Let_def stream_inv_def last_part_def
      item_ok_def)

lemma stream_inv_part_added:
  assumes inv: "stream_inv s"
  shows "stream_inv (snd (responses_stream_emit_content_part_added ty s))"
proof (cases "ss_cur_item s < 0 \<or> length (oi_parts (cur_item s)) \<ge> RESPONSES_MAX_CONTENT_PARTS
    \<or> ss_cur_item s \<ge> int (length (ss_items s))")
  case True
  then show ?thesis using inv by (auto simp: responses_stream_emit_content_part_added_def Let_def)
next
  case False
  then have cur: "\<not> ss_cur_item s < 0" by simp
  note c = stream_inv_current [OF inv cur]
  let ?p = "\<lparr>cp_type = ty, cp_text = [], cp_name = [], cp_arguments = [], cp_seq_start = ss_seq s\<rparr>"
  let ?i = "(cur_item s)\<lparr>oi_parts := oi_parts (cur_item s) @ [?p]\<rparr>"
  have i: "item_ok ?i"
    using c(4) False by (simp add: item_ok_def part_ok_def PART_TEXT_SIZE_def)
  have "(ss_items s)[length (ss_items s) - 1 := ?i] = butlast (ss_items s) @ [?i]"
    using c(1) by (metis append_butlast_last_id length_butlast list_update_length)
  moreover have "list_all item_ok (butlast (ss_items s))"
    using inv by (auto simp: stream_inv_def list_all_iff dest: in_set_butlastD)
  ultimately show ?thesis
    using False inv c i
    by (auto simp: responses_stream_emit_content_part_added_def Let_def stream_inv_def last_part_def)
qed

lemma stream_inv_start_part:
  assumes inv: "stream_inv s"
  shows "stream_inv (snd (responses_stream_start_part ty name s))"
proof -
  obtain ok s1 where r: "responses_stream_emit_content_part_added ty s = (ok, s1)" by force
  have s1: "stream_inv s1" using stream_inv_part_added [OF inv, of ty] r by simp
  have "\<not> no_current_part s1" if ok
    using r that inv
    by (auto simp: responses_stream_emit_content_part_added_def Let_def no_current_part_def
        set_cur_item_def split: if_splits)
  with s1 show ?thesis
    using stream_inv_current_part(3) [OF s1]
    by (cases ok; cases name)
      (auto simp: responses_stream_start_part_def r part_ok_def intro!: stream_inv_set_part)
qed

lemmas delta_defs = responses_stream_emit_text_delta_def responses_stream_emit_reasoning_delta_def
  responses_stream_emit_function_call_delta_def

lemma stream_inv_deltas:
  assumes inv: "stream_inv s"
  shows "stream_inv (snd (responses_stream_emit_text_delta d s))"
    and "stream_inv (snd (responses_stream_emit_reasoning_delta d s))"
    and "stream_inv (snd (responses_stream_emit_function_call_delta d s))"
  using stream_inv_current_part(3) [OF inv] inv
  by (auto simp: delta_defs Let_def part_ok_def length_accumulate
      intro!: stream_inv_set_part stream_inv_emit)

lemma stream_inv_dones:
  assumes inv: "stream_inv s"
  shows "stream_inv (snd (responses_stream_emit_text_done s))"
    and "stream_inv (snd (responses_stream_emit_content_part_done s))"
  using inv by (auto simp: responses_stream_emit_text_done_def
      responses_stream_emit_content_part_done_def Let_def stream_inv_emit)

lemma stream_inv_item_done:
  assumes inv: "stream_inv s"
  shows "stream_inv (snd (responses_stream_emit_output_item_done s))"
  using stream_inv_current(4) [OF inv] inv
  by (auto simp: responses_stream_emit_output_item_done_def Let_def item_ok_def
      intro!: stream_inv_set_item stream_inv_emit)

lemma stream_inv_ends:
  assumes inv: "stream_inv s"
  shows "stream_inv (snd (responses_stream_emit_completed now s))"
    and "stream_inv (snd (responses_stream_emit_error m s))"
    and "stream_inv (snd (responses_stream_emit_failed m s))"
  using inv by (simp_all add: responses_stream_emit_completed_def responses_stream_emit_error_def
      responses_stream_emit_failed_def Let_def stream_inv_terminal stream_inv_emit stream_inv_fd_write)

lemma stream_inv_apply: "stream_inv s \<Longrightarrow> stream_inv (snd (stream_apply op s))"
  by (cases op) (simp_all add: stream_inv_headers stream_inv_created stream_inv_item_added
      responses_stream_start_item_def stream_inv_start_part stream_inv_deltas stream_inv_dones
      stream_inv_item_done stream_inv_ends responses_stream_send_heartbeat_def send_heartbeat_def
      responses_stream_send_done_marker_def stream_inv_fd_write)

lemma stream_inv_run: "stream_inv s \<Longrightarrow> stream_inv (stream_run ops s)"
  unfolding stream_run_def by (induction ops arbitrary: s) (simp_all add: stream_inv_apply)


section \<open>The life of a text response\<close>

text \<open>The state between the opening and the closing events.\<close>

definition text_open :: "stream_state \<Rightarrow> string \<Rightarrow> bool" where
  "text_open s t =
     (ss_terminal s = STREAM_ACTIVE \<and> ss_cur_item s = 0 \<and> ss_cur_part s = 0
      \<and> (case ss_items s of [i] \<Rightarrow>
           (case oi_parts i of [p] \<Rightarrow> cp_type p = CONTENT_TYPE_OUTPUT_TEXT \<and> cp_text p = t | _ \<Rightarrow> False)
         | _ \<Rightarrow> False))"

lemma text_open_obtain:
  assumes "text_open s t"
  obtains i p where "ss_items s = [i]" "oi_parts i = [p]" "cp_type p = CONTENT_TYPE_OUTPUT_TEXT"
    "cp_text p = t" "cur_item s = i" "cur_part s = p" "ss_cur_item s = 0" "ss_cur_part s = 0"
    "ss_terminal s = STREAM_ACTIVE"
  using assms by (auto simp: text_open_def cur_item_def cur_part_def split: list.splits)

definition event_names :: "stream_state \<Rightarrow> string list" where
  "event_names s = map fst (ss_log s)"

lemma text_delta_step:
  assumes "text_open s t"
  obtains s' where "responses_stream_emit_text_delta d s = (True, s')" "text_open s' (accumulate t d)"
    "event_names s' = event_names s @ [''response.output_text.delta'']"
proof -
  obtain i p where o: "ss_items s = [i]" "oi_parts i = [p]" "cp_type p = CONTENT_TYPE_OUTPUT_TEXT"
    "cp_text p = t" "cur_item s = i" "cur_part s = p" "ss_cur_item s = 0" "ss_cur_part s = 0"
    "ss_terminal s = STREAM_ACTIVE"
    using assms by (rule text_open_obtain)
  let ?s' = "set_cur_part (p\<lparr>cp_text := accumulate t d\<rparr>)
    (emit_event ''response.output_text.delta'' (ev_data (codex_stream_output_text_delta d 0 0 (ss_seq s))) False s)"
  have "responses_stream_emit_text_delta d s = (True, ?s')"
    using o by (simp add: responses_stream_emit_text_delta_def no_current_part_def Let_def)
  moreover have "text_open ?s' (accumulate t d)"
    using o by (simp add: text_open_def set_cur_part_def)
  moreover have "event_names ?s' = event_names s @ [''response.output_text.delta'']"
    by (simp add: event_names_def set_cur_part_def)
  ultimately show ?thesis by (rule that)
qed

text \<open>The pieces the loop cuts the content into.\<close>

function chunks_of :: "nat \<Rightarrow> 'a list \<Rightarrow> 'a list list" where
  "chunks_of n xs = (if xs = [] \<or> n = 0 then [] else take n xs # chunks_of n (drop n xs))"
  by pat_completeness auto
termination by (relation "measure (\<lambda>(n, xs). length xs)") auto

declare chunks_of.simps [simp del]

lemma chunks_of_simps [simp]:
  "chunks_of n [] = []"
  "0 < n \<Longrightarrow> xs \<noteq> [] \<Longrightarrow> chunks_of n xs = take n xs # chunks_of n (drop n xs)"
  by (simp_all add: chunks_of.simps)

lemma chunks_induct [consumes 1, case_names Nil step]:
  assumes n: "0 < (n::nat)" and "P []" and step: "\<And>xs. xs \<noteq> [] \<Longrightarrow> P (drop n xs) \<Longrightarrow> P xs"
  shows "P xs"
proof (induction xs rule: length_induct)
  case (1 xs)
  then show ?case using n step [of xs] \<open>P []\<close> by (cases "xs = []") auto
qed

lemma concat_chunks_of:
  assumes "0 < n"
  shows "concat (chunks_of n xs) = xs"
  using assms by (induction xs rule: chunks_induct) (simp_all add: assms)

lemma length_chunks_of:
  assumes n: "0 < n"
  shows "length (chunks_of n xs) = (length xs + n - 1) div n"
  using n
proof (induction xs rule: chunks_induct)
  case Nil
  then show ?case using n by simp
next
  case (step xs)
  obtain k where k: "length xs = Suc k" using step(1) by (cases xs) auto
  have "length (chunks_of n xs) = Suc ((Suc k - n + n - 1) div n)" using step k n by simp
  also have "\<dots> = Suc (k div n)"
    using n by (cases "Suc k \<le> n") simp_all
  also have "\<dots> = (k + n) div n" using n by simp
  finally show ?case using k by simp
qed

lemma in_chunk: "0 < n \<Longrightarrow> ch \<in> set (chunks_of n xs) \<Longrightarrow> set ch \<subseteq> set xs"
  using concat_chunks_of [of n xs] by (metis set_concat UN_upper)

lemma run_chunks_step:
  assumes "rest \<noteq> []" and "responses_stream_is_active s" and "c \<le> 4096"
    and "responses_stream_emit_text_delta (takeWhile (\<lambda>c. c \<noteq> CHR 0x00) (take c rest)) s = (True, s1)"
  shows "run_chunks c rest s = run_chunks c (drop c rest) s1"
proof -
  have "\<not> length (take c rest) > 4096" using assms(3) by simp
  with assms show ?thesis by (subst run_chunks.simps) (simp only: Let_def if_False if_True fst_conv snd_conv not_True_eq_False)
qed

lemma run_chunks_ok:
  assumes c: "0 < c" "c \<le> 4096" and nul: "CHR 0x00 \<notin> set rest"
    and s: "text_open s t" and len: "length t + length rest < PART_TEXT_SIZE"
  shows "\<exists>s'. run_chunks c rest s = Some (Ret (True, s')) \<and> text_open s' (t @ rest)
    \<and> event_names s' = event_names s @ replicate (length (chunks_of c rest)) ''response.output_text.delta''"
  using c(1) s len nul
proof (induction rest arbitrary: s t rule: chunks_induct)
  case Nil
  then show ?case by (subst run_chunks.simps) simp
next
  case (step rest)
  let ?ch = "take c rest"
  have "takeWhile (\<lambda>c. c \<noteq> CHR 0x00) ?ch = ?ch"
    using step.prems(3) by (auto simp: takeWhile_eq_all_conv dest: in_set_takeD)
  obtain s1 where d: "responses_stream_emit_text_delta ?ch s = (True, s1)"
    "text_open s1 (accumulate t ?ch)" "event_names s1 = event_names s @ [''response.output_text.delta'']"
    using text_delta_step [OF step.prems(1)] by blast
  have acc: "accumulate t ?ch = t @ ?ch" using step.prems(2) by (auto simp: accumulate_def)
  have "length (t @ ?ch) + length (drop c rest) < PART_TEXT_SIZE"
    using step.prems(2) by (simp add: min_def)
  moreover have "CHR 0x00 \<notin> set (drop c rest)"
    using step.prems(3) by (auto dest: in_set_dropD)
  ultimately obtain s' where r:
    "run_chunks c (drop c rest) s1 = Some (Ret (True, s'))" "text_open s' (t @ rest)"
    "event_names s' = event_names s1 @ replicate (length (chunks_of c (drop c rest))) ''response.output_text.delta''"
    using step.IH [OF d(2) [unfolded acc]] by auto
  have "responses_stream_is_active s"
    using step.prems(1) by (simp add: text_open_def responses_stream_is_active_def)
  then have "run_chunks c rest s = run_chunks c (drop c rest) s1"
    using run_chunks_step [OF step.hyps(1) _ c(2), of s s1] \<open>takeWhile _ _ = _\<close> d(1) by simp
  then show ?case using r d(3) step.hyps c by simp
qed

lemma fd_write_fst: "ss_script s = [] \<Longrightarrow> fst (fd_write d s)"
  by (simp add: fd_write_def)

lemma run_text_open_ok:
  assumes "fst (responses_stream_send_headers s)" and "ss_terminal s = STREAM_ACTIVE" and "ss_items s = []"
  shows "\<exists>s'. run_text_open now s = (True, s') \<and> text_open s' []
    \<and> event_names s' = event_names s @ [''response.created'', ''response.output_item.added'',
        ''response.content_part.added'']"
proof -
  obtain s1 where h: "responses_stream_send_headers s = (True, s1)"
    using assms(1) by (cases "responses_stream_send_headers s") auto
  then have "s1 = snd (responses_stream_send_headers s)" by simp
  then have s1: "ss_terminal s1 = STREAM_ACTIVE" "ss_items s1 = []" "ss_log s1 = ss_log s"
    using assms by simp_all
  show ?thesis
    using s1 by (simp add: run_text_open_def responses_stream_emit_created_def h Let_def
        responses_stream_start_item_def responses_stream_emit_output_item_added_def
        RESPONSES_MAX_OUTPUT_ITEMS_def responses_stream_start_part_def
        responses_stream_emit_content_part_added_def RESPONSES_MAX_CONTENT_PARTS_def
        cur_item_def text_open_def event_names_def set_cur_item_def)
qed

lemma run_text_close_ok:
  assumes "text_open s t"
  shows "\<exists>s'. run_text_close now s = (True, s') \<and> ss_terminal s' = STREAM_COMPLETED
    \<and> event_names s' = event_names s @ [''response.output_text.done'', ''response.content_part.done'',
        ''response.output_item.done'', ''response.completed'']
    \<and> map first_part_text (ss_items s') = [t]"
proof -
  obtain i p where "ss_items s = [i]" "oi_parts i = [p]" "cp_type p = CONTENT_TYPE_OUTPUT_TEXT"
    "cp_text p = t" "cur_item s = i" "cur_part s = p" "ss_cur_item s = 0" "ss_cur_part s = 0"
    "ss_terminal s = STREAM_ACTIVE"
    using assms by (rule text_open_obtain)
  then show ?thesis
    by (simp add: run_text_close_def responses_stream_is_active_def responses_stream_emit_text_done_def
        no_current_part_def responses_stream_emit_content_part_done_def Let_def
        responses_stream_emit_output_item_done_def responses_stream_emit_completed_def
        event_names_def first_part_text_def)
qed



lemma run_chunks_zero_raw:
  assumes "run_chunks c rest s = Some r"
  shows "c = 0 \<longrightarrow> rest \<noteq> [] \<longrightarrow> \<not> (\<exists>t. text_open s t)"
  using assms
proof (rule run_chunks.raw_induct [where P = "\<lambda>c rest s r. c = 0 \<longrightarrow> rest \<noteq> [] \<longrightarrow> \<not> (\<exists>t. text_open s t)", rotated])
  fix run c rest s r
  assume IH: "\<And>c rest s r. run c rest s = Some r \<Longrightarrow>
      c = 0 \<longrightarrow> rest \<noteq> [] \<longrightarrow> \<not> (\<exists>t. text_open s t)"
    and eq: "(if rest = [] then Some (Ret (True, s))
      else if \<not> responses_stream_is_active s then Some (Ret (False, s))
      else let chunk = take c rest
           in if length chunk > 4096 then Some Overrun
              else let r = responses_stream_emit_text_delta (takeWhile (\<lambda>c. c \<noteq> CHR 0x00) chunk) s
                   in if fst r then run c (drop c rest) (snd r) else Some (Ret (False, snd r))) = Some r"
  show "c = 0 \<longrightarrow> rest \<noteq> [] \<longrightarrow> \<not> (\<exists>t. text_open s t)"
  proof (intro impI notI)
    assume z: "c = 0" "rest \<noteq> []" "\<exists>t. text_open s t"
    then obtain t where t: "text_open s t" by blast
    then have act: "responses_stream_is_active s"
      by (simp add: text_open_def responses_stream_is_active_def)
    obtain s' where d: "responses_stream_emit_text_delta [] s = (True, s')" "text_open s' (accumulate t [])"
      using text_delta_step [OF t] by blast
    have "run 0 rest s' = Some r" using eq z act d by (simp add: Let_def)
    with IH d(2) z(2) show False by blast
  qed
qed

text \<open>With a chunk size of zero and something to send the call never returns: it
  keeps sending empty deltas.\<close>

theorem run_text_zero_chunk:
  assumes "fst (responses_stream_send_headers (responses_stream_init rid model gzip script))"
    and "content \<noteq> []"
  shows "responses_stream_run_text now now' content 0 (responses_stream_init rid model gzip script) = None"
proof -
  let ?s0 = "responses_stream_init rid model gzip script"
  have i: "ss_terminal ?s0 = STREAM_ACTIVE" "ss_items ?s0 = []"
    by (simp_all add: responses_stream_init_def)
  from run_text_open_ok [OF assms(1) i, of now] obtain s1 where
    o: "run_text_open now ?s0 = (True, s1)" "text_open s1 []" by blast
  have "run_chunks 0 content s1 = None"
    using run_chunks_zero_raw [of 0 content s1] assms(2) o(2)
    by (cases "run_chunks 0 content s1") blast+
  then show "responses_stream_run_text now now' content 0 ?s0 = None"
    by (simp add: responses_stream_run_text_def o(1))
qed

theorem run_text_zero_chunk_witness:
  "responses_stream_run_text 0 0 ''a'' 0 (responses_stream_init ''r'' ''m'' False []) = None"
  by (rule run_text_zero_chunk)
    (simp_all add: responses_stream_send_headers_def responses_stream_init_def fd_write_def)

lemma run_chunks_overrun:
  assumes "text_open s t" and "4096 < c" and "4096 < length rest"
  shows "run_chunks c rest s = Some Overrun"
proof -
  have "responses_stream_is_active s"
    using assms(1) by (simp add: text_open_def responses_stream_is_active_def)
  then show ?thesis using assms by (subst run_chunks.simps) (auto simp: Let_def)
qed

end
