(* ===== verification/Native_Response.thy ===== *)
theory Native_Response
  imports Json_Text
begin

text \<open>
  Typed events from the frames of the native agent (\<^verbatim>\<open>src/native_response.c\<close>).

  The event's data is a union; the constructor of \<open>event_data\<close> names the member that the
  event's type selects. Members overlap in memory, and the branch that turns a response into a
  tool intent relies on it: what it does not overwrite is what the response has left there
  (\<open>tool_name\<close> starts where \<open>status\<close> does, \<open>tool_args\<close> where the byte 64 of \<open>text\<close> is).

  Two local buffers are read although nothing may have been stored in them; their content is
  the parameter \<open>junk\<close>, an arbitrary string. \<open>frame\<close> is the whole block of bytes; as a C string
  it ends at the first NUL. The JSON parser and printer are parameters.
\<close>

section \<open>Events\<close>

datatype native_event_type =
    NATIVE_EVENT_UNKNOWN | NATIVE_EVENT_ACK | NATIVE_EVENT_RESPONSE | NATIVE_EVENT_TEXT_DELTA
  | NATIVE_EVENT_TOOL_INTENT | NATIVE_EVENT_ERROR | NATIVE_EVENT_COMPACTION | NATIVE_EVENT_HEALTH
  | NATIVE_EVENT_PING | NATIVE_EVENT_PONG | NATIVE_EVENT_READY | NATIVE_EVENT_SHUTDOWN
  | NATIVE_EVENT_CANCELLED | NATIVE_EVENT_SHUTDOWN_ACK

record response_event =
  re_id :: string
  re_status :: string
  re_text :: string
  re_prompt_tokens :: int
  re_completion_tokens :: int
  re_usage_json :: string

record tool_intent_event =
  ti_id :: string
  ti_name :: string
  ti_args :: string

record error_event =
  ee_id :: string
  ee_status :: string
  ee_message :: string

record compaction_event =
  ce_type :: string
  ce_message :: string

datatype event_data =
    Ev_Response response_event
  | Ev_Tool_Intent tool_intent_event
  | Ev_Error error_event
  | Ev_Compaction compaction_event
  | Ev_None

record native_event =
  ne_type :: native_event_type
  ne_type_str :: string
  ne_id :: string
  ne_data :: event_data

definition native_event_type_from_string :: "string \<Rightarrow> native_event_type" where
  "native_event_type_from_string s =
     (if s = ''ack'' then NATIVE_EVENT_ACK
      else if s = ''response'' then NATIVE_EVENT_RESPONSE
      else if s = ''text_delta'' then NATIVE_EVENT_TEXT_DELTA
      else if s = ''tool_intent'' then NATIVE_EVENT_TOOL_INTENT
      else if s = ''error'' then NATIVE_EVENT_ERROR
      else if s = ''health'' then NATIVE_EVENT_HEALTH
      else if s = ''ping'' then NATIVE_EVENT_PING
      else if s = ''pong'' then NATIVE_EVENT_PONG
      else if s = ''ready'' then NATIVE_EVENT_READY
      else if s = ''shutdown'' then NATIVE_EVENT_SHUTDOWN
      else if s = ''cancelled'' then NATIVE_EVENT_CANCELLED
      else if s = ''shutdown_ack'' then NATIVE_EVENT_SHUTDOWN_ACK
      else if s = ''compaction.started'' then NATIVE_EVENT_COMPACTION
      else if s = ''compaction.summary'' then NATIVE_EVENT_COMPACTION
      else if s = ''compaction.completed'' then NATIVE_EVENT_COMPACTION
      else NATIVE_EVENT_UNKNOWN)"

definition native_event_is_lifecycle :: "native_event \<Rightarrow> bool" where
  "native_event_is_lifecycle ev =
     (ne_type ev \<in> {NATIVE_EVENT_HEALTH, NATIVE_EVENT_PING, NATIVE_EVENT_PONG, NATIVE_EVENT_READY,
                     NATIVE_EVENT_SHUTDOWN, NATIVE_EVENT_SHUTDOWN_ACK})"

section \<open>Fields\<close>

definition or_else :: "string \<Rightarrow> string \<Rightarrow> string" where
  "or_else s t = (if s = [] then t else s)"

definition get_field_string :: "jptr \<Rightarrow> string \<Rightarrow> nat \<Rightarrow> string \<Rightarrow> string" where
  "get_field_string obj field max_len dest = get_into obj field max_len dest"

text \<open>
  Name and arguments of a tool. \<open>buf\<close> starts as \<open>junk\<close> and keeps what the first lookup left
  in it when the second finds nothing.
\<close>

definition extract_tool_from_obj ::
    "string \<Rightarrow> jptr \<Rightarrow> nat \<Rightarrow> nat \<Rightarrow> string \<times> string" where
  "extract_tool_from_obj junk obj name_max args_max =
     (case json_get_object obj ''tool'' of
        None \<Rightarrow> ([], [])
      | Some tool \<Rightarrow>
          let name = get_field_string (Some tool) ''name'' name_max [];
              buf = get_field_string (Some tool) ''args'' 4096 junk
          in if buf \<noteq> [] then (name, cstr_copy args_max buf)
             else let buf2 = get_field_string (Some tool) ''input'' 4096 buf
                  in if buf2 \<noteq> [] then (name, cstr_copy args_max buf2) else (name, []))"

section \<open>Usage\<close>

text \<open>The search for the end of the object, which begins at depth one, before the brace.\<close>

fun usage_cut :: "nat \<Rightarrow> string \<Rightarrow> string" where
  "usage_cut depth [] = []"
| "usage_cut depth (c # s) =
     (let d = (if c = CHR ''{'' then depth + 1 else if c = CHR ''}'' then depth - 1 else depth)
      in if d = 0 then [c] else c # usage_cut d s)"

definition usage_key :: string where
  \<open>usage_key = ''"usage":''\<close>

definition extract_usage :: "string \<Rightarrow> bytes \<Rightarrow> jptr \<Rightarrow> string" where
  "extract_usage junk frame obj =
     (case json_get_object obj ''usage'' of
        None \<Rightarrow> []
      | Some u \<Rightarrow>
          let ubuf = get_into obj ''usage'' 4096 junk
          in if ubuf \<noteq> [] then cstr_copy 4096 ubuf
             else case strstr (c_str frame) usage_key of
                    None \<Rightarrow> []
                  | Some p \<Rightarrow>
                      let off = length (c_str frame) - length p + 8
                      in usage_cut 1 (c_str (take 4095 (drop off frame))))"

section \<open>The parser\<close>

definition parse_response_text :: "jptr \<Rightarrow> string \<Rightarrow> string" where
  "parse_response_text obj alt = or_else (get_into obj ''text'' 4096 []) (get_into obj alt 4096 [])"

text \<open>A response that carries a tool intent, over what the response fields have left behind.\<close>

definition intent_of_response :: "(json \<Rightarrow> string) \<Rightarrow> jptr \<Rightarrow> json \<Rightarrow> tool_intent_event" where
  "intent_of_response print obj ti =
     (let rid = get_into obj ''id'' 64 [];
          status = get_into obj ''status'' 64 [];
          text = parse_response_text obj ''output''
      in \<lparr>ti_id = get_into obj ''id'' 64 rid,
          ti_name = get_into (Some ti) ''name'' 128 status,
          ti_args = (case cJSON_GetObjectItem ti ''arguments'' of
                       None \<Rightarrow> drop 64 text
                     | Some (JStr s) \<Rightarrow> cstr_copy 4096 s
                     | Some j \<Rightarrow> cstr_copy 4096 (print j))\<rparr>)"

definition parse_event_data ::
    "(json \<Rightarrow> string) \<Rightarrow> string \<Rightarrow> bytes \<Rightarrow> jptr \<Rightarrow> native_event_type \<Rightarrow> string \<Rightarrow> native_event_type \<times> event_data" where
  "parse_event_data print junk frame obj ty type_str =
     (case ty of
        NATIVE_EVENT_RESPONSE \<Rightarrow>
          (case Option.bind obj (\<lambda>j. cJSON_GetObjectItem j ''tool_intent'') of
             Some ti \<Rightarrow> (NATIVE_EVENT_TOOL_INTENT, Ev_Tool_Intent (intent_of_response print obj ti))
           | None \<Rightarrow>
               (ty, Ev_Response
                  \<lparr>re_id = get_into obj ''id'' 64 [], re_status = get_into obj ''status'' 64 [],
                   re_text = parse_response_text obj ''output'',
                   re_prompt_tokens = json_get_int obj ''prompt_tokens'',
                   re_completion_tokens = json_get_int obj ''completion_tokens'',
                   re_usage_json = extract_usage junk frame obj\<rparr>))
      | NATIVE_EVENT_TEXT_DELTA \<Rightarrow>
          (ty, Ev_Response
             \<lparr>re_id = get_into obj ''id'' 64 [], re_status = [],
              re_text = parse_response_text obj ''delta'',
              re_prompt_tokens = 0, re_completion_tokens = 0, re_usage_json = []\<rparr>)
      | NATIVE_EVENT_TOOL_INTENT \<Rightarrow>
          (case extract_tool_from_obj junk obj 128 4096 of
             (name, args) \<Rightarrow>
               (ty, Ev_Tool_Intent \<lparr>ti_id = get_into obj ''id'' 64 [], ti_name = name, ti_args = args\<rparr>))
      | NATIVE_EVENT_ERROR \<Rightarrow>
          (ty, Ev_Error
             \<lparr>ee_id = get_into obj ''id'' 64 [], ee_status = get_into obj ''status'' 64 [],
              ee_message = get_into obj ''message'' 512 []\<rparr>)
      | NATIVE_EVENT_COMPACTION \<Rightarrow>
          (ty, Ev_Compaction
             \<lparr>ce_type = cstr_copy 64 type_str,
              ce_message = or_else (or_else (get_into obj ''message'' 512 []) (get_into obj ''text'' 512 []))
                             (get_into obj ''summary'' 512 [])\<rparr>)
      | NATIVE_EVENT_ACK \<Rightarrow>
          (ty, Ev_Response
             \<lparr>re_id = [], re_status = get_into obj ''status'' 64 [], re_text = [],
              re_prompt_tokens = 0, re_completion_tokens = 0, re_usage_json = []\<rparr>)
      | _ \<Rightarrow> (ty, Ev_None))"

definition native_parse_frame ::
    "(string \<Rightarrow> json option) \<Rightarrow> (json \<Rightarrow> string) \<Rightarrow> string \<Rightarrow> bytes \<Rightarrow> native_event option" where
  "native_parse_frame parse print junk frame =
     (case parse (c_str frame) of
        None \<Rightarrow> None
      | Some j \<Rightarrow>
          let type_str = get_into (Some j) ''type'' 64 []
          in if type_str = [] then None
             else case parse_event_data print junk frame (Some j)
                         (native_event_type_from_string type_str) type_str of
                    (ty, data) \<Rightarrow>
                      Some \<lparr>ne_type = ty, ne_type_str = cstr_copy 64 type_str,
                            ne_id = get_into (Some j) ''id'' 64 [], ne_data = data\<rparr>)"

section \<open>Every field fits its buffer\<close>

fun data_ok :: "event_data \<Rightarrow> bool" where
  "data_ok (Ev_Response r) =
     (length (re_id r) < 64 \<and> length (re_status r) < 64 \<and> length (re_text r) < 4096
      \<and> length (re_usage_json r) < 4096)"
| "data_ok (Ev_Tool_Intent t) =
     (length (ti_id t) < 64 \<and> length (ti_name t) < 128 \<and> length (ti_args t) < 4096)"
| "data_ok (Ev_Error e) =
     (length (ee_id e) < 64 \<and> length (ee_status e) < 64 \<and> length (ee_message e) < 512)"
| "data_ok (Ev_Compaction c) = (length (ce_type c) < 64 \<and> length (ce_message c) < 512)"
| "data_ok Ev_None = True"

lemma get_into_less: "0 < n \<Longrightarrow> length (get_into obj f n []) < n"
  by (rule get_into_bound) simp

lemma or_else_less: "length s < n \<Longrightarrow> length t < n \<Longrightarrow> length (or_else s t) < n"
  by (simp add: or_else_def)

lemma response_text_less: "length (parse_response_text obj alt) < 4096"
  by (simp add: parse_response_text_def or_else_less get_into_less)

lemma usage_cut_le: "length (usage_cut d s) \<le> length s"
  by (induction d s rule: usage_cut.induct) (simp_all add: Let_def)

lemma extract_usage_less: "length (extract_usage junk frame obj) < 4096"
proof -
  have "length (usage_cut 1 (c_str (take 4095 bs))) < 4096" for bs
    using usage_cut_le [of 1 "c_str (take 4095 bs)"] length_takeWhile_le [of "\<lambda>c. c \<noteq> CHR 0x00" "take 4095 bs"]
    by (simp add: c_str_def)
  then show ?thesis
    by (auto simp: extract_usage_def Let_def length_cstr_copy split: option.splits)
qed

lemma extract_tool_less:
  "extract_tool_from_obj junk obj 128 4096 = (name, args) \<Longrightarrow> length name < 128 \<and> length args < 4096"
  by (auto simp: extract_tool_from_obj_def Let_def get_field_string_def length_cstr_copy get_into_less
      split: option.splits if_splits)

lemma intent_of_response_ok: "data_ok (Ev_Tool_Intent (intent_of_response print obj ti))"
proof -
  have "length (get_into (Some ti) ''name'' 128 (get_into obj ''status'' 64 [])) < 128"
    using get_into_less [of 64 obj "''status''"] by (intro get_into_bound) simp
  moreover have "length (get_into obj ''id'' 64 (get_into obj ''id'' 64 [])) < 64"
    by (intro get_into_bound) simp
  ultimately show ?thesis
    using response_text_less [of obj "''output''"]
    by (auto simp: intent_of_response_def Let_def length_cstr_copy split: option.splits json.splits)
qed

lemma parse_event_data_ok: "data_ok (snd (parse_event_data print junk frame obj ty type_str))"
  using intent_of_response_ok [of print obj]
  by (cases ty)
    (auto simp: parse_event_data_def get_into_less response_text_less extract_usage_less
      length_cstr_copy or_else_less dest: extract_tool_less split: option.splits prod.splits)

text \<open>Whatever frame arrives and whatever the uninitialised buffers hold, every field
  of the event fits its buffer, and the event's type is the one its name stands for, except that
  a response with a member tool_intent becomes a tool intent.\<close>

theorem parsed_event_fits:
  "case native_parse_frame parse print junk frame of
     None \<Rightarrow> True
   | Some ev \<Rightarrow>
       data_ok (ne_data ev) \<and> length (ne_id ev) < 64 \<and> length (ne_type_str ev) < 64
       \<and> (ne_type ev = native_event_type_from_string (ne_type_str ev)
          \<or> ne_type_str ev = ''response'' \<and> ne_type ev = NATIVE_EVENT_TOOL_INTENT)"
proof (cases "native_parse_frame parse print junk frame")
  case None
  then show ?thesis by simp
next
  case (Some ev)
  then obtain j where j: "parse (c_str frame) = Some j" "get_into (Some j) ''type'' 64 [] \<noteq> []"
    by (auto simp: native_parse_frame_def Let_def split: option.splits if_splits)
  define ts where "ts = get_into (Some j) ''type'' 64 []"
  obtain ty d where p: "parse_event_data print junk frame (Some j) (native_event_type_from_string ts) ts = (ty, d)"
    by force
  have ts: "length ts < 64" by (simp add: ts_def get_into_less)
  have ev: "ev = \<lparr>ne_type = ty, ne_type_str = ts, ne_id = get_into (Some j) ''id'' 64 [], ne_data = d\<rparr>"
    using Some j p ts by (simp add: native_parse_frame_def ts_def [symmetric] cstr_copy_fits)
  have "data_ok d"
    using parse_event_data_ok [of print junk frame "Some j" "native_event_type_from_string ts" ts] p by simp
  moreover have "ty = native_event_type_from_string ts \<or> ts = ''response'' \<and> ty = NATIVE_EVENT_TOOL_INTENT"
  proof (cases "native_event_type_from_string ts = NATIVE_EVENT_RESPONSE")
    case True
    then have "ts = ''response''" by (auto simp: native_event_type_from_string_def split: if_splits)
    then show ?thesis using p True by (auto simp: parse_event_data_def split: option.splits)
  next
    case False
    then show ?thesis using p
      by (auto simp: parse_event_data_def split: native_event_type.splits prod.splits)
  qed
  ultimately show ?thesis using Some ev ts by (simp add: get_into_less)
qed

section \<open>The end of the usage object\<close>

definition brace_free :: "string \<Rightarrow> bool" where
  "brace_free s = (CHR ''{'' \<notin> set s \<and> CHR ''}'' \<notin> set s)"

lemma usage_cut_brace_free: "brace_free a \<Longrightarrow> 0 < d \<Longrightarrow> usage_cut d (a @ s) = a @ usage_cut d s"
  by (induction a) (auto simp: brace_free_def)

text \<open>The usage text of a response does not end with the usage object. The search for
  its closing brace starts one level too deep, so it takes in whatever follows the object, up to
  and including the closing brace of the frame.\<close>

theorem usage_runs_on:
  assumes "brace_free a" and "brace_free b"
  shows "usage_cut 1 (''{'' @ a @ ''}'' @ b @ ''}'' @ rest) = ''{'' @ a @ ''}'' @ b @ ''}''"
  using usage_cut_brace_free [OF assms(1), of "Suc (Suc 0)"] usage_cut_brace_free [OF assms(2), of 1] by simp

theorem usage_runs_on_witness:
  "usage_cut 1 (''{'' @ ''n: 1'' @ ''}'' @ '', id: r'' @ ''}'' @ []) = ''{'' @ ''n: 1'' @ ''}'' @ '', id: r'' @ ''}''"
  by (rule usage_runs_on) (simp_all add: brace_free_def)

text \<open>A response whose tool intent has no arguments takes its arguments from the text of the
  response, from byte 64 on, because the members of the event union overlap.\<close>

lemma intent_inherits_text:
  "cJSON_GetObjectItem ti ''arguments'' = None \<Longrightarrow>
   ti_args (intent_of_response print obj ti) = drop 64 (parse_response_text obj ''output'')"
  by (simp add: intent_of_response_def Let_def)

end
