(* ===== verification/Native_Connection.thy ===== *)
theory Native_Connection
  imports Frame_Protocol
begin

text \<open>
  The connection to the native agent (\<^verbatim>\<open>src/native_connection.c\<close>) and the Unix socket
  transport below it (\<^verbatim>\<open>src/uds_transport.c\<close>).

  What the system answers to one connection attempt is a record \<open>uds_env\<close>: the descriptor of
  \<open>socket\<close>, the outcomes of the first \<open>connect\<close> and of the second, made after the socket file
  has appeared, whether the file is there after so many milliseconds, the outcome of \<open>poll\<close> and
  the pending socket error. Calls that have an effect outside are logged as \<open>sys_act\<close>.
\<close>

section \<open>Connecting a Unix socket\<close>

datatype conn_res = C_Ok | C_InProgress | C_Refused | C_Noent | C_Fail
datatype poll_res = P_Ready | P_Timeout | P_Fail
datatype so_res = SO_Ok | SO_Refused | SO_Timedout | SO_Other | SO_Unreadable

record uds_env =
  ue_socket :: int
  ue_flags_ok :: bool
  ue_connect1 :: conn_res
  ue_stat :: "nat \<Rightarrow> bool"
  ue_connect2 :: conn_res
  ue_poll :: poll_res
  ue_so :: so_res

datatype sys_act =
  A_Close int | A_Nonblock int | A_Blocking int | A_Sleep int | A_Unlink string | A_Shutdown int
  | A_Kill int | A_Wait int

record uds_result =
  ur_fd :: int
  ur_error :: "string option"

type_synonym uds_out = "uds_result \<times> sys_act list"

definition uds_fail :: "string \<Rightarrow> uds_result" where
  "uds_fail e = \<lparr>ur_fd = -1, ur_error = Some e\<rparr>"

text \<open>The two ways out once there is a socket: hand it over, or close it.\<close>

definition uds_give :: "uds_env \<Rightarrow> uds_out" where
  "uds_give e = (\<lparr>ur_fd = ue_socket e, ur_error = None\<rparr>,
     if ue_flags_ok e then [A_Blocking (ue_socket e)] else [])"

definition uds_drop :: "uds_env \<Rightarrow> string \<Rightarrow> uds_out" where
  "uds_drop e msg = (uds_fail msg, [A_Close (ue_socket e)])"

definition refused_or :: "bool \<Rightarrow> string" where
  "refused_or refused =
     (if refused then ''native_socket_connection_refused'' else ''native_socket_connect_failed'')"

definition poll_error :: "poll_res \<Rightarrow> string" where
  "poll_error p = (if p = P_Timeout then ''native_socket_connect_timeout'' else ''native_socket_poll_failed'')"

text \<open>Waiting for the socket file: the milliseconds waited when it was found.\<close>

function uds_wait_file :: "(nat \<Rightarrow> bool) \<Rightarrow> nat \<Rightarrow> nat \<Rightarrow> nat option" where
  "uds_wait_file stat timeout waited =
     (if waited < timeout then
        (if stat waited then Some waited else uds_wait_file stat timeout (waited + 10))
      else None)"
  by pat_completeness auto
termination by (relation "measure (\<lambda>(_, timeout, waited). timeout - waited)") auto

declare uds_wait_file.simps [simp del]

definition uds_sleeps :: "nat \<Rightarrow> sys_act list" where
  "uds_sleeps waited = replicate (waited div 10) (A_Sleep 10)"

definition uds_after_noent :: "uds_env \<Rightarrow> nat \<Rightarrow> uds_out" where
  "uds_after_noent e timeout =
     (case uds_wait_file (ue_stat e) timeout 0 of
        None \<Rightarrow>
          (uds_fail ''native_socket_connect_timeout'',
           uds_sleeps (timeout + 9) @ [A_Close (ue_socket e)])
      | Some waited \<Rightarrow>
          let out =
            (case ue_connect2 e of
               C_Ok \<Rightarrow> uds_give e
             | C_InProgress \<Rightarrow>
                 if ue_poll e \<noteq> P_Ready then uds_drop e (poll_error (ue_poll e))
                 else if ue_so e = SO_Ok then uds_give e
                 else uds_drop e ''native_socket_connect_failed''
             | r \<Rightarrow> uds_drop e (refused_or (r = C_Refused)))
          in (fst out, uds_sleeps waited @ snd out))"

definition uds_in_progress :: "uds_env \<Rightarrow> uds_out" where
  "uds_in_progress e =
     (if ue_poll e \<noteq> P_Ready then uds_drop e (poll_error (ue_poll e))
      else if ue_so e = SO_Ok then uds_give e
      else uds_drop e (if ue_so e = SO_Refused then ''native_socket_connection_refused''
                       else if ue_so e = SO_Timedout then ''native_socket_connect_timeout''
                       else ''native_socket_connect_failed''))"

definition uds_connect :: "uds_env \<Rightarrow> string \<Rightarrow> int \<Rightarrow> uds_out" where
  "uds_connect e path timeout_ms =
     (if path = [] then (uds_fail ''native_socket_path_empty'', [])
      else if ue_socket e < 0 then (uds_fail ''native_socket_create_failed'', [])
      else if length path \<ge> 108 then uds_drop e ''native_socket_path_too_long''
      else if timeout_ms \<le> 0 then
        (if ue_connect1 e = C_Ok then (\<lparr>ur_fd = ue_socket e, ur_error = None\<rparr>, [])
         else uds_drop e (refused_or (ue_connect1 e = C_Refused)))
      else
        let pre = (if ue_flags_ok e then [A_Nonblock (ue_socket e)] else []);
            out = (case ue_connect1 e of
                     C_Ok \<Rightarrow> uds_give e
                   | C_Refused \<Rightarrow> uds_drop e ''native_socket_connection_refused''
                   | C_Noent \<Rightarrow> uds_after_noent e (nat timeout_ms)
                   | C_Fail \<Rightarrow> uds_drop e ''native_socket_connect_failed''
                   | C_InProgress \<Rightarrow> uds_in_progress e)
        in (fst out, pre @ snd out))"

definition uds_cleanup_stale :: "string \<Rightarrow> string \<Rightarrow> bool \<times> sys_act list" where
  "uds_cleanup_stale owner_mode path =
     (if path = [] then (False, [])
      else if owner_mode \<noteq> ''launch_and_connect'' then (False, [])
      else (True, [A_Unlink path]))"

definition uds_frame_read :: "(nat \<Rightarrow> bool) \<Rightarrow> int \<Rightarrow> io list \<Rightarrow> frame_result \<times> io list" where
  "uds_frame_read malloc_ok deadline_ms es = frame_read malloc_ok deadline_ms es"

definition uds_frame_write :: "wr list \<Rightarrow> bytes \<Rightarrow> bool \<times> bytes \<times> wr list" where
  "uds_frame_write ws data = frame_write ws data"

definition uds_frame_write_typed ::
    "(nat \<Rightarrow> bool) \<Rightarrow> wr list \<Rightarrow> string \<Rightarrow> bytes \<Rightarrow> (bool \<times> bytes \<times> wr list) option" where
  "uds_frame_write_typed malloc_ok ws ty body = frame_write_typed malloc_ok ws ty body"

text \<open>\<open>uds_read_partial\<close>: one read, restarted after a signal. \<open>None\<close> is the result \<open>-1\<close>; an
  empty list is end of file or no data yet (\<open>Poll_Expired\<close> stands for \<open>EAGAIN\<close>).\<close>

fun uds_read_partial :: "nat \<Rightarrow> io list \<Rightarrow> bytes option \<times> io list" where
  "uds_read_partial count [] = (Some [], [])"
| "uds_read_partial count (e # es) =
     (case e of
        Read_Data bs \<Rightarrow>
          (Some (take count bs), if length bs \<le> count then es else Read_Data (drop count bs) # es)
      | Read_Intr \<Rightarrow> uds_read_partial count es
      | Poll_Expired \<Rightarrow> (Some [], es)
      | Read_Eof \<Rightarrow> (Some [], e # es)
      | _ \<Rightarrow> (None, es))"

text \<open>\<open>uds_write_partial\<close>: the result (\<open>None\<close> is \<open>-1\<close>), and what reached the descriptor.\<close>

fun uds_write_partial :: "wr list \<Rightarrow> bytes \<Rightarrow> nat option \<times> bytes" where
  "uds_write_partial [] data = (Some (length data), data)"
| "uds_write_partial (w # ws) data =
     (if data = [] then (Some 0, [])
      else case w of
        Wrote n \<Rightarrow>
          (if n = 0 then (Some 0, [])
           else case uds_write_partial ws (drop n data) of
                  (r, out) \<Rightarrow> (map_option (\<lambda>k. length (take n data) + k) r, take n data @ out))
      | Write_Intr \<Rightarrow> uds_write_partial ws data
      | Write_Err \<Rightarrow> (None, []))"

section \<open>The connection\<close>

datatype transport_type = TRANSPORT_NONE | TRANSPORT_STDIO_FRAMED | TRANSPORT_UDS

datatype connection_state =
    CONN_DISCONNECTED | CONN_CONNECTING | CONN_CONNECTED | CONN_HANDSHAKING | CONN_READY
  | CONN_UNHEALTHY | CONN_CLOSED

record native_connection =
  nc_transport :: transport_type
  nc_read_fd :: int
  nc_write_fd :: int
  nc_socket_fd :: int
  nc_child_pid :: int
  nc_state :: connection_state
  nc_protocol_version :: int
  nc_reconnect_attempts :: int
  nc_reconnect_max :: int
  nc_reconnect_delay_ms :: int
  nc_acts :: "sys_act list"

definition nc_init :: native_connection where
  "nc_init = \<lparr>nc_transport = TRANSPORT_NONE, nc_read_fd = -1, nc_write_fd = -1, nc_socket_fd = -1,
     nc_child_pid = 0, nc_state = CONN_DISCONNECTED, nc_protocol_version = 0,
     nc_reconnect_attempts = 0, nc_reconnect_max = 3, nc_reconnect_delay_ms = 1000, nc_acts = []\<rparr>"

definition nc_set_stdio :: "int \<Rightarrow> int \<Rightarrow> int \<Rightarrow> native_connection \<Rightarrow> native_connection" where
  "nc_set_stdio stdin_fd stdout_fd pid nc =
     nc\<lparr>nc_transport := TRANSPORT_STDIO_FRAMED, nc_write_fd := stdin_fd, nc_read_fd := stdout_fd,
        nc_socket_fd := -1, nc_child_pid := pid, nc_state := CONN_CONNECTED\<rparr>"

definition nc_set_uds :: "int \<Rightarrow> int \<Rightarrow> native_connection \<Rightarrow> native_connection" where
  "nc_set_uds sock pid nc =
     nc\<lparr>nc_transport := TRANSPORT_UDS, nc_read_fd := sock, nc_write_fd := sock,
        nc_socket_fd := sock, nc_child_pid := pid, nc_state := CONN_CONNECTED\<rparr>"

definition nc_log :: "sys_act list \<Rightarrow> native_connection \<Rightarrow> native_connection" where
  "nc_log acts nc = nc\<lparr>nc_acts := nc_acts nc @ acts\<rparr>"

definition nc_shutdown_write :: "native_connection \<Rightarrow> native_connection" where
  "nc_shutdown_write nc = (if nc_write_fd nc \<ge> 0 then nc_log [A_Shutdown (nc_write_fd nc)] nc else nc)"

definition nc_close_acts :: "native_connection \<Rightarrow> sys_act list" where
  "nc_close_acts nc =
     (if nc_read_fd nc \<ge> 0 \<and> nc_read_fd nc \<noteq> nc_write_fd nc then [A_Close (nc_read_fd nc)] else [])
     @ (if nc_write_fd nc \<ge> 0 then [A_Close (nc_write_fd nc)] else [])
     @ (if nc_socket_fd nc \<ge> 0 \<and> nc_socket_fd nc \<noteq> nc_read_fd nc \<and> nc_socket_fd nc \<noteq> nc_write_fd nc
        then [A_Close (nc_socket_fd nc)] else [])"

definition nc_close :: "native_connection \<Rightarrow> native_connection" where
  "nc_close nc =
     (nc_log (nc_close_acts nc) nc)\<lparr>nc_read_fd := -1, nc_write_fd := -1, nc_socket_fd := -1,
        nc_state := CONN_DISCONNECTED\<rparr>"

definition nc_set_state :: "connection_state \<Rightarrow> native_connection \<Rightarrow> native_connection" where
  "nc_set_state st nc = nc\<lparr>nc_state := st\<rparr>"

definition nc_read_frame_timeout ::
    "(nat \<Rightarrow> bool) \<Rightarrow> native_connection \<Rightarrow> int \<Rightarrow> io list \<Rightarrow> frame_result \<times> io list" where
  "nc_read_frame_timeout malloc_ok nc timeout_ms es =
     (if nc_read_fd nc < 0 then (Frame_Error ''no_connection'', es)
      else case nc_transport nc of
        TRANSPORT_UDS \<Rightarrow> uds_frame_read malloc_ok timeout_ms es
      | TRANSPORT_STDIO_FRAMED \<Rightarrow> frame_read malloc_ok timeout_ms es
      | TRANSPORT_NONE \<Rightarrow> (Frame_Error ''unknown_transport'', es))"

definition nc_read_frame ::
    "(nat \<Rightarrow> bool) \<Rightarrow> native_connection \<Rightarrow> io list \<Rightarrow> frame_result \<times> io list" where
  "nc_read_frame malloc_ok nc es = nc_read_frame_timeout malloc_ok nc (- 1) es"

definition nc_write_frame :: "native_connection \<Rightarrow> wr list \<Rightarrow> bytes \<Rightarrow> bool \<times> bytes \<times> wr list" where
  "nc_write_frame nc ws data =
     (if nc_write_fd nc < 0 \<or> data = [] then (False, [], ws)
      else case nc_transport nc of
        TRANSPORT_UDS \<Rightarrow> uds_frame_write ws data
      | TRANSPORT_STDIO_FRAMED \<Rightarrow> frame_write ws data
      | TRANSPORT_NONE \<Rightarrow> (False, [], ws))"

text \<open>
  The retry loop: \<open>left\<close> attempts remain, \<open>env\<close> gives the system's answers to the attempt with
  the given number. \<open>delay\<close> is an integer here; the source doubles an \<open>int\<close>, which overflows
  from the 22nd retry on with the default delay of one second.
\<close>

primrec reconnect_loop ::
    "nat \<Rightarrow> (nat \<Rightarrow> uds_env) \<Rightarrow> string \<Rightarrow> int \<Rightarrow> int \<Rightarrow> native_connection \<Rightarrow> bool \<times> native_connection" where
  "reconnect_loop 0 env path timeout delay nc = (False, nc_set_state CONN_UNHEALTHY nc)"
| "reconnect_loop (Suc left) env path timeout delay nc =
     (case uds_connect (env (nat (nc_reconnect_attempts nc))) path timeout of
        (r, acts) \<Rightarrow>
          let nc1 = nc_log acts nc
          in if ur_fd r \<ge> 0 then
               (True, nc1\<lparr>nc_read_fd := ur_fd r, nc_write_fd := ur_fd r, nc_socket_fd := ur_fd r,
                          nc_state := CONN_CONNECTED, nc_reconnect_attempts := 0\<rparr>)
             else
               let nc2 = nc1\<lparr>nc_reconnect_attempts := nc_reconnect_attempts nc1 + 1\<rparr>
               in if nc_reconnect_attempts nc2 < nc_reconnect_max nc2
                  then reconnect_loop left env path timeout (delay * 2)
                         (nc_log [A_Sleep (min delay 30000)] nc2)
                  else reconnect_loop left env path timeout delay nc2)"

definition nc_reconnect ::
    "(nat \<Rightarrow> uds_env) \<Rightarrow> string \<Rightarrow> int \<Rightarrow> native_connection \<Rightarrow> bool \<times> native_connection" where
  "nc_reconnect env path timeout nc =
     (if nc_transport nc \<noteq> TRANSPORT_UDS then (False, nc)
      else if nc_reconnect_max nc \<le> 0 then (False, nc)
      else if path = [] then (False, nc)
      else
        let nc1 = (if nc_state nc \<noteq> CONN_DISCONNECTED then nc_close nc else nc);
            nc2 = (nc_set_state CONN_CONNECTING nc1)\<lparr>nc_reconnect_attempts := 0\<rparr>
        in reconnect_loop (nat (nc_reconnect_max nc2)) env path timeout (nc_reconnect_delay_ms nc2) nc2)"

section \<open>No descriptor is lost\<close>

definition closes :: "sys_act list \<Rightarrow> int list" where
  "closes acts = concat (map (\<lambda>a. case a of A_Close fd \<Rightarrow> [fd] | _ \<Rightarrow> []) acts)"

lemma closes_simps [simp]:
  "closes [] = []" "closes (A_Close fd # as) = fd # closes as" "closes (A_Nonblock fd # as) = closes as"
  "closes (A_Blocking fd # as) = closes as" "closes (A_Sleep n # as) = closes as"
  "closes (as @ bs) = closes as @ closes bs"
  by (simp_all add: closes_def)

lemma closes_sleeps [simp]: "closes (uds_sleeps n) = []"
  by (simp add: closes_def uds_sleeps_def)

text \<open>A mode change of the socket, the last one deciding; a socket starts blocking.\<close>

definition left_blocking :: "sys_act list \<Rightarrow> bool" where
  "left_blocking acts =
     (case filter (\<lambda>a. case a of A_Nonblock _ \<Rightarrow> True | A_Blocking _ \<Rightarrow> True | _ \<Rightarrow> False) acts of
        [] \<Rightarrow> True | as \<Rightarrow> (case last as of A_Blocking _ \<Rightarrow> True | _ \<Rightarrow> False))"

text \<open>What every way out of a connection attempt looks like.\<close>

definition settled :: "uds_env \<Rightarrow> uds_out \<Rightarrow> bool" where
  "settled e out \<longleftrightarrow>
     (\<exists>n. snd out = uds_sleeps n @ snd (uds_give e)) \<and> fst out = fst (uds_give e)
     \<or> (\<exists>n msg. out = (uds_fail msg, uds_sleeps n @ [A_Close (ue_socket e)]))"

lemma uds_sleeps_0 [simp]: "uds_sleeps 0 = []"
  by (simp add: uds_sleeps_def)

lemma settled_give: "settled e (uds_give e)"
  unfolding settled_def by (intro disjI1 conjI exI [of _ 0]) simp_all

lemma settled_drop: "settled e (uds_drop e msg)"
  unfolding settled_def by (intro disjI2 exI [of _ 0] exI [of _ msg]) (simp add: uds_drop_def)

lemma settled_after_noent: "settled e (uds_after_noent e t)"
proof (cases "uds_wait_file (ue_stat e) t 0")
  case None
  then show ?thesis unfolding settled_def
    by (intro disjI2 exI [of _ "t + 9"] exI [of _ "''native_socket_connect_timeout''"])
      (simp add: uds_after_noent_def)
next
  case (Some w)
  have later: "settled e (fst out, uds_sleeps w @ snd out)"
    if "out = uds_give e \<or> (\<exists>msg. out = uds_drop e msg)" for out
    using that unfolding settled_def uds_drop_def by (elim disjE exE) auto
  show ?thesis unfolding uds_after_noent_def Some option.case Let_def
    by (rule later) (auto split: conn_res.splits)
qed

lemma uds_in_progress_settled: "settled e (uds_in_progress e)"
  by (simp add: uds_in_progress_def settled_give settled_drop)

lemma settled_outcome:
  assumes "settled e out" and "0 \<le> ue_socket e"
  shows "if 0 \<le> ur_fd (fst out)
      then ur_fd (fst out) = ue_socket e \<and> ur_error (fst out) = None \<and> closes (snd out) = []
      else ur_error (fst out) \<noteq> None \<and> closes (snd out) = [ue_socket e]"
  using assms by (cases out) (auto simp: settled_def uds_fail_def uds_give_def)

lemma uds_connect_settled:
  assumes "path \<noteq> []" and "0 \<le> ue_socket e" and "length path < 108" and "0 < timeout"
  shows "\<exists>out. settled e out \<and> uds_connect e path timeout
      = (fst out, (if ue_flags_ok e then [A_Nonblock (ue_socket e)] else []) @ snd out)"
  using assms settled_give [of e] settled_drop [of e] settled_after_noent [of e "nat timeout"]
    uds_in_progress_settled [of e]
  by (cases "ue_connect1 e") (auto simp: uds_connect_def Let_def)

text \<open>Property C26: a connection attempt either hands over the socket, open and back in blocking
  mode, with no error, or reports an error and has closed the socket exactly once; without a
  socket nothing is closed.\<close>

theorem uds_connect_no_leak:
  assumes "0 \<le> ue_socket e" and "path \<noteq> []"
  shows "case uds_connect e path timeout of (r, acts) \<Rightarrow>
      if 0 \<le> ur_fd r
      then ur_fd r = ue_socket e \<and> ur_error r = None \<and> closes acts = [] \<and> left_blocking acts
      else ur_error r \<noteq> None \<and> closes acts = [ue_socket e]"
proof (cases "length path < 108 \<and> 0 < timeout")
  case True
  then obtain out where o: "settled e out" "uds_connect e path timeout
      = (fst out, (if ue_flags_ok e then [A_Nonblock (ue_socket e)] else []) @ snd out)"
    using uds_connect_settled [OF assms(2,1)] by blast
  have "left_blocking ((if ue_flags_ok e then [A_Nonblock (ue_socket e)] else []) @ snd out)"
    if "0 \<le> ur_fd (fst out)"
    using o(1) that by (auto simp: settled_def uds_fail_def uds_give_def left_blocking_def uds_sleeps_def)
  then show ?thesis using settled_outcome [OF o(1) assms(1)] o(2) by (auto split: if_splits)
next
  case False
  then show ?thesis using assms
    by (auto simp: uds_connect_def uds_drop_def uds_fail_def left_blocking_def)
qed

definition env_late :: uds_env where
  "env_late = \<lparr>ue_socket = 7, ue_flags_ok = True, ue_connect1 = C_Noent, ue_stat = (\<lambda>w. 20 \<le> w),
     ue_connect2 = C_Ok, ue_poll = P_Ready, ue_so = SO_Ok\<rparr>"

theorem uds_connect_no_leak_witness:
  "ur_fd (fst (uds_connect env_late ''/tmp/a.sock'' 100)) = 7
   \<and> closes (snd (uds_connect env_late ''/tmp/a.sock'' 100)) = []
   \<and> left_blocking (snd (uds_connect env_late ''/tmp/a.sock'' 100))"
proof -
  have "uds_wait_file (\<lambda>w. 20 \<le> w) 100 0 = Some 20"
    by (simp add: uds_wait_file.simps)
  then have "ur_fd (fst (uds_connect env_late ''/tmp/a.sock'' 100)) = 7"
    by (simp add: uds_connect_def env_late_def uds_after_noent_def uds_give_def Let_def)
  then show ?thesis
    using uds_connect_no_leak [of env_late "''/tmp/a.sock''" 100] by (simp add: env_late_def split: prod.splits)
qed

text \<open>Closing a connection closes each of its open descriptors once, whichever of
  them coincide, and leaves none behind.\<close>

theorem nc_close_exact:
  "case nc_close nc of nc' \<Rightarrow>
     \<exists>fds. closes (nc_acts nc') = closes (nc_acts nc) @ fds \<and> distinct fds
       \<and> set fds = {fd \<in> {nc_read_fd nc, nc_write_fd nc, nc_socket_fd nc}. 0 \<le> fd}
       \<and> nc_read_fd nc' = -1 \<and> nc_write_fd nc' = -1 \<and> nc_socket_fd nc' = -1
       \<and> nc_state nc' = CONN_DISCONNECTED"
  by (auto simp: nc_close_def nc_log_def nc_close_acts_def)

section \<open>Reconnecting\<close>

definition sleeps :: "sys_act list \<Rightarrow> int list" where
  "sleeps acts = concat (map (\<lambda>a. case a of A_Sleep n \<Rightarrow> [n] | _ \<Rightarrow> []) acts)"

text \<open>The attempts that fail before one succeeds.\<close>

definition attempt_fd :: "(nat \<Rightarrow> uds_env) \<Rightarrow> string \<Rightarrow> int \<Rightarrow> nat \<Rightarrow> int" where
  "attempt_fd env path timeout i = ur_fd (fst (uds_connect (env i) path timeout))"

lemma reconnect_loop_retry:
  assumes "nc_reconnect_attempts nc = int a" and "attempt_fd env path t a < 0"
  obtains d nc' where "reconnect_loop (Suc left) env path t delay nc = reconnect_loop left env path t d nc'"
    "nc_reconnect_attempts nc' = int (Suc a)" "nc_reconnect_max nc' = nc_reconnect_max nc"
proof -
  obtain r acts where c: "uds_connect (env a) path t = (r, acts)" by force
  have neg: "\<not> 0 \<le> ur_fd r" using assms(2) c by (simp add: attempt_fd_def)
  let ?n = "(nc_log acts nc)\<lparr>nc_reconnect_attempts := int a + 1\<rparr>"
  let ?s = "nc_log [A_Sleep (min delay 30000)] ?n"
  show ?thesis
  proof (cases "int a + 1 < nc_reconnect_max nc")
    case True
    have "reconnect_loop (Suc left) env path t delay nc = reconnect_loop left env path t (delay * 2) ?s"
      using assms(1) c neg True by (simp add: Let_def nc_log_def)
    then show ?thesis by (rule that) (simp_all add: nc_log_def)
  next
    case False
    have "reconnect_loop (Suc left) env path t delay nc = reconnect_loop left env path t delay ?n"
      using assms(1) c neg False by (simp add: Let_def nc_log_def)
    then show ?thesis by (rule that) (simp_all add: nc_log_def)
  qed
qed

lemma reconnect_loop_success:
  "nc_reconnect_attempts nc = int a \<Longrightarrow> k < left \<Longrightarrow>
   \<forall>i < k. attempt_fd env path t (a + i) < 0 \<Longrightarrow> 0 \<le> attempt_fd env path t (a + k) \<Longrightarrow>
   \<exists>nc'. reconnect_loop left env path t delay nc = (True, nc') \<and> nc_state nc' = CONN_CONNECTED
     \<and> nc_read_fd nc' = attempt_fd env path t (a + k)"
proof (induction left arbitrary: nc a k delay)
  case 0
  then show ?case by simp
next
  case (Suc left)
  show ?case
  proof (cases k)
    case 0
    obtain r acts where "uds_connect (env a) path t = (r, acts)" by force
    then show ?thesis using Suc.prems 0 by (simp add: attempt_fd_def Let_def)
  next
    case (Suc k')
    then have "attempt_fd env path t a < 0" using Suc.prems(3) by (auto dest: spec [of _ 0])
    from reconnect_loop_retry [OF Suc.prems(1) this, of left delay] obtain d nc' where
      r: "reconnect_loop (Suc left) env path t delay nc = reconnect_loop left env path t d nc'"
      "nc_reconnect_attempts nc' = int (Suc a)" by blast
    have "\<forall>i < k'. attempt_fd env path t (Suc a + i) < 0"
      using Suc.prems(3) Suc by (metis add_Suc_right add_Suc_shift Suc_mono)
    from Suc.IH [OF r(2) _ this, of d] Suc.prems(2,4) Suc r(1) show ?thesis by simp
  qed
qed

lemma reconnect_loop_exhausted:
  "nc_reconnect_attempts nc = int a \<Longrightarrow> \<forall>i < left. attempt_fd env path t (a + i) < 0 \<Longrightarrow>
   \<exists>nc'. reconnect_loop left env path t delay nc = (False, nc') \<and> nc_state nc' = CONN_UNHEALTHY
     \<and> nc_reconnect_attempts nc' = int (a + left)"
proof (induction left arbitrary: nc a delay)
  case 0
  then show ?case by (simp add: nc_set_state_def)
next
  case (Suc left)
  have "attempt_fd env path t a < 0" using Suc.prems(2) by (auto dest: spec [of _ 0])
  from reconnect_loop_retry [OF Suc.prems(1) this, of left delay] obtain d nc' where
    r: "reconnect_loop (Suc left) env path t delay nc = reconnect_loop left env path t d nc'"
    "nc_reconnect_attempts nc' = int (Suc a)" by blast
  have "\<forall>i < left. attempt_fd env path t (Suc a + i) < 0"
    using Suc.prems(2) by (metis add_Suc_right add_Suc_shift Suc_mono)
  from Suc.IH [OF r(2) this, of d] r(1) show ?case by simp
qed

text \<open>Property C27: reconnecting takes the first attempt that succeeds, if one of the first
  \<open>reconnect_max\<close> does, and otherwise gives up after exactly that many attempts and leaves the
  connection unhealthy.\<close>

theorem reconnect_outcome:
  assumes "nc_transport nc = TRANSPORT_UDS" and "nc_reconnect_max nc = int m" and "0 < m" and "path \<noteq> []"
  shows "(\<forall>k < m. (\<forall>i < k. attempt_fd env path t i < 0) \<and> 0 \<le> attempt_fd env path t k \<longrightarrow>
            (\<exists>nc'. nc_reconnect env path t nc = (True, nc') \<and> nc_state nc' = CONN_CONNECTED
              \<and> nc_read_fd nc' = attempt_fd env path t k))
    \<and> ((\<forall>i < m. attempt_fd env path t i < 0) \<longrightarrow>
            (\<exists>nc'. nc_reconnect env path t nc = (False, nc') \<and> nc_state nc' = CONN_UNHEALTHY
              \<and> nc_reconnect_attempts nc' = int m))"
proof -
  let ?n = "(nc_set_state CONN_CONNECTING (if nc_state nc \<noteq> CONN_DISCONNECTED then nc_close nc else nc))
      \<lparr>nc_reconnect_attempts := 0\<rparr>"
  have n: "nc_reconnect_attempts ?n = int 0" "nc_reconnect_max ?n = int m"
    using assms(2) by (simp_all add: nc_set_state_def nc_close_def nc_log_def)
  have r: "nc_reconnect env path t nc = reconnect_loop m env path t (nc_reconnect_delay_ms ?n) ?n"
    using assms n by (simp add: nc_reconnect_def Let_def)
  show ?thesis
    using reconnect_loop_success [OF n(1), of _ m env path t "nc_reconnect_delay_ms ?n"]
      reconnect_loop_exhausted [OF n(1), of m env path t "nc_reconnect_delay_ms ?n"]
    unfolding r by simp
qed

theorem reconnect_outcome_witness:
  "\<exists>nc'. nc_reconnect (\<lambda>i. if i < 2 then env_late\<lparr>ue_connect1 := C_Refused\<rparr> else env_late\<lparr>ue_connect1 := C_Ok\<rparr>)
      ''/tmp/a.sock'' 100 (nc_set_uds 5 42 nc_init) = (True, nc') \<and> nc_state nc' = CONN_CONNECTED"
proof -
  let ?env = "\<lambda>i::nat. if i < 2 then env_late\<lparr>ue_connect1 := C_Refused\<rparr> else env_late\<lparr>ue_connect1 := C_Ok\<rparr>"
  have f: "\<forall>i < 2. attempt_fd ?env ''/tmp/a.sock'' 100 i < 0"
    by (simp add: attempt_fd_def uds_connect_def env_late_def uds_drop_def uds_fail_def Let_def)
  have ok: "0 \<le> attempt_fd ?env ''/tmp/a.sock'' 100 2"
    by (simp add: attempt_fd_def uds_connect_def env_late_def uds_give_def Let_def)
  have a: "nc_transport (nc_set_uds 5 42 nc_init) = TRANSPORT_UDS"
    "nc_reconnect_max (nc_set_uds 5 42 nc_init) = int 3"
    by (simp_all add: nc_set_uds_def nc_init_def)
  have p: "''/tmp/a.sock'' \<noteq> []" and l: "2 < (3::nat)" by simp_all
  show ?thesis
    using reconnect_outcome [OF a zero_less_numeral p, of ?env 100, THEN conjunct1, THEN spec, of 2,
        THEN mp, OF l, THEN mp, OF conjI [OF f ok]] by blast
qed

end
