(* ===== verification/Tool_Normalizer.thy ===== *)
theory Tool_Normalizer
  imports Json_Value
begin

text \<open>
  Normalisation of the tool definitions of a request (\<^verbatim>\<open>src/codex_tool_normalizer.c\<close>): names
  are mapped to the bridge's stable names, the tool choice is resolved and the prompt that
  lists the tools is written into a bounded buffer. \<open>print\<close> is the JSON printer.
\<close>

section \<open>Names\<close>

definition append_text :: "nat \<Rightarrow> string \<Rightarrow> string \<Rightarrow> string" where
  "append_text max_len dest text =
     (if length dest \<ge> max_len then dest else dest @ take (max_len - length dest - 1) text)"

definition s_tool_name_map :: "(string \<times> string \<times> string) list" where
  "s_tool_name_map =
    [(''function'', ''web_search'', ''google_search''), (''web_search'', ''web_search'', ''google_search''),
     (''function'', ''google_search'', ''google_search''), (''computer'', ''computer'', ''computer_call''),
     (''function'', ''computer_call'', ''computer_call''), (''computer'', ''computer_call'', ''computer_call''),
     (''function'', ''apply_patch'', ''apply_patch''), (''function'', ''patch'', ''apply_patch''),
     (''function'', ''edit_file'', ''apply_patch''), (''function'', ''shell'', ''execute_shell''),
     (''function'', ''local_shell'', ''execute_shell''), (''function'', ''run_shell'', ''execute_shell''),
     (''function'', ''execute_shell'', ''execute_shell''), (''function'', ''bash'', ''execute_shell''),
     (''function'', ''sh'', ''execute_shell''), (''function'', ''browse_url'', ''browse_url''),
     (''function'', ''browse'', ''browse_url''), (''function'', ''text_editor'', ''text_editor''),
     (''function'', ''list_tools'', ''list_tools''), (''function'', ''mcp_list_tools'', ''list_tools''),
     (''function'', ''mcp_call'', ''mcp_call'')]"

fun name_map_find :: "(string \<times> string \<times> string) list \<Rightarrow> string \<Rightarrow> string \<Rightarrow> string" where
  "name_map_find [] ty name = name"
| "name_map_find ((t, n, m) # es) ty name = (if t = ty \<and> n = name then m else name_map_find es ty name)"

definition lookup_normalized_name :: "string \<Rightarrow> string \<Rightarrow> string" where
  "lookup_normalized_name ty name = name_map_find s_tool_name_map ty name"

definition codex_normalize_tool_name :: "string \<Rightarrow> string \<Rightarrow> string" where
  "codex_normalize_tool_name ty name = lookup_normalized_name ty name"

section \<open>Definitions of tools\<close>

record tool_def =
  td_original_name :: string
  td_normalized_name :: string
  td_type :: string
  td_description :: string
  td_input_schema_json :: string
  td_is_bridge_owned :: bool

text \<open>A member that is a string, a member that is an object.\<close>

definition str_item :: "jptr \<Rightarrow> string \<Rightarrow> string option" where
  "str_item obj f = json_get_string_ptr obj f"

definition item_name :: "json \<Rightarrow> string" where
  "item_name tool =
     (let func = json_get_object (Some tool) ''function'';
          inner = (case str_item func ''name'' of None \<Rightarrow> [] | Some s \<Rightarrow> cstr_copy 128 s)
      in if inner \<noteq> [] then inner
         else (case str_item (Some tool) ''name'' of None \<Rightarrow> [] | Some s \<Rightarrow> cstr_copy 128 s))"

definition item_description :: "json \<Rightarrow> string" where
  "item_description tool =
     (let top = (case str_item (Some tool) ''description'' of None \<Rightarrow> [] | Some s \<Rightarrow> cstr_copy 4096 s)
      in if top \<noteq> [] then top
         else (case str_item (json_get_object (Some tool) ''function'') ''description'' of
                 None \<Rightarrow> [] | Some s \<Rightarrow> cstr_copy 4096 s))"

definition default_schema :: string where
  \<open>default_schema = ''{"type":"object","properties":{}}''\<close>

definition item_schema :: "(json \<Rightarrow> string) \<Rightarrow> json \<Rightarrow> string" where
  "item_schema print tool =
     (let item = (case cJSON_GetObjectItem tool ''input_schema'' of
                    Some j \<Rightarrow> Some j
                  | None \<Rightarrow> Option.bind (json_get_object (Some tool) ''function'')
                              (\<lambda>f. cJSON_GetObjectItem f ''parameters''));
          text = (case item of None \<Rightarrow> [] | Some j \<Rightarrow> cstr_copy 16384 (print j))
      in if text \<noteq> [] then text else default_schema)"

definition normalize_tool :: "(json \<Rightarrow> string) \<Rightarrow> json \<Rightarrow> tool_def" where
  "normalize_tool print tool =
     (let ty = cstr_copy 32 (case str_item (Some tool) ''type'' of None \<Rightarrow> ''function'' | Some s \<Rightarrow> s);
          name = item_name tool;
          nname = codex_normalize_tool_name ty name
      in \<lparr>td_original_name = name, td_normalized_name = cstr_copy 128 nname, td_type = ty,
          td_description = item_description tool,
          td_input_schema_json = item_schema print tool,
          td_is_bridge_owned = (nname \<noteq> name \<or> json_string_matches (Some ty) [''computer'', ''web_search''])\<rparr>)"

definition codex_normalize_tools :: "(json \<Rightarrow> string) \<Rightarrow> jptr \<Rightarrow> int \<Rightarrow> tool_def list" where
  "codex_normalize_tools print body max_tools =
     (if max_tools \<le> 0 then []
      else case json_get_array body ''tools'' of
        None \<Rightarrow> []
      | Some arr \<Rightarrow> map (normalize_tool print) (take (nat max_tools) (cJSON_children arr)))"

section \<open>The tool choice\<close>

datatype tool_choice_mode = TOOL_CHOICE_NONE | TOOL_CHOICE_AUTO | TOOL_CHOICE_REQUIRED | TOOL_CHOICE_NAMED

record tool_choice_spec =
  tc_mode :: tool_choice_mode
  tc_named_tool :: string

definition choice_mode :: "tool_choice_mode \<Rightarrow> tool_choice_spec" where
  "choice_mode m = \<lparr>tc_mode = m, tc_named_tool = []\<rparr>"

definition choice_named :: "string \<Rightarrow> tool_choice_spec" where
  "choice_named name = \<lparr>tc_mode = TOOL_CHOICE_NAMED, tc_named_tool = cstr_copy 128 name\<rparr>"

definition choice_of_string :: "string \<Rightarrow> tool_choice_spec" where
  "choice_of_string v =
     choice_mode (if v = ''none'' then TOOL_CHOICE_NONE
                  else if v = ''auto'' then TOOL_CHOICE_AUTO
                  else if v = ''required'' \<or> v = ''any'' then TOOL_CHOICE_REQUIRED
                  else TOOL_CHOICE_AUTO)"

definition choice_of_type :: "string \<Rightarrow> tool_choice_spec" where
  "choice_of_type v =
     choice_mode (if v = ''none'' then TOOL_CHOICE_NONE
                  else if v = ''required'' then TOOL_CHOICE_REQUIRED else TOOL_CHOICE_AUTO)"

definition codex_resolve_tool_choice :: "jptr \<Rightarrow> tool_choice_spec" where
  "codex_resolve_tool_choice body =
     (case Option.bind body (\<lambda>j. cJSON_GetObjectItem j ''tool_choice'') of
        Some (JStr v) \<Rightarrow> choice_of_string v
      | Some (JObj kvs) \<Rightarrow>
          (let tc = Some (JObj kvs) in
           case str_item (json_get_object tc ''function'') ''name'' of
             Some name \<Rightarrow> choice_named name
           | None \<Rightarrow>
               (case str_item tc ''name'' of
                  Some name \<Rightarrow> choice_named name
                | None \<Rightarrow>
                    (case str_item tc ''type'' of
                       Some v \<Rightarrow> choice_of_type v
                     | None \<Rightarrow> choice_mode TOOL_CHOICE_AUTO)))
      | _ \<Rightarrow> choice_mode TOOL_CHOICE_AUTO)"

fun codex_find_normalized_tool :: "tool_def list \<Rightarrow> string \<Rightarrow> tool_def option" where
  "codex_find_normalized_tool [] name = None"
| "codex_find_normalized_tool (d # ds) name =
     (if td_normalized_name d = name \<or> td_original_name d = name then Some d
      else codex_find_normalized_tool ds name)"

section \<open>The prompt\<close>

definition prompt_description :: "nat \<Rightarrow> string \<Rightarrow> tool_def \<Rightarrow> string" where
  "prompt_description max_len dest d =
     (if td_description d \<noteq> [] \<and> length dest + 2 + length (td_description d) + 1 < max_len
      then append_text max_len (append_text max_len dest '': '') (td_description d) else dest)"

fun prompt_loop :: "nat \<Rightarrow> string \<Rightarrow> tool_def list \<Rightarrow> string" where
  "prompt_loop max_len dest [] = dest"
| "prompt_loop max_len dest (d # ds) =
     (if length dest + 3 + length (td_normalized_name d) + 2 \<ge> max_len then dest
      else prompt_loop max_len
             (prompt_description max_len
                (append_text max_len (append_text max_len dest [CHR 0x0A, CHR ''-'', CHR '' ''])
                   (td_normalized_name d)) d) ds)"

definition codex_build_tool_prompt :: "nat \<Rightarrow> tool_def list \<Rightarrow> string" where
  "codex_build_tool_prompt max_len tools =
     (let dest = prompt_loop max_len [] tools
      in if dest \<noteq> [] then append_text max_len dest [CHR 0x0A] else dest)"

section \<open>Facts and properties\<close>

lemma append_text_bound: "length dest < n \<Longrightarrow> length (append_text n dest text) < n"
  by (auto simp: append_text_def)

lemma append_text_fits: "length dest + length text < n \<Longrightarrow> append_text n dest text = dest @ text"
  by (simp add: append_text_def)

lemma prompt_loop_bound: "length dest < n \<Longrightarrow> length (prompt_loop n dest ds) < n"
  by (induction ds arbitrary: dest) (simp_all add: prompt_description_def append_text_bound)

definition prompt_entry :: "tool_def \<Rightarrow> string" where
  "prompt_entry d = [CHR 0x0A, CHR ''-'', CHR '' ''] @ td_normalized_name d
     @ (if td_description d \<noteq> [] then '': '' @ td_description d else [])"

lemma prompt_loop_fits:
  "length dest + length (concat (map prompt_entry ds)) + 2 < n \<Longrightarrow>
   prompt_loop n dest ds = dest @ concat (map prompt_entry ds)"
proof (induction ds arbitrary: dest)
  case Nil
  then show ?case by simp
next
  case (Cons d ds)
  have room: "length dest + length (prompt_entry d) + length (concat (map prompt_entry ds)) + 2 < n"
    using Cons.prems by simp
  then have "length (dest @ prompt_entry d) + length (concat (map prompt_entry ds)) + 2 < n" by simp
  from Cons.IH [OF this] show ?case
    using room
    by (auto simp: prompt_entry_def prompt_description_def append_text_fits length_append)
qed

text \<open>The tool prompt always fits its buffer, and when there is room it is the list
  of all tools, one line each, with their descriptions.\<close>

theorem tool_prompt_text:
  assumes "0 < max_len"
  shows "length (codex_build_tool_prompt max_len tools) < max_len
    \<and> (tools \<noteq> [] \<and> length (concat (map prompt_entry tools)) + 2 < max_len \<longrightarrow>
         codex_build_tool_prompt max_len tools = concat (map prompt_entry tools) @ [CHR 0x0A])"
proof -
  have "length (codex_build_tool_prompt max_len tools) < max_len"
    using prompt_loop_bound [of "[]" max_len tools] assms
    by (simp add: codex_build_tool_prompt_def Let_def append_text_bound)
  moreover have "codex_build_tool_prompt max_len tools = concat (map prompt_entry tools) @ [CHR 0x0A]"
    if "tools \<noteq> []" and "length (concat (map prompt_entry tools)) + 2 < max_len"
  proof -
    have "prompt_loop max_len [] tools = concat (map prompt_entry tools)"
      using that(2) by (simp add: prompt_loop_fits)
    moreover have "concat (map prompt_entry tools) \<noteq> []"
      using that(1) by (cases tools) (simp_all add: prompt_entry_def)
    ultimately show ?thesis
      using that(2) by (simp add: codex_build_tool_prompt_def append_text_fits del: concat_eq_Nil_conv)
  qed
  ultimately show ?thesis by blast
qed

definition sample_tool :: tool_def where
  "sample_tool = \<lparr>td_original_name = ''bash'', td_normalized_name = ''execute_shell'', td_type = ''function'',
     td_description = ''run'', td_input_schema_json = ''{}'', td_is_bridge_owned = True\<rparr>"

theorem tool_prompt_text_witness:
  "codex_build_tool_prompt 64 [sample_tool] = [CHR 0x0A] @ ''- execute_shell: run'' @ [CHR 0x0A]"
  using tool_prompt_text [of 64 "[sample_tool]"] by (simp add: prompt_entry_def sample_tool_def)

lemma name_map_find_cases:
  "name_map_find es ty name = name \<or> (\<exists>n. (ty, n, name_map_find es ty name) \<in> set es)"
  by (induction es ty name rule: name_map_find.induct) auto

text \<open>A normalised name stays as it is when it is normalised again under the same
  type.\<close>

lemma normalize_idempotent:
  "codex_normalize_tool_name ty (codex_normalize_tool_name ty name) = codex_normalize_tool_name ty name"
proof -
  have stable: "\<forall>(t, n, m) \<in> set s_tool_name_map. lookup_normalized_name t m = m"
    by (simp add: s_tool_name_map_def lookup_normalized_name_def)
  show ?thesis
    using name_map_find_cases [of s_tool_name_map ty name] stable
    by (auto simp: codex_normalize_tool_name_def lookup_normalized_name_def)
qed

lemma normalize_tools_count: "length (codex_normalize_tools print body n) \<le> nat n"
  by (auto simp: codex_normalize_tools_def split: option.splits)

end
