(* ===== verification/Capability_Router.thy ===== *)
theory Capability_Router
  imports Tool_Normalizer
begin

text \<open>
  Which capabilities a request activates (\<^verbatim>\<open>src/capability_router.c\<close>): keyword scanning of the
  user's text and its combination with the tool definitions and the tool choice. The text is a
  C string and its length the one the callers pass, \<open>strlen\<close> of it; reading at the length gives
  the terminating NUL. The keyword lists are those of the source; the loops over a word assume
  it is not empty, as all of them are.
\<close>

section \<open>Scanning\<close>

definition char_at :: "string \<Rightarrow> nat \<Rightarrow> char" where
  "char_at text i = (if i < length text then text ! i else CHR 0x00)"

definition word_char :: "char \<Rightarrow> bool" where
  "word_char c = (is_alnum c \<or> c = CHR ''_'')"

definition str_at_delimited :: "string \<Rightarrow> nat \<Rightarrow> string \<Rightarrow> bool" where
  "str_at_delimited text pos word =
     (if char_at text (pos + length word - 1) = CHR 0x00 then False
      else if take (length word) (drop pos text) \<noteq> word then False
      else if pos > 0 \<and> word_char (char_at text (pos - 1)) then False
      else \<not> word_char (char_at text (pos + length word)))"

function count_from :: "string \<Rightarrow> string \<Rightarrow> nat \<Rightarrow> nat" where
  "count_from text word i =
     (if word = [] \<or> \<not> i + length word \<le> length text then 0
      else if str_at_delimited text i word then 1 + count_from text word (i + length word)
      else count_from text word (i + 1))"
  by pat_completeness auto
termination
proof (relation "measure (\<lambda>(text, _, i). Suc (length text) - i)", goal_cases)
  case (2 s w i)
  then have "0 < length w" "i + length w \<le> length s" by auto
  then have "Suc (length s) - (i + length w) < Suc (length s) - i" by linarith
  then show ?case by simp
qed auto

declare count_from.simps [simp del]

definition count_keyword :: "string \<Rightarrow> string \<Rightarrow> nat" where
  "count_keyword text word = count_from text word 0"

definition has_cooccurrence :: "string \<Rightarrow> string \<Rightarrow> string \<Rightarrow> nat \<Rightarrow> bool" where
  "has_cooccurrence text word1 word2 window =
     list_ex (\<lambda>i. str_at_delimited text i word1 \<and>
        (let start = i + length word1; stop = min (start + window) (length text)
         in list_ex (\<lambda>j. str_at_delimited text j word2)
              (filter (\<lambda>j. j + length word2 \<le> stop) [start..<Suc stop])))
       (filter (\<lambda>i. i + length word1 \<le> length text) [0..<Suc (length text)])"

section \<open>Keyword lists\<close>

definition s_negative_image_patterns :: "string list" where
  \<open>s_negative_image_patterns =
    [''<img'', ''src="'', ''src='' @ [CHR 0x27], ''png'', ''jpg'', ''jpeg'', ''gif'', ''svg'',
     ''icon'', ''favicon'', ''avatar'', ''thumbnail'', ''screenshot'',
     ''data:image'', ''base64'', ''.png'', ''.jpg'', ''.jpeg'', ''.gif'', ''.svg'',
     ''image/png'', ''image/jpeg'', ''image/gif'', ''image/svg'',
     ''alt="'', ''alt='' @ [CHR 0x27],
     ''background-image'', ''background: url'', ''background:url'',
     ''url('', ''url('' @ [CHR 0x27], ''url("'',
     [CHR 0x60, CHR 0x60, CHR 0x60], ''def '', ''function '', ''const '', ''let '', ''var '',
     ''import '', ''require('', ''<svg'', ''<canvas'']\<close>

definition s_negative_computer_patterns :: "string list" where
  "s_negative_computer_patterns =
    [[CHR 0x60, CHR 0x60, CHR 0x60], ''def '', ''function '', ''const '', ''let '', ''var '',
     ''computer_science'', ''computer vision'', ''computer graphics'',
     ''computation'', ''computational'', ''compute'']"

definition s_image_strong_keywords :: "string list" where
  "s_image_strong_keywords =
    [''generate_image'', ''generate image'', ''create_image'', ''create image'',
     ''draw_image'', ''draw image'', ''make_image'', ''make image'',
     ''generate picture'', ''create picture'', ''draw picture'',
     ''generate photo'', ''create photo'',
     ''generate an image'', ''create an image'', ''draw an image'',
     ''generate a picture'', ''create a picture'',
     ''image generation'', ''image generator'',
     ''text_to_image'', ''text to image'', ''txt2img'',
     ''imagine'', ''imagine a'', ''imagine an'',
     ''visualize'', ''visualise'',
     ''dall-e'', ''dall e'', ''dalle'', ''midjourney'', ''stable diffusion'',
     ''stability ai'', ''openai image'']"

definition s_image_co_pair1 :: "string list" where
  "s_image_co_pair1 = [''generate'', ''create'', ''draw'', ''make'', ''render'', ''produce'']"

definition s_image_co_pair2 :: "string list" where
  "s_image_co_pair2 =
    [''image'', ''picture'', ''photo'', ''photograph'', ''illustration'', ''artwork'', ''visual'']"

definition s_computer_strong_keywords :: "string list" where
  "s_computer_strong_keywords =
    [''computer_call'', ''computer use'', ''use computer'',
     ''control computer'', ''control desktop'', ''control browser'',
     ''desktop control'', ''browser control'',
     ''click'', ''type on'', ''move mouse'', ''press key'',
     ''take screenshot'', ''take a screenshot'', ''screenshot the'', ''screenshot of'',
     ''scroll'', ''scroll down'', ''scroll up'',
     ''open browser'', ''open application'', ''open app'',
     ''use the desktop'', ''use desktop'',
     ''operate computer'', ''operate desktop'']"

definition s_computer_action :: "string list" where
  "s_computer_action =
    [''use'', ''control'', ''operate'', ''open'', ''run'', ''launch'', ''click'', ''type'', ''scroll'']"

definition s_computer_target :: "string list" where
  "s_computer_target =
    [''computer'', ''desktop'', ''browser'', ''application'', ''app'', ''terminal'', ''window'']"

section \<open>Intent\<close>

datatype route_confidence = ROUTE_DENIED | ROUTE_WEAK | ROUTE_CONFIRMED

datatype capability = CAP_IMAGE | CAP_COMPUTER | CAP_WEB_SEARCH

definition has_negative_pattern :: "string \<Rightarrow> string list \<Rightarrow> bool" where
  "has_negative_pattern input patterns = list_ex (\<lambda>p. count_keyword input p > 0) patterns"

definition count_strong_keywords :: "string \<Rightarrow> string list \<Rightarrow> nat" where
  "count_strong_keywords input keywords = sum_list (map (count_keyword input) keywords)"

definition pairs_cooccur :: "string \<Rightarrow> string list \<Rightarrow> string list \<Rightarrow> nat \<Rightarrow> bool" where
  "pairs_cooccur input ws1 ws2 window =
     list_ex (\<lambda>w1. list_ex (\<lambda>w2. has_cooccurrence input w1 w2 window) ws2) ws1"

definition analyze_image_intent :: "string \<Rightarrow> route_confidence" where
  "analyze_image_intent input =
     (let neg = has_negative_pattern input s_negative_image_patterns
      in if count_strong_keywords input s_image_strong_keywords > 0 then ROUTE_CONFIRMED
         else
           let cooc = pairs_cooccur input s_image_co_pair1 s_image_co_pair2 80
           in if cooc \<and> \<not> neg then ROUTE_CONFIRMED
              else if cooc \<and> neg then ROUTE_WEAK
              else if count_keyword input ''image'' + count_keyword input ''picture''
                      + count_keyword input ''photo'' > 0 \<and> \<not> neg then ROUTE_WEAK
              else ROUTE_DENIED)"

definition analyze_computer_intent :: "string \<Rightarrow> route_confidence" where
  "analyze_computer_intent input =
     (let neg = has_negative_pattern input s_negative_computer_patterns
      in if count_strong_keywords input s_computer_strong_keywords > 0 then ROUTE_CONFIRMED
         else
           let cooc = pairs_cooccur input s_computer_action s_computer_target 60
           in if cooc \<and> \<not> neg then ROUTE_CONFIRMED
              else if cooc \<and> neg then ROUTE_WEAK
              else ROUTE_DENIED)"

text \<open>The bit mask is the set of its capabilities.\<close>

definition capability_analyze_input :: "string \<Rightarrow> capability set" where
  "capability_analyze_input input =
     (if input = [] then {}
      else (if analyze_image_intent input = ROUTE_CONFIRMED then {CAP_IMAGE} else {})
           \<union> (if analyze_computer_intent input = ROUTE_CONFIRMED then {CAP_COMPUTER} else {}))"

definition capability_input_has_intent :: "string \<Rightarrow> capability \<Rightarrow> bool" where
  "capability_input_has_intent input cap =
     (if input = [] then False
      else case cap of
        CAP_IMAGE \<Rightarrow> analyze_image_intent input = ROUTE_CONFIRMED
      | CAP_COMPUTER \<Rightarrow> analyze_computer_intent input = ROUTE_CONFIRMED
      | CAP_WEB_SEARCH \<Rightarrow> False)"

section \<open>Routing\<close>

record capability_route =
  cr_capability :: capability
  cr_confidence :: route_confidence
  cr_reason :: string

record routing_decision =
  rd_active :: "capability set"
  rd_routes :: "capability_route list"

definition tools_have_type :: "tool_def list \<Rightarrow> string \<Rightarrow> bool" where
  "tools_have_type tools ty = list_ex (\<lambda>d. td_type d = ty) tools"

definition tools_have_name :: "tool_def list \<Rightarrow> string \<Rightarrow> bool" where
  "tools_have_name tools name = list_ex (\<lambda>d. td_normalized_name d = name) tools"

definition build_route ::
    "capability \<Rightarrow> route_confidence \<Rightarrow> string \<Rightarrow> routing_decision \<Rightarrow> routing_decision" where
  "build_route cap conf reason dec =
     (if length (rd_routes dec) \<ge> 16 then dec
      else dec\<lparr>rd_routes := rd_routes dec
                 @ [\<lparr>cr_capability = cap, cr_confidence = conf, cr_reason = cstr_copy 256 reason\<rparr>],
               rd_active := (if conf = ROUTE_CONFIRMED then insert cap (rd_active dec) else rd_active dec)\<rparr>)"

type_synonym verdict = "route_confidence \<times> string"

text \<open>The reasons of the source contain a dash outside ASCII; its three bytes are \<open>em_dash\<close>.\<close>

definition em_dash :: string where
  "em_dash = [CHR 0xE2, CHR 0x80, CHR 0x94]"

definition no_intent :: verdict where
  "no_intent = (ROUTE_DENIED, ''no intent detected'')"

definition image_by_choice :: "tool_def list \<Rightarrow> tool_choice_spec option \<Rightarrow> verdict" where
  "image_by_choice tools tc =
     (case tc of
        Some spec \<Rightarrow>
          if tc_mode spec = TOOL_CHOICE_NAMED then
            (let named = tc_named_tool spec
             in if named = ''image_generation'' \<or> named = ''dall-e'' \<or> named = ''dalle''
                then (ROUTE_CONFIRMED, ''tool_choice explicitly names image tool'')
                else if tools_have_name tools named \<and> named = ''image_generation''
                then (ROUTE_CONFIRMED, ''tool_choice names normalized image tool'')
                else no_intent)
          else no_intent
      | None \<Rightarrow> no_intent)"

definition image_by_tools :: "tool_def list \<Rightarrow> string \<Rightarrow> verdict \<Rightarrow> verdict" where
  "image_by_tools tools input v =
     (if fst v \<noteq> ROUTE_CONFIRMED
         \<and> (tools_have_type tools ''image'' \<or> tools_have_type tools ''image_generation'')
      then (case analyze_image_intent input of
              ROUTE_CONFIRMED \<Rightarrow> (ROUTE_CONFIRMED, ''image tool type defined with strong user intent'')
            | ROUTE_WEAK \<Rightarrow> (ROUTE_WEAK, ''image tool type defined but user intent is weak'')
            | ROUTE_DENIED \<Rightarrow>
                (ROUTE_WEAK, ''image tool type defined but no user intent '' @ em_dash @ '' conservative deny''))
      else v)"

definition image_by_input :: "string \<Rightarrow> verdict \<Rightarrow> verdict" where
  "image_by_input input v =
     (if fst v = ROUTE_DENIED
      then (case analyze_image_intent input of
              ROUTE_CONFIRMED \<Rightarrow> (ROUTE_CONFIRMED, ''strong user intent for image generation'')
            | ROUTE_WEAK \<Rightarrow>
                (ROUTE_WEAK, ''weak user intent '' @ em_dash @ '' not activating without explicit tool_choice'')
            | ROUTE_DENIED \<Rightarrow> v)
      else v)"

definition computer_by_choice :: "tool_choice_spec option \<Rightarrow> verdict" where
  "computer_by_choice tc =
     (case tc of
        Some spec \<Rightarrow>
          if tc_mode spec = TOOL_CHOICE_NAMED
             \<and> (tc_named_tool spec = ''computer'' \<or> tc_named_tool spec = ''computer_call'')
          then (ROUTE_CONFIRMED, ''tool_choice explicitly names computer tool'') else no_intent
      | None \<Rightarrow> no_intent)"

definition computer_by_tools :: "tool_def list \<Rightarrow> string \<Rightarrow> verdict \<Rightarrow> verdict" where
  "computer_by_tools tools input v =
     (if fst v \<noteq> ROUTE_CONFIRMED \<and> tools_have_type tools ''computer''
      then (case analyze_computer_intent input of
              ROUTE_CONFIRMED \<Rightarrow> (ROUTE_CONFIRMED, ''computer tool type defined with strong user intent'')
            | ROUTE_WEAK \<Rightarrow> (ROUTE_WEAK, ''computer tool type defined but user intent is weak'')
            | ROUTE_DENIED \<Rightarrow>
                (ROUTE_WEAK, ''computer tool type defined but no user intent '' @ em_dash @ '' conservative deny''))
      else v)"

definition computer_by_input :: "string \<Rightarrow> verdict \<Rightarrow> verdict" where
  "computer_by_input input v =
     (if fst v = ROUTE_DENIED \<and> analyze_computer_intent input = ROUTE_CONFIRMED
      then (ROUTE_CONFIRMED, ''strong user intent for computer use'') else v)"

definition capability_route_tools ::
    "tool_def list \<Rightarrow> tool_choice_spec option \<Rightarrow> string \<Rightarrow> routing_decision" where
  "capability_route_tools tools tc input =
     (let img = image_by_input input (image_by_tools tools input (image_by_choice tools tc));
          comp = computer_by_input input (computer_by_tools tools input (computer_by_choice tc));
          dec1 = build_route CAP_IMAGE (fst img) (snd img) \<lparr>rd_active = {}, rd_routes = []\<rparr>;
          dec2 = build_route CAP_COMPUTER (fst comp) (snd comp) dec1
      in build_route CAP_WEB_SEARCH ROUTE_DENIED
           ''not supported by bridge; agent handles browsing natively'' dec2)"

definition capability_is_active :: "routing_decision \<Rightarrow> capability \<Rightarrow> bool" where
  "capability_is_active dec cap = (cap \<in> rd_active dec)"

definition capability_is_confirmed :: "routing_decision \<Rightarrow> capability \<Rightarrow> bool" where
  "capability_is_confirmed dec cap =
     list_ex (\<lambda>r. cr_capability r = cap \<and> cr_confidence r = ROUTE_CONFIRMED) (rd_routes dec)"

fun cap_str :: "capability \<Rightarrow> string" where
  "cap_str CAP_IMAGE = ''image''"
| "cap_str CAP_COMPUTER = ''computer''"
| "cap_str CAP_WEB_SEARCH = ''web_search''"

fun conf_str :: "route_confidence \<Rightarrow> string" where
  "conf_str ROUTE_DENIED = ''denied''"
| "conf_str ROUTE_WEAK = ''weak''"
| "conf_str ROUTE_CONFIRMED = ''confirmed''"

definition route_line :: "capability_route \<Rightarrow> string" where
  "route_line r = cap_str (cr_capability r) @ '': '' @ conf_str (cr_confidence r) @ '' ('' @ cr_reason r
     @ '')'' @ [CHR 0x0A]"

fun summary_loop :: "nat \<Rightarrow> string \<Rightarrow> capability_route list \<Rightarrow> string" where
  "summary_loop max_len dest [] = dest"
| "summary_loop max_len dest (r # rs) =
     (if length dest + length (route_line r) + 1 \<ge> max_len then dest
      else summary_loop max_len (dest @ take (max_len - length dest - 1) (route_line r)) rs)"

definition capability_decision_summary :: "nat \<Rightarrow> routing_decision \<Rightarrow> string" where
  "capability_decision_summary max_len dec =
     (let dest = summary_loop max_len [] (rd_routes dec)
      in if dest \<noteq> [] \<and> last dest = CHR 0x0A then butlast dest else dest)"

section \<open>Keyword search\<close>

text \<open>What a delimited occurrence is: the word, between the ends of the text or characters that
  are no letter, digit or underscore.\<close>

definition delimited_in :: "string \<Rightarrow> string \<Rightarrow> bool" where
  "delimited_in text word \<longleftrightarrow>
     (\<exists>a b. text = a @ word @ b \<and> (a = [] \<or> \<not> word_char (last a)) \<and> (b = [] \<or> \<not> word_char (hd b)))"

lemma not_word_char_NUL: "\<not> word_char (CHR 0x00)"
  by (simp add: word_char_def is_alnum_def is_digit_def cval_def)

lemma str_at_delimited_iff:
  assumes "word \<noteq> []" and "CHR 0x00 \<notin> set word"
  shows "str_at_delimited text i word \<longleftrightarrow>
    (\<exists>b. text = take i text @ word @ b \<and> i \<le> length text
       \<and> (i = 0 \<or> \<not> word_char (text ! (i - 1))) \<and> (b = [] \<or> \<not> word_char (hd b)))"
proof
  assume s: "str_at_delimited text i word"
  let ?b = "drop (i + length word) text"
  have w: "take (length word) (drop i text) = word" using s by (simp add: str_at_delimited_def split: if_splits)
  then have len: "i + length word \<le> length text"
    using assms(1) by (metis Nat.le_diff_conv2 drop_all length_drop length_take linear min.cobounded2
        le_diff_conv2 add.commute nat_le_linear take_eq_Nil2 min_def)
  have "text = take i text @ word @ ?b"
    using w by (metis append_take_drop_id drop_drop add.commute)
  moreover have "i = 0 \<or> \<not> word_char (text ! (i - 1))"
    using s len assms(1) by (auto simp: str_at_delimited_def char_at_def split: if_splits)
  moreover have "?b = [] \<or> \<not> word_char (hd ?b)"
    using s by (auto simp: str_at_delimited_def char_at_def hd_drop_conv_nth split: if_splits)
  ultimately show "\<exists>b. text = take i text @ word @ b \<and> i \<le> length text
       \<and> (i = 0 \<or> \<not> word_char (text ! (i - 1))) \<and> (b = [] \<or> \<not> word_char (hd b))"
    using len by auto
next
  assume "\<exists>b. text = take i text @ word @ b \<and> i \<le> length text
       \<and> (i = 0 \<or> \<not> word_char (text ! (i - 1))) \<and> (b = [] \<or> \<not> word_char (hd b))"
  then obtain b where t: "text = take i text @ word @ b" "i \<le> length text"
    "i = 0 \<or> \<not> word_char (text ! (i - 1))" "b = [] \<or> \<not> word_char (hd b)" by blast
  define a where "a = take i text"
  have a: "length a = i" "text = a @ word @ b" using t(1,2) by (simp_all add: a_def)
  have "char_at text (i + length word - 1) = last word"
  proof -
    have "0 < length word" using assms(1) by simp
    moreover from this have "i + length word - 1 = i + (length word - 1)" by linarith
    ultimately show ?thesis using a assms(1) by (auto simp: char_at_def nth_append last_conv_nth)
  qed
  then have "char_at text (i + length word - 1) \<noteq> CHR 0x00"
    using assms by (metis last_in_set)
  moreover have "take (length word) (drop i text) = word" using a by simp
  moreover have "\<not> word_char (char_at text (i + length word))"
    using a t(4) not_word_char_NUL by (cases b) (auto simp: char_at_def nth_append)
  moreover have "i > 0 \<longrightarrow> \<not> word_char (char_at text (i - 1))"
    using t(3) a not_word_char_NUL by (auto simp: char_at_def)
  ultimately show "str_at_delimited text i word" by (auto simp: str_at_delimited_def)
qed

lemma count_from_pos_iff:
  "word \<noteq> [] \<Longrightarrow> 0 < count_from text word i \<longleftrightarrow>
    (\<exists>j \<ge> i. j + length word \<le> length text \<and> str_at_delimited text j word)"
proof (induction "text" word i rule: count_from.induct)
  case IH: (1 s w i)
  consider "\<not> i + length w \<le> length s" | "i + length w \<le> length s" "str_at_delimited s i w"
    | "i + length w \<le> length s" "\<not> str_at_delimited s i w" by blast
  then show ?case
  proof cases
    case 1
    then show ?thesis by (subst count_from.simps) auto
  next
    case 2
    then show ?thesis using IH(3) by (subst count_from.simps) auto
  next
    case 3
    then have "0 < count_from s w i \<longleftrightarrow> 0 < count_from s w (i + 1)"
      using IH(3) by (subst count_from.simps) simp
    also have "\<dots> \<longleftrightarrow> (\<exists>j \<ge> i + 1. j + length w \<le> length s \<and> str_at_delimited s j w)"
      using 3 IH(3) by (intro IH(2)) auto
    also have "\<dots> \<longleftrightarrow> (\<exists>j \<ge> i. j + length w \<le> length s \<and> str_at_delimited s j w)"
    proof -
      have "i + 1 \<le> j \<longleftrightarrow> i \<le> j" if "str_at_delimited s j w" for j
        using 3(2) that by (cases "i = j") auto
      then show ?thesis by blast
    qed
    finally show ?thesis .
  qed
qed

text \<open>Property C33: a keyword counts exactly when it occurs in the text between boundaries.\<close>

theorem keyword_found_iff:
  assumes "word \<noteq> []" and "CHR 0x00 \<notin> set word"
  shows "0 < count_keyword text word \<longleftrightarrow> delimited_in text word"
proof
  assume "0 < count_keyword text word"
  then obtain j where "str_at_delimited text j word"
    using count_from_pos_iff [OF assms(1)] by (auto simp: count_keyword_def)
  then obtain b where b: "text = take j text @ word @ b" "j \<le> length text"
    "j = 0 \<or> \<not> word_char (text ! (j - 1))" "b = [] \<or> \<not> word_char (hd b)"
    unfolding str_at_delimited_iff [OF assms] by blast
  moreover have "take j text = [] \<or> \<not> word_char (last (take j text))"
  proof (cases "j = 0")
    case False
    then have "last (take j text) = text ! (j - 1)"
      using b(2) by (subst last_conv_nth) (auto simp: min_def)
    then show ?thesis using b(3) False by simp
  qed simp
  ultimately show "delimited_in text word" unfolding delimited_in_def by blast
next
  assume "delimited_in text word"
  then obtain a b where t: "text = a @ word @ b" "a = [] \<or> \<not> word_char (last a)"
    "b = [] \<or> \<not> word_char (hd b)" unfolding delimited_in_def by blast
  have "str_at_delimited text (length a) word"
    unfolding str_at_delimited_iff [OF assms]
    using t by (intro exI [of _ b]) (auto simp: nth_append last_conv_nth)
  then show "0 < count_keyword text word"
    unfolding count_keyword_def count_from_pos_iff [OF assms(1)]
    using t(1) by (intro exI [of _ "length a"]) simp
qed

theorem keyword_found_iff_witness:
  "0 < count_keyword ''please draw image now'' ''draw image''"
proof -
  have "delimited_in ''please draw image now'' ''draw image''"
    unfolding delimited_in_def
    by (intro exI [of _ "''please ''"] exI [of _ "'' now''"])
      (simp add: word_char_def is_alnum_def is_digit_def cval_def)
  then show ?thesis using keyword_found_iff [of "''draw image''" "''please draw image now''"] by simp
qed

section \<open>What activates a capability\<close>

lemma image_verdict:
  "fst (image_by_input input (image_by_tools tools input (image_by_choice tools tc))) = ROUTE_CONFIRMED
   \<longleftrightarrow> (\<exists>spec. tc = Some spec \<and> tc_mode spec = TOOL_CHOICE_NAMED
          \<and> tc_named_tool spec \<in> {''image_generation'', ''dall-e'', ''dalle''})
      \<or> analyze_image_intent input = ROUTE_CONFIRMED"
  by (cases "analyze_image_intent input"; cases tc)
    (auto simp: image_by_choice_def image_by_tools_def image_by_input_def no_intent_def Let_def)

lemma computer_verdict:
  "fst (computer_by_input input (computer_by_tools tools input (computer_by_choice tc))) = ROUTE_CONFIRMED
   \<longleftrightarrow> (\<exists>spec. tc = Some spec \<and> tc_mode spec = TOOL_CHOICE_NAMED
          \<and> tc_named_tool spec \<in> {''computer'', ''computer_call''})
      \<or> analyze_computer_intent input = ROUTE_CONFIRMED"
  by (cases "analyze_computer_intent input"; cases tc)
    (auto simp: computer_by_choice_def computer_by_tools_def computer_by_input_def no_intent_def)

text \<open>A capability is active exactly when its route is confirmed; that is the case
  for images when the tool choice names an image tool or the text alone shows a strong intent,
  and likewise for the computer. Tool definitions on their own never activate anything, and web
  search is never active.\<close>

theorem capability_active_iff:
  "capability_is_active (capability_route_tools tools tc input) cap
     = capability_is_confirmed (capability_route_tools tools tc input) cap
   \<and> capability_is_active (capability_route_tools tools tc input) cap =
     (case cap of
        CAP_IMAGE \<Rightarrow>
          (\<exists>spec. tc = Some spec \<and> tc_mode spec = TOOL_CHOICE_NAMED
             \<and> tc_named_tool spec \<in> {''image_generation'', ''dall-e'', ''dalle''})
          \<or> analyze_image_intent input = ROUTE_CONFIRMED
      | CAP_COMPUTER \<Rightarrow>
          (\<exists>spec. tc = Some spec \<and> tc_mode spec = TOOL_CHOICE_NAMED
             \<and> tc_named_tool spec \<in> {''computer'', ''computer_call''})
          \<or> analyze_computer_intent input = ROUTE_CONFIRMED
      | CAP_WEB_SEARCH \<Rightarrow> False)"
  by (cases cap)
    (simp_all add: capability_is_active_def capability_is_confirmed_def capability_route_tools_def
      build_route_def Let_def image_verdict computer_verdict)

lemma summary_loop_bound: "length dest < n \<Longrightarrow> length (summary_loop n dest rs) < n"
  by (induction rs arbitrary: dest) auto

text \<open>A pattern of the source that ends in a blank is not found in front of a name.\<close>

lemma def_not_suppressing: "count_keyword ''def f(x)'' ''def '' = 0"
  by (simp add: count_keyword_def count_from.simps str_at_delimited_def char_at_def word_char_def
      is_alnum_def is_digit_def cval_def)

end
