(* ===== verification/Tool_Runner.thy ===== *)
theory Tool_Runner
  imports Tool_Policy
begin

text \<open>
  Running a tool on behalf of the agent (\<^verbatim>\<open>src/tool_runner.c\<close>): the gate in front of it, the
  child process with its two pipes, and the redaction of secrets.

  The child is a script of rounds. Before the poll of a round the child has written some bytes
  to each pipe and may have closed them (then \<open>poll\<close> returns at once); after the reads of the
  round \<open>waitpid\<close> may report its exit. When the script is exhausted the child stays alive and
  silent for ever. The pipes keep what the bridge has not read. The strings of
  \<open>strerror\<close> are parameters. The application callback is a function of the application.
\<close>

section \<open>Paths and arguments\<close>

definition common_paths :: "string list" where
  "common_paths = [''/opt/homebrew/bin/node'', ''/usr/local/bin/node'', ''/usr/bin/node'', ''/opt/local/bin/node'']"

text \<open>The cached path, whether a path can be executed, the configured one: the path and the new cache.\<close>

definition tool_runner_resolve_node_path ::
    "(string \<Rightarrow> bool) \<Rightarrow> string option \<Rightarrow> string \<Rightarrow> string \<times> string option" where
  "tool_runner_resolve_node_path file_exists cache configured =
     (case cache of
        Some p \<Rightarrow> (p, cache)
      | None \<Rightarrow>
          let p = (if configured \<noteq> [] \<and> file_exists configured then configured
                   else case filter file_exists common_paths of [] \<Rightarrow> ''node'' | q # _ \<Rightarrow> q)
          in (p, Some p))"

definition extract_object_string_field :: "string \<Rightarrow> string \<Rightarrow> nat \<Rightarrow> string option" where
  "extract_object_string_field js field max_len =
     (if field = [] \<or> max_len = 0 then None else exact_object_field js field max_len)"

definition build_command_args :: "string \<Rightarrow> string \<Rightarrow> string \<times> string" where
  "build_command_args tool args =
     (cstr_copy 64 tool,
      if tool = ''shell_command''
      then (case extract_object_string_field args ''command'' 4096 of None \<Rightarrow> [] | Some c \<Rightarrow> c)
      else cstr_copy 4096 args)"

section \<open>Redaction\<close>

definition value_end :: "char \<Rightarrow> bool" where
  "value_end c = (c \<in> {CHR '' '', CHR 0x0A, CHR 0x0D, CHR 0x09, dquote, CHR 0x27, CHR '','', CHR '';''})"

definition redacted :: string where
  "redacted = ''[redacted]''"

text \<open>The text after the call. The rewriting is done in place: nothing checks that the longer
  replacement still fits the block the text is in.\<close>

function redact_key_value :: "string \<Rightarrow> string \<Rightarrow> string" where
  "redact_key_value key s =
     (if key = [] then s
      else case strstr s key of
        None \<Rightarrow> s
      | Some p \<Rightarrow>
          let before = take (length s - length p) s @ key;
              val = drop (length key) p
          in if val = [] \<or> hd val \<noteq> CHR ''='' then before @ redact_key_value key val
             else before @ ''='' @ redacted
                    @ redact_key_value key (dropWhile (\<lambda>c. \<not> value_end c) (tl val)))"
  by pat_completeness auto
termination
proof (relation "measure (\<lambda>(_, s). length s)", goal_cases)
  case (2 key s p before val)
  then obtain pre post where "s = pre @ p" "p = key @ post" using strstr_Some_split [of s key p] by blast
  then show ?case using 2 by (cases key) auto
next
  case (3 key s p before val)
  then obtain pre post where "s = pre @ p" "p = key @ post" using strstr_Some_split [of s key p] by blast
  then have "length val < length s" using 3 by (cases key) auto
  then show ?case
    using length_dropWhile_le [of "\<lambda>c. \<not> value_end c" "tl val"] by simp
qed simp

declare redact_key_value.simps [simp del]

definition tool_runner_redact_secrets :: "string \<Rightarrow> string" where
  "tool_runner_redact_secrets s =
     (if s = [] then s
      else redact_key_value ''GOOGLE_SEARCH_CX'' (redact_key_value ''GOOGLE_SEARCH_API_KEY'' s))"

section \<open>The child process\<close>

record tool_run_result =
  tr_tool_name :: string
  tr_result_json :: string
  tr_stderr_text :: string
  tr_exit_code :: int
  tr_timed_out :: bool
  tr_denied :: bool
  tr_truncated :: bool
  tr_ok :: bool

definition tool_run_zero :: tool_run_result where
  "tool_run_zero = \<lparr>tr_tool_name = [], tr_result_json = [], tr_stderr_text = [], tr_exit_code = 0,
     tr_timed_out = False, tr_denied = False, tr_truncated = False, tr_ok = False\<rparr>"

record child_round =
  cr_out :: bytes
  cr_err :: bytes
  cr_hup :: bool
  cr_exit :: "int option"

record pump =
  pm_pipe_out :: bytes
  pm_pipe_err :: bytes
  pm_out :: bytes
  pm_err :: bytes
  pm_truncated :: bool

text \<open>One read of at most \<open>chunk\<close> bytes into a buffer of \<open>cap\<close>: what is kept, was it cut?\<close>

definition pump_read :: "nat \<Rightarrow> nat \<Rightarrow> bytes \<Rightarrow> bytes \<Rightarrow> bytes \<times> bool" where
  "pump_read cap chunk pipe buf =
     (let got = take chunk pipe; space = cap - length buf - 1
      in if length got \<ge> space \<and> got \<noteq> [] then (buf @ take (space - 1) got, True)
         else (buf @ got, False))"

definition pump_round :: "pump \<Rightarrow> pump" where
  "pump_round p =
     (case pump_read 65536 1024 (pm_pipe_out p) (pm_out p) of
        (out, cut_out) \<Rightarrow>
          (case pump_read 8192 512 (pm_pipe_err p) (pm_err p) of
             (err, cut_err) \<Rightarrow>
               \<lparr>pm_pipe_out = drop 1024 (pm_pipe_out p), pm_pipe_err = drop 512 (pm_pipe_err p),
                pm_out = out, pm_err = err, pm_truncated = (pm_truncated p \<or> cut_out \<or> cut_err)\<rparr>))"

text \<open>The outcome: timed out (the child is killed), or exited with a code (\<open>-1\<close> for a signal).\<close>

datatype child_end = Timed_Out pump | Exited int pump

function pump_loop :: "int \<Rightarrow> child_round list \<Rightarrow> pump \<Rightarrow> child_end option" where
  "pump_loop timeout [] p =
     (if pm_pipe_out p = [] \<and> pm_pipe_err p = [] then
        (if timeout > 0 then Some (Timed_Out p) else None)
      else pump_loop timeout [] (pump_round p))"
| "pump_loop timeout (r # rs) p =
     (let p1 = p\<lparr>pm_pipe_out := pm_pipe_out p @ cr_out r, pm_pipe_err := pm_pipe_err p @ cr_err r\<rparr>;
          quiet = (pm_pipe_out p1 = [] \<and> pm_pipe_err p1 = [] \<and> \<not> cr_hup r);
          timeout1 = (if quiet \<and> timeout > 0 then timeout - 50 else timeout)
      in if quiet \<and> timeout > 0 \<and> timeout1 \<le> 0 then Some (Timed_Out p1)
         else
           let p2 = pump_round p1
           in case cr_exit r of
                Some code \<Rightarrow> Some (Exited code p2)
              | None \<Rightarrow> pump_loop timeout1 rs p2)"
  by pat_completeness auto
termination
proof (relation "measures [\<lambda>(_, rs, _). length rs, \<lambda>(_, _, p). length (pm_pipe_out p) + length (pm_pipe_err p)]",
    goal_cases)
  case (2 timeout p)
  then have "0 < length (pm_pipe_out p) \<or> 0 < length (pm_pipe_err p)" by auto
  then have "length (pm_pipe_out p) - 1024 + (length (pm_pipe_err p) - 512)
      < length (pm_pipe_out p) + length (pm_pipe_err p)" by linarith
  then show ?case by (auto simp: pump_round_def split: prod.splits)
qed auto

declare pump_loop.simps [simp del]

definition search_hint :: "string \<Rightarrow> string option" where
  "search_hint res =
     (if contains res ''Search unavailable'' then Some ''missing Google Search credentials or axios dependency''
      else if contains res ''No axios dependency available'' then Some ''missing Playwright and axios dependencies''
      else if contains res ''Playwright dependency is not installed.'' then Some ''missing Playwright dependency''
      else None)"

definition tool_collect :: "tool_run_result \<Rightarrow> child_end \<Rightarrow> tool_run_result" where
  "tool_collect out fin =
     (let (p, code, late) = (case fin of Timed_Out p \<Rightarrow> (p, -1, True) | Exited c p \<Rightarrow> (p, c, False));
          text = takeWhile (\<lambda>c. c \<noteq> CHR 0x00) (pm_out p);
          res = cstr_copy 65536 (if text \<noteq> [] then text else ''{}'');
          err = tool_runner_redact_secrets (takeWhile (\<lambda>c. c \<noteq> CHR 0x00) (pm_err p))
      in out\<lparr>tr_result_json := res,
             tr_stderr_text := (case search_hint res of None \<Rightarrow> err | Some h \<Rightarrow> h),
             tr_exit_code := code, tr_timed_out := late, tr_truncated := pm_truncated p,
             tr_ok := \<not> late \<and> \<not> tr_denied out\<rparr>)"

section \<open>The runner\<close>

datatype pipes = Pipes_Ok | Pipe_Fails string

record tool_env =
  te_pipes :: pipes
  te_spawn :: "string option"   \<comment> \<open>\<open>strerror\<close> when the spawn fails\<close>
  te_rounds :: "child_round list"

type_synonym app_callback = "(string \<Rightarrow> string \<Rightarrow> (string \<times> string) option) option"

text \<open>The environment of the child: a fixed path and what the configuration adds.\<close>

definition child_path :: string where
  "child_path = ''PATH=/opt/homebrew/bin:/opt/homebrew/sbin:/usr/local/bin:/usr/bin:/bin:/sbin''"

definition child_env :: "string \<Rightarrow> string \<Rightarrow> string \<Rightarrow> string list" where
  "child_env agent_env browser_dir browser =
     [child_path]
     @ (if agent_env \<noteq> [] then [cstr_copy 4096 agent_env] else [])
     @ (if browser_dir \<noteq> [] then [cstr_copy 1152 (''PLAYWRIGHT_BROWSERS_PATH='' @ browser_dir)] else [])
     @ (if browser \<noteq> [] then [cstr_copy 128 (''PREFERRED_BROWSER='' @ browser)] else [])"

text \<open>The result, and the argument vector of the child if one was started; \<open>None\<close>: no return.\<close>

type_synonym run_out = "(bool \<times> tool_run_result \<times> string list option) option"

definition run_child :: "tool_env \<Rightarrow> string \<Rightarrow> int \<Rightarrow> tool_run_result \<Rightarrow> run_out" where
  "run_child env payload timeout_ms out =
     (let argv = [''sh'', ''-c'', payload]
      in case te_spawn env of
           Some e \<Rightarrow> Some (False, out\<lparr>tr_stderr_text := cstr_copy 8192 (''spawn failed: '' @ e)\<rparr>, None)
         | None \<Rightarrow>
             map_option (\<lambda>fin. let r = tool_collect out fin in (tr_ok r, r, Some argv))
               (pump_loop timeout_ms (te_rounds env)
                  \<lparr>pm_pipe_out = [], pm_pipe_err = [], pm_out = [], pm_err = [], pm_truncated = False\<rparr>))"

definition unsupported_browser :: "string \<Rightarrow> string" where
  "unsupported_browser tool =
     ''tool '' @ [CHR 0x27] @ tool @ [CHR 0x27] @ '' not supported by bridge; agent handles browsing natively''"

definition run_supported :: "tool_env \<Rightarrow> string \<Rightarrow> string \<Rightarrow> bool \<Rightarrow> int \<Rightarrow> tool_run_result \<Rightarrow> run_out" where
  "run_supported env tool args shell_enabled timeout_ms out =
     (case te_pipes env of
        Pipe_Fails e \<Rightarrow> Some (False, out\<lparr>tr_stderr_text := cstr_copy 8192 (''pipe failed: '' @ e)\<rparr>, None)
      | Pipes_Ok \<Rightarrow>
          if tool = ''shell_command'' \<and> shell_enabled
          then run_child env (snd (build_command_args tool args)) timeout_ms out
          else Some (False, out\<lparr>tr_ok := False, tr_exit_code := 1, tr_stderr_text :=
                 cstr_copy 8192 (''tool '' @ [CHR 0x27] @ tool @ [CHR 0x27] @ '' not supported by bridge'')\<rparr>, None))"

definition tool_runner_run ::
    "app_callback \<Rightarrow> tool_env \<Rightarrow> string \<Rightarrow> string \<Rightarrow> bool \<Rightarrow> int \<Rightarrow> run_out" where
  "tool_runner_run callback env tool args shell_enabled timeout_ms =
     (let out = tool_run_zero\<lparr>tr_tool_name := cstr_copy 64 tool\<rparr>
      in if tool = [] then Some (False, tool_run_zero, None)
         else if tool_policy_is_denied (Some tool) then Some (False, out\<lparr>tr_denied := True\<rparr>, None)
         else if tool = ''shell_command'' \<and> \<not> shell_enabled then
           Some (False, out\<lparr>tr_denied := True, tr_stderr_text := ''shell_command disabled by policy''\<rparr>, None)
         else if \<not> tool_policy_args_valid tool args then Some (False, out, None)
         else if tool = ''google_search'' \<or> tool = ''browse_url'' then
           Some (False, out\<lparr>tr_exit_code := 1,
                    tr_stderr_text := cstr_copy 8192 (unsupported_browser tool)\<rparr>, None)
         else
           case (if tool \<noteq> ''shell_command'' then Option.bind callback (\<lambda>cb. cb tool args) else None) of
             Some (res, err) \<Rightarrow>
               Some (True, out\<lparr>tr_result_json := cstr_copy 65536 res, tr_stderr_text := cstr_copy 8192 err,
                              tr_ok := True, tr_exit_code := 0\<rparr>, None)
           | None \<Rightarrow> run_supported env tool args shell_enabled timeout_ms out)"

section \<open>Properties\<close>

lemma exact_object_field_mono:
  assumes "strict_loop n dest p = Some r" and "n \<le> m"
  shows "strict_loop m dest p = Some r"
  using assms by (induction n dest p rule: strict_loop.induct)
    (auto split: if_splits list.splits option.splits)

lemma exact_field_larger:
  assumes "exact_object_field js f n = Some v" and "n \<le> m"
  shows "exact_object_field js f m = Some v"
  using assms
  by (auto simp: exact_object_field_def decode_json_string_value_def Option.bind_eq_Some_conv
      split: if_splits list.splits intro: exact_object_field_mono)

text \<open>A child process is started for one tool only, \<open>shell_command\<close>, only when the configuration
  enables it and only with arguments of the exact shape; it runs the decoded command.\<close>

lemma spawn_exact:
  assumes "tool_runner_run callback env tool args enabled timeout = Some (ok, out, Some argv)"
  shows "tool = ''shell_command'' \<and> enabled
    \<and> (\<exists>cmd. exact_object_field args ''command'' 2048 = Some cmd \<and> cmd \<noteq> [] \<and> length cmd < 2048
         \<and> argv = [''sh'', ''-c'', cmd])"
proof -
  have t: "tool = ''shell_command''" and e: "enabled" and v: "tool_policy_args_valid tool args"
    using assms
    by (auto simp: tool_runner_run_def run_supported_def Let_def
        split: if_splits option.splits pipes.splits)
  have a: "argv = [''sh'', ''-c'', snd (build_command_args tool args)]"
    using assms t e v
    by (auto simp: tool_runner_run_def run_supported_def run_child_def Let_def
        split: if_splits option.splits pipes.splits)
  obtain cmd where c: "exact_object_field args ''command'' 2048 = Some cmd"
    using v t by (auto simp: tool_policy_args_valid_def tool_args_exact_object_field_def split: if_splits)
  then have "snd (build_command_args tool args) = cmd"
    using t exact_field_larger [OF c, of 4096]
    by (simp add: build_command_args_def extract_object_string_field_def)
  then show ?thesis using t e a c exact_object_field_Some [OF c] by simp
qed

definition env_echo :: tool_env where
  "env_echo = \<lparr>te_pipes = Pipes_Ok, te_spawn = None,
     te_rounds = [\<lparr>cr_out = ''hi'', cr_err = [], cr_hup = False, cr_exit = Some 0\<rparr>]\<rparr>"

lemma spawn_exact_example:
  "\<exists>ok out cmd. tool_runner_run None env_echo ''shell_command'' (one_member ''command'' ''echo hi'') True 1000
      = Some (ok, out, Some [''sh'', ''-c'', cmd]) \<and> cmd \<noteq> []"
proof -
  have v: "tool_policy_args_valid ''shell_command'' (one_member ''command'' ''echo hi'')"
    using exact_object_field_canonical [of "''command''" "''echo hi''" 2048]
    by (simp add: tool_policy_args_valid_def tool_args_exact_object_field_def plain_def cval_def one_member_def)
  obtain ok out argv where r: "tool_runner_run None env_echo ''shell_command''
      (one_member ''command'' ''echo hi'') True 1000 = Some (ok, out, Some argv)"
    using v by (auto simp: tool_runner_run_def tool_policy_is_denied_def run_supported_def run_child_def
        env_echo_def pump_loop.simps Let_def)
  from spawn_exact [OF r] r show ?thesis by blast
qed

text \<open>When the child has written more than a kilobyte and has exited by the time of the
  first \<open>waitpid\<close>, everything after the first 1024 bytes is lost, the run counts as successful
  and is not marked as truncated.\<close>

theorem early_exit_loses_output:
  assumes "1024 < length bs" and "0 < timeout" and "CHR 0x00 \<notin> set bs"
  shows "\<exists>p. pump_loop timeout [\<lparr>cr_out = bs, cr_err = [], cr_hup = hup, cr_exit = Some 0\<rparr>]
      \<lparr>pm_pipe_out = [], pm_pipe_err = [], pm_out = [], pm_err = [], pm_truncated = False\<rparr> = Some (Exited 0 p)
    \<and> tr_ok (tool_collect tool_run_zero (Exited 0 p))
    \<and> \<not> tr_truncated (tool_collect tool_run_zero (Exited 0 p))
    \<and> tr_result_json (tool_collect tool_run_zero (Exited 0 p)) = take 1024 bs"
proof -
  let ?p = "\<lparr>pm_pipe_out = drop 1024 bs, pm_pipe_err = [], pm_out = take 1024 bs, pm_err = [], pm_truncated = False\<rparr>"
  have tw: "takeWhile (\<lambda>c. c \<noteq> CHR 0x00) (take 1024 bs) = take 1024 bs"
    using assms(3) by (auto simp: takeWhile_eq_all_conv dest: in_set_takeD)
  have "bs \<noteq> []" using assms(1) by auto
  moreover have "\<not> length (take 1024 bs) \<ge> 65535" by simp
  ultimately show ?thesis
    using assms(1,2) by (intro exI [of _ ?p])
      (simp add: pump_loop.simps pump_round_def pump_read_def Let_def tool_collect_def tool_run_zero_def
        cstr_copy_def tw del: takeWhile_eq_all_conv)
qed

theorem early_exit_loses_output_witness:
  "\<exists>p. pump_loop 1000 [\<lparr>cr_out = replicate 2000 (CHR ''a''), cr_err = [], cr_hup = True, cr_exit = Some 0\<rparr>]
      \<lparr>pm_pipe_out = [], pm_pipe_err = [], pm_out = [], pm_err = [], pm_truncated = False\<rparr> = Some (Exited 0 p)
    \<and> tr_result_json (tool_collect tool_run_zero (Exited 0 p)) = take 1024 (replicate 2000 (CHR ''a''))"
proof -
  have "1024 < length (replicate 2000 (CHR ''a''))" "CHR 0x00 \<notin> set (replicate 2000 (CHR ''a''))"
    "(0::int) < 1000" by simp_all
  with early_exit_loses_output [of "replicate 2000 (CHR ''a'')" 1000 True] show ?thesis by blast
qed

end
