(* ===== verification/Session_Index.thy ===== *)
theory Session_Index
  imports Json_Text
begin

text \<open>
  Session keys and the session index (\<^verbatim>\<open>src/config_manager.c\<close>, session part): which saved state
  of the agent belongs to which session of which workspace. The index is a static array of 64
  slots with a count; slots past the count keep what they last held. The file behind it is a
  text, or absent. The JSON parser is a parameter, \<open>now\<close> is \<open>time (NULL)\<close>.

  The interface the turn logic relies on is the locale \<open>session_map\<close>: what a lookup returns
  after an update. \<open>session_map_bounded\<close> adds when an update succeeds.
\<close>

section \<open>State\<close>

record session_entry =
  se_key :: string
  se_state_id :: string
  se_workspace_root :: string
  se_model_id :: string
  se_context_budget :: int
  se_updated_at :: string

record sessions =
  sx_slots :: "session_entry list"
  sx_count :: nat
  sx_dirty :: bool
  sx_session_key :: string
  sx_session_id :: string
  sx_file :: "string option"
  sx_writable :: bool

definition SESSION_INDEX_MAX_ENTRIES :: nat where
  "SESSION_INDEX_MAX_ENTRIES = 64"

definition blank_entry :: session_entry where
  "blank_entry = \<lparr>se_key = [], se_state_id = [], se_workspace_root = [], se_model_id = [],
     se_context_budget = 0, se_updated_at = []\<rparr>"

definition sessions_init :: "string option \<Rightarrow> bool \<Rightarrow> sessions" where
  "sessions_init file writable =
     \<lparr>sx_slots = replicate SESSION_INDEX_MAX_ENTRIES blank_entry, sx_count = 0, sx_dirty = False,
      sx_session_key = [], sx_session_id = [], sx_file = file, sx_writable = writable\<rparr>"

definition index_entries :: "sessions \<Rightarrow> session_entry list" where
  "index_entries sx = take (sx_count sx) (sx_slots sx)"

section \<open>Keys\<close>

definition workspace_hash :: "string \<Rightarrow> u64" where
  "workspace_hash ws = foldl (\<lambda>h c. h * 131 + of_nat (cval c)) 0 ws"

text \<open>The key, empty when it does not fit 255 bytes.\<close>

definition session_key_text :: "string \<Rightarrow> string \<Rightarrow> string" where
  "session_key_text ws sid =
     (let k = show_hex (unat (workspace_hash ws)) @ ''_'' @ sid in if length k < 256 then k else [])"

definition compute_session_key :: "string \<Rightarrow> string \<Rightarrow> sessions \<Rightarrow> sessions" where
  "compute_session_key ws sid sx = sx\<lparr>sx_session_key := session_key_text ws sid\<rparr>"

definition session_key_for :: "string \<Rightarrow> string \<Rightarrow> nat \<Rightarrow> string" where
  "session_key_for ws sid max_len = cstr_copy max_len (session_key_text ws sid)"

definition set_session_id :: "string \<Rightarrow> sessions \<Rightarrow> sessions" where
  "set_session_id sid sx = sx\<lparr>sx_session_id := cstr_copy 256 sid\<rparr>"

definition get_session_key :: "sessions \<Rightarrow> string" where
  "get_session_key sx = sx_session_key sx"

section \<open>Lookups and updates\<close>

fun find_entry :: "string \<Rightarrow> session_entry list \<Rightarrow> session_entry option" where
  "find_entry k [] = None"
| "find_entry k (e # es) = (if se_key e = k then Some e else find_entry k es)"

definition session_index_lookup :: "sessions \<Rightarrow> string \<Rightarrow> string option" where
  "session_index_lookup sx k = map_option se_state_id (find_entry k (index_entries sx))"

definition session_index_get_workspace :: "sessions \<Rightarrow> string \<Rightarrow> string option" where
  "session_index_get_workspace sx k =
     (case find_entry k (index_entries sx) of
        Some e \<Rightarrow> if se_workspace_root e \<noteq> [] then Some (se_workspace_root e) else None
      | None \<Rightarrow> None)"

definition session_index_get_model_id :: "sessions \<Rightarrow> string \<Rightarrow> string option" where
  "session_index_get_model_id sx k =
     (case find_entry k (index_entries sx) of
        Some e \<Rightarrow> if se_model_id e \<noteq> [] then Some (se_model_id e) else None
      | None \<Rightarrow> None)"

definition update_entry ::
    "int \<Rightarrow> string \<Rightarrow> string \<Rightarrow> string \<Rightarrow> int \<Rightarrow> session_entry \<Rightarrow> session_entry" where
  "update_entry now sid ws model budget e =
     e\<lparr>se_state_id := cstr_copy 128 sid,
       se_workspace_root := (if ws \<noteq> [] then cstr_copy 1024 ws else se_workspace_root e),
       se_model_id := (if model \<noteq> [] then cstr_copy 128 model else se_model_id e),
       se_context_budget := (if budget > 0 then budget else se_context_budget e),
       se_updated_at := cstr_copy 32 (show_int now)\<rparr>"

fun update_first :: "string \<Rightarrow> (session_entry \<Rightarrow> session_entry) \<Rightarrow> session_entry list \<Rightarrow> session_entry list" where
  "update_first k f [] = []"
| "update_first k f (e # es) = (if se_key e = k then f e # es else e # update_first k f es)"

definition new_entry :: "int \<Rightarrow> string \<Rightarrow> string \<Rightarrow> string \<Rightarrow> string \<Rightarrow> int \<Rightarrow> session_entry" where
  "new_entry now k sid ws model budget =
     \<lparr>se_key = cstr_copy 256 k, se_state_id = cstr_copy 128 sid, se_workspace_root = cstr_copy 1024 ws,
      se_model_id = cstr_copy 128 model, se_context_budget = budget,
      se_updated_at = cstr_copy 32 (show_int now)\<rparr>"

definition session_index_update ::
    "int \<Rightarrow> string \<Rightarrow> string \<Rightarrow> string \<Rightarrow> string \<Rightarrow> int \<Rightarrow> sessions \<Rightarrow> bool \<times> sessions" where
  "session_index_update now k sid ws model budget sx =
     (if find_entry k (index_entries sx) \<noteq> None then
        (True, sx\<lparr>sx_slots := update_first k (update_entry now sid ws model budget) (index_entries sx)
                               @ drop (sx_count sx) (sx_slots sx), sx_dirty := True\<rparr>)
      else if sx_count sx \<ge> SESSION_INDEX_MAX_ENTRIES then (False, sx)
      else (True, sx\<lparr>sx_slots := (sx_slots sx)[sx_count sx := new_entry now k sid ws model budget],
                     sx_count := sx_count sx + 1, sx_dirty := True\<rparr>))"

section \<open>The file\<close>

definition load_entry :: "json \<Rightarrow> session_entry \<Rightarrow> session_entry" where
  "load_entry j e =
     \<lparr>se_key = get_into (Some j) ''key'' 256 (se_key e),
      se_state_id = get_into (Some j) ''state_id'' 128 (se_state_id e),
      se_workspace_root = get_into (Some j) ''workspace_root'' 1024 (se_workspace_root e),
      se_model_id = get_into (Some j) ''model_id'' 128 (se_model_id e),
      se_context_budget = json_get_int (Some j) ''context_budget'',
      se_updated_at = get_into (Some j) ''updated_at'' 32 (se_updated_at e)\<rparr>"

definition load_step :: "sessions \<Rightarrow> json \<Rightarrow> sessions" where
  "load_step sx j =
     sx\<lparr>sx_slots := (sx_slots sx)[sx_count sx := load_entry j (sx_slots sx ! sx_count sx)],
        sx_count := sx_count sx + 1\<rparr>"

definition load_session_index :: "(string \<Rightarrow> json option) \<Rightarrow> sessions \<Rightarrow> bool \<times> sessions" where
  "load_session_index parse sx =
     (let sx0 = sx\<lparr>sx_count := 0, sx_dirty := False\<rparr>
      in case sx_file sx of
           None \<Rightarrow> (False, sx0)
         | Some content \<Rightarrow>
             (case json_get_array (parse (take 32767 content)) ''entries'' of
                None \<Rightarrow> (False, sx0)
              | Some arr \<Rightarrow>
                  (True, foldl load_step sx0 (take SESSION_INDEX_MAX_ENTRIES (cJSON_children arr)))))"

definition entry_text :: "session_entry \<Rightarrow> string" where
  \<open>entry_text e =
     ''  {"key":"'' @ json_escape (se_key e) 512 @ ''","state_id":"'' @ json_escape (se_state_id e) 512
     @ ''","workspace_root":"'' @ json_escape (se_workspace_root e) 512
     @ ''","model_id":"'' @ json_escape (se_model_id e) 512
     @ ''","context_budget":'' @ show_int (se_context_budget e)
     @ '',"updated_at":"'' @ json_escape (se_updated_at e) 512 @ ''"}''\<close>

fun entries_text :: "session_entry list \<Rightarrow> string" where
  "entries_text [] = []"
| "entries_text (e # es) =
     entry_text e @ (if es \<noteq> [] then '','' else []) @ [CHR 0x0A] @ entries_text es"

definition index_text :: "session_entry list \<Rightarrow> string" where
  \<open>index_text es = ''{"entries":['' @ [CHR 0x0A] @ entries_text es @ '']}'' @ [CHR 0x0A]\<close>

definition save_session_index :: "sessions \<Rightarrow> bool \<times> sessions" where
  "save_session_index sx =
     (if \<not> sx_dirty sx then (True, sx)
      else if \<not> sx_writable sx then (False, sx)
      else (True, sx\<lparr>sx_file := Some (index_text (index_entries sx)), sx_dirty := False\<rparr>))"

section \<open>Invariant\<close>

definition session_entry_ok :: "session_entry \<Rightarrow> bool" where
  "session_entry_ok e =
     (length (se_key e) < 256 \<and> length (se_state_id e) < 128 \<and> length (se_workspace_root e) < 1024
      \<and> length (se_model_id e) < 128 \<and> length (se_updated_at e) < 32)"

definition index_ok :: "sessions \<Rightarrow> bool" where
  "index_ok sx =
     (length (sx_slots sx) = SESSION_INDEX_MAX_ENTRIES \<and> sx_count sx \<le> SESSION_INDEX_MAX_ENTRIES
      \<and> list_all session_entry_ok (sx_slots sx))"

lemma index_ok_init: "index_ok (sessions_init file w)"
  by (simp add: index_ok_def sessions_init_def session_entry_ok_def blank_entry_def list_all_iff)

lemma length_update_first [simp]: "length (update_first k f es) = length es"
  by (induction es) auto

lemma list_all_update_first:
  "list_all P es \<Longrightarrow> (\<And>e. P e \<Longrightarrow> P (f e)) \<Longrightarrow> list_all P (update_first k f es)"
  by (induction es) auto

lemma session_entry_ok_update: "session_entry_ok e \<Longrightarrow> session_entry_ok (update_entry now sid ws m b e)"
  by (auto simp: session_entry_ok_def update_entry_def length_cstr_copy)

lemma session_entry_ok_new: "session_entry_ok (new_entry now k sid ws m b)"
  by (auto simp: session_entry_ok_def new_entry_def length_cstr_copy)

lemma session_entry_ok_load: "session_entry_ok e \<Longrightarrow> session_entry_ok (load_entry j e)"
  by (simp add: session_entry_ok_def load_entry_def get_into_bound)

lemma index_ok_update:
  assumes "index_ok sx"
  shows "index_ok (snd (session_index_update now k sid ws m b sx))"
proof -
  have "list_all session_entry_ok (update_first k (update_entry now sid ws m b) (index_entries sx))"
    using assms
    by (intro list_all_update_first session_entry_ok_update)
      (auto simp: index_ok_def list_all_iff index_entries_def dest: in_set_takeD)
  moreover have "list_all session_entry_ok (drop (sx_count sx) (sx_slots sx))"
    using assms by (auto simp: index_ok_def list_all_iff dest: in_set_dropD)
  moreover have "list_all session_entry_ok ((sx_slots sx)[sx_count sx := new_entry now k sid ws m b])"
    using assms set_update_subset_insert [of "sx_slots sx" "sx_count sx" "new_entry now k sid ws m b"]
    by (auto simp: index_ok_def list_all_iff session_entry_ok_new)
  ultimately show ?thesis using assms
    by (auto simp: session_index_update_def index_ok_def index_entries_def)
qed

lemma index_ok_load_step: "index_ok sx \<Longrightarrow> sx_count sx < SESSION_INDEX_MAX_ENTRIES \<Longrightarrow> index_ok (load_step sx j)"
  using set_update_subset_insert [of "sx_slots sx" "sx_count sx" "load_entry j (sx_slots sx ! sx_count sx)"]
  by (auto simp: index_ok_def load_step_def list_all_iff session_entry_ok_load)

lemma index_ok_load_fold:
  "index_ok sx \<Longrightarrow> sx_count sx + length js \<le> SESSION_INDEX_MAX_ENTRIES \<Longrightarrow>
   index_ok (foldl load_step sx js) \<and> sx_count (foldl load_step sx js) = sx_count sx + length js"
proof (induction js arbitrary: sx)
  case (Cons j js)
  have "sx_count (load_step sx j) = Suc (sx_count sx)" by (simp add: load_step_def)
  then show ?case using Cons.IH [of "load_step sx j"] Cons.prems index_ok_load_step [of sx j] by simp
qed simp

lemma index_ok_load: "index_ok sx \<Longrightarrow> index_ok (snd (load_session_index parse sx))"
  using index_ok_load_fold [of "sx\<lparr>sx_count := 0, sx_dirty := False\<rparr>"]
  by (auto simp: load_session_index_def Let_def index_ok_def split: option.splits)

lemma index_ok_save: "index_ok sx \<Longrightarrow> index_ok (snd (save_session_index sx))"
  by (simp add: save_session_index_def index_ok_def)

section \<open>The interface of the index\<close>

locale session_map =
  fixes lookup :: "'s \<Rightarrow> string \<Rightarrow> string option"
    and put :: "'s \<Rightarrow> string \<Rightarrow> string \<Rightarrow> bool \<times> 's"
    and ok :: "'s \<Rightarrow> bool"
    and key_ok :: "string \<Rightarrow> bool"
    and clip :: "string \<Rightarrow> string"
  assumes ok_put: "ok s \<Longrightarrow> ok (snd (put s k v))"
    and lookup_same: "ok s \<Longrightarrow> key_ok k \<Longrightarrow> fst (put s k v) \<Longrightarrow> lookup (snd (put s k v)) k = Some (clip v)"
    and lookup_other: "ok s \<Longrightarrow> key_ok k \<Longrightarrow> k' \<noteq> k \<Longrightarrow> lookup (snd (put s k v)) k' = lookup s k'"
    and put_failed: "\<not> fst (put s k v) \<Longrightarrow> snd (put s k v) = s"
    and put_known: "ok s \<Longrightarrow> lookup s k \<noteq> None \<Longrightarrow> fst (put s k v)"
begin

definition puts :: "'s \<Rightarrow> (string \<times> string) list \<Rightarrow> 's" where
  "puts s kvs = foldl (\<lambda>s (k, v). snd (put s k v)) s kvs"

lemma puts_Cons: "puts s ((k, v) # kvs) = puts (snd (put s k v)) kvs"
  by (simp add: puts_def)

lemma ok_puts: "ok s \<Longrightarrow> ok (puts s kvs)"
  unfolding puts_def by (induction kvs arbitrary: s) (auto simp: ok_put)

text \<open>A key that is in the map is never lost, whatever is put later.\<close>

lemma never_lost:
  "ok s \<Longrightarrow> list_all (\<lambda>(k, v). key_ok k) kvs \<Longrightarrow> key_ok k \<Longrightarrow> lookup s k \<noteq> None \<Longrightarrow> lookup (puts s kvs) k \<noteq> None"
proof (induction kvs arbitrary: s)
  case Nil
  then show ?case by (simp add: puts_def)
next
  case (Cons kv kvs)
  obtain k1 v1 where kv: "kv = (k1, v1)" by force
  have "lookup (snd (put s k1 v1)) k \<noteq> None"
    using Cons.prems kv lookup_same [of s k1 v1] lookup_other [of s k1 k v1] put_known [of s k v1]
    by (cases "k = k1") auto
  then show ?case
    using Cons.IH [of "snd (put s k1 v1)"] Cons.prems kv by (simp add: puts_Cons ok_put)
qed

text \<open>The last value put under a key that is known is the one found.\<close>

lemma last_put_wins:
  "ok s \<Longrightarrow> list_all (\<lambda>(k, v). key_ok k) kvs \<Longrightarrow> key_ok k \<Longrightarrow> lookup s k \<noteq> None \<Longrightarrow>
   lookup (puts s kvs) k =
     (case map_of (rev kvs) k of None \<Rightarrow> lookup s k | Some v \<Rightarrow> Some (clip v))"
proof (induction kvs rule: rev_induct)
  case Nil
  then show ?case by (simp add: puts_def)
next
  case (snoc kv kvs)
  obtain k1 v1 where kv: "kv = (k1, v1)" by force
  let ?t = "puts s kvs"
  have t: "puts s (kvs @ [kv]) = snd (put ?t k1 v1)" by (simp add: puts_def kv)
  have ok: "ok ?t" using snoc.prems by (simp add: ok_puts)
  have known: "lookup ?t k \<noteq> None"
    using snoc.prems by (intro never_lost) auto
  show ?case
  proof (cases "k1 = k")
    case True
    then show ?thesis
      using t ok known snoc.prems lookup_same [of ?t k v1] put_known [of ?t k v1] kv by simp
  next
    case False
    then show ?thesis using t ok snoc kv lookup_other [of ?t k1 k v1] by simp
  qed
qed

end

locale session_map_bounded = session_map +
  fixes size_of :: "'a \<Rightarrow> nat" and cap :: nat
  assumes put_room: "ok s \<Longrightarrow> size_of s < cap \<Longrightarrow> fst (put s k v)"
    and size_put: "ok s \<Longrightarrow> key_ok k \<Longrightarrow>
      size_of (snd (put s k v)) = (if fst (put s k v) \<and> lookup s k = None then size_of s + 1 else size_of s)"
begin

lemma put_fails_iff: "ok s \<Longrightarrow> \<not> fst (put s k v) \<Longrightarrow> cap \<le> size_of s \<and> lookup s k = None"
  using put_room put_known by (meson not_le)

end

lemma find_update_first:
  "\<forall>e. se_key (f e) = se_key e \<Longrightarrow>
   find_entry k' (update_first k f es) =
     (if k' = k then map_option f (find_entry k es) else find_entry k' es)"
  by (induction es) auto

lemma find_entry_append:
  "find_entry k (es @ fs) = (case find_entry k es of None \<Rightarrow> find_entry k fs | Some e \<Rightarrow> Some e)"
  by (induction es) auto

lemma index_entries_update:
  assumes "index_ok sx"
  shows "index_entries (snd (session_index_update now k sid ws m b sx)) =
    (if find_entry k (index_entries sx) \<noteq> None
     then update_first k (update_entry now sid ws m b) (index_entries sx)
     else if sx_count sx \<ge> SESSION_INDEX_MAX_ENTRIES then index_entries sx
     else index_entries sx @ [new_entry now k sid ws m b])"
  using assms
  by (auto simp: session_index_update_def index_entries_def index_ok_def take_Suc_conv_app_nth)

lemma update_entry_simps [simp]:
  "se_key (update_entry now sid ws m b e) = se_key e"
  "se_state_id (update_entry now sid ws m b e) = cstr_copy 128 sid"
  by (simp_all add: update_entry_def)

lemma session_index_map:
  "session_map_bounded session_index_lookup (\<lambda>s k v. session_index_update now k v ws m b s) index_ok
     (\<lambda>k. length k < 256) (cstr_copy 128) sx_count SESSION_INDEX_MAX_ENTRIES"
proof
  fix s :: sessions and k v :: string assume "index_ok s"
  then show "index_ok (snd (session_index_update now k v ws m b s))" by (rule index_ok_update)
next
  fix s :: sessions and k v :: string
  assume "index_ok s" and "length k < 256" and "fst (session_index_update now k v ws m b s)"
  moreover from this(3) have "find_entry k (index_entries s) \<noteq> None \<or> \<not> sx_count s \<ge> SESSION_INDEX_MAX_ENTRIES"
    by (auto simp: session_index_update_def split: if_splits)
  ultimately show "session_index_lookup (snd (session_index_update now k v ws m b s)) k = Some (cstr_copy 128 v)"
    by (auto simp: session_index_lookup_def index_entries_update find_update_first find_entry_append
        new_entry_def cstr_copy_fits)
next
  fix s :: sessions and k k' v :: string
  assume "index_ok s" and "length k < 256" and "k' \<noteq> k"
  then show "session_index_lookup (snd (session_index_update now k v ws m b s)) k' = session_index_lookup s k'"
    by (auto simp: session_index_lookup_def index_entries_update find_update_first find_entry_append
        new_entry_def cstr_copy_fits split: option.splits)
next
  fix s :: sessions and k v :: string
  assume "\<not> fst (session_index_update now k v ws m b s)"
  then show "snd (session_index_update now k v ws m b s) = s"
    by (auto simp: session_index_update_def split: if_splits)
next
  fix s :: sessions and k v :: string
  assume "index_ok s" and "session_index_lookup s k \<noteq> None"
  then show "fst (session_index_update now k v ws m b s)"
    by (simp add: session_index_update_def session_index_lookup_def)
next
  fix s :: sessions and k v :: string
  assume "index_ok s" and "sx_count s < SESSION_INDEX_MAX_ENTRIES"
  then show "fst (session_index_update now k v ws m b s)" by (simp add: session_index_update_def)
next
  fix s :: sessions and k v :: string
  assume "index_ok s" and "length k < 256"
  show "sx_count (snd (session_index_update now k v ws m b s)) =
      (if fst (session_index_update now k v ws m b s) \<and> session_index_lookup s k = None
       then sx_count s + 1 else sx_count s)"
    by (auto simp: session_index_update_def session_index_lookup_def)
qed

interpretation si: session_map_bounded session_index_lookup
  "\<lambda>s k v. session_index_update now k v ws m b s" index_ok "\<lambda>k. length k < 256" "cstr_copy 128"
  sx_count SESSION_INDEX_MAX_ENTRIES
  for now ws m b
  by (rule session_index_map)

section \<open>What the index promises\<close>

text \<open>A run of updates, each with its own time, workspace, model and budget.\<close>

type_synonym session_call = "int \<times> string \<times> string \<times> string \<times> string \<times> int"

definition session_step :: "sessions \<Rightarrow> session_call \<Rightarrow> sessions" where
  "session_step sx c = (case c of (now, k, sid, ws, m, b) \<Rightarrow> snd (session_index_update now k sid ws m b sx))"

definition call_key :: "session_call \<Rightarrow> string" where "call_key c = fst (snd c)"

definition call_state :: "session_call \<Rightarrow> string" where "call_state c = fst (snd (snd c))"

lemmas call_defs = call_key_def call_state_def

lemma session_step_lookup:
  assumes "index_ok sx" and "length k1 < 256" and "session_index_lookup sx k \<noteq> None"
  shows "session_index_lookup (session_step sx (now, k1, sid, ws, m, b)) k =
    (if k1 = k then Some (cstr_copy 128 sid) else session_index_lookup sx k)"
  using si.lookup_same [of sx k1 now sid ws m b] si.lookup_other [of sx k1 k now sid ws m b]
    si.put_known [of sx k now sid ws m b] assms
  by (auto simp: session_step_def)

lemma index_ok_step: "index_ok sx \<Longrightarrow> index_ok (session_step sx c)"
  by (cases c) (simp add: session_step_def index_ok_update)

text \<open>Property C16: a session in the index is never forgotten: after any further updates it is
  found with the last state stored under its key, and all entries still fit their fields.\<close>

theorem session_never_forgotten:
  assumes "index_ok sx" and "session_index_lookup sx k \<noteq> None"
    and "list_all (\<lambda>c. length (call_key c) < 256) calls"
  shows "session_index_lookup (foldl session_step sx calls) k =
      (case filter (\<lambda>c. call_key c = k) (rev calls) of
         [] \<Rightarrow> session_index_lookup sx k
       | c # _ \<Rightarrow> Some (cstr_copy 128 (call_state c)))
    \<and> index_ok (foldl session_step sx calls)"
proof -
  have "session_index_lookup (foldl session_step sx calls) k =
      (case filter (\<lambda>c. call_key c = k) (rev calls) of
         [] \<Rightarrow> session_index_lookup sx k
       | c # _ \<Rightarrow> Some (cstr_copy 128 (call_state c)))
    \<and> index_ok (foldl session_step sx calls) \<and> session_index_lookup (foldl session_step sx calls) k \<noteq> None"
    using assms(3)
  proof (induction calls rule: rev_induct)
    case Nil
    then show ?case using assms(1,2) by simp
  next
    case (snoc c cs)
    obtain now k1 sid ws m b where c: "c = (now, k1, sid, ws, m, b)" by (cases c)
    let ?f = "foldl session_step sx cs"
    have ih: "session_index_lookup ?f k =
        (case filter (\<lambda>c. call_key c = k) (rev cs) of
           [] \<Rightarrow> session_index_lookup sx k
         | c # _ \<Rightarrow> Some (cstr_copy 128 (call_state c)))"
      and ok: "index_ok ?f" and known: "session_index_lookup ?f k \<noteq> None"
      using conjunct1 [OF snoc.IH] conjunct2 [OF snoc.IH] snoc.prems unfolding list_all_append by blast+
    have k1: "length k1 < 256" using snoc.prems c by (simp add: call_defs)
    have "session_index_lookup (session_step ?f c) k =
        (if k1 = k then Some (cstr_copy 128 sid) else session_index_lookup ?f k)"
      unfolding c by (rule session_step_lookup [OF ok k1 known])
    moreover have "index_ok (session_step ?f c)" by (rule index_ok_step [OF ok])
    ultimately show ?case using ih known by (simp add: c call_defs)
  qed
  then show ?thesis by simp
qed

theorem session_never_forgotten_witness:
  "session_index_lookup (foldl session_step
      (snd (session_index_update 0 ''k'' ''s1'' [] [] 0 (sessions_init None True)))
      [(1, ''q'', ''x'', [], [], 0), (2, ''k'', ''s2'', [], [], 0), (3, ''r'', ''y'', [], [], 0)]) ''k'' = Some ''s2''"
proof -
  let ?s = "snd (session_index_update 0 ''k'' ''s1'' [] [] 0 (sessions_init None True))"
  have "index_ok ?s" by (rule index_ok_update [OF index_ok_init])
  moreover have "session_index_lookup ?s ''k'' \<noteq> None"
    by (simp add: session_index_update_def sessions_init_def index_entries_def
        SESSION_INDEX_MAX_ENTRIES_def session_index_lookup_def new_entry_def cstr_copy_fits
        numeral_eq_Suc)
  ultimately show ?thesis
    using session_never_forgotten [of ?s "''k''" "[(1, ''q'', ''x'', [], [], 0), (2, ''k'', ''s2'', [], [], 0),
        (3, ''r'', ''y'', [], [], 0)]"]
    by (simp add: cstr_copy_fits call_defs)
qed

section \<open>Saving and loading\<close>

text \<open>The part of a field that \<open>json_escape\<close> gets into its 512 bytes.\<close>

fun escape_count :: "nat \<Rightarrow> nat \<Rightarrow> string \<Rightarrow> nat" where
  "escape_count max_len pos [] = 0"
| "escape_count max_len pos (c # s) =
     (if pos + 8 < max_len \<and> \<not> pos + length (esc_char c) \<ge> max_len - 1
      then Suc (escape_count max_len (pos + length (esc_char c)) s) else 0)"

definition clip_field :: "string \<Rightarrow> string" where
  "clip_field s = take (escape_count 512 0 s) s"

lemma escape_loop_count: "escape_loop n pos s = esc_all (take (escape_count n pos s) s)"
  by (induction n pos s rule: escape_loop.induct) (auto simp: esc_all_def Let_def)

lemma json_escape_clip: "json_escape s 512 = esc_all (clip_field s)"
  by (simp add: json_escape_def clip_field_def escape_loop_count)

definition clip_entry :: "session_entry \<Rightarrow> session_entry" where
  "clip_entry e =
     e\<lparr>se_key := clip_field (se_key e), se_state_id := clip_field (se_state_id e),
       se_workspace_root := clip_field (se_workspace_root e), se_model_id := clip_field (se_model_id e),
       se_updated_at := clip_field (se_updated_at e)\<rparr>"

text \<open>The tree a JSON parser returns for the text of the index.\<close>

definition entry_tree :: "session_entry \<Rightarrow> json" where
  "entry_tree e = JObj [(''key'', JStr (se_key e)), (''state_id'', JStr (se_state_id e)),
     (''workspace_root'', JStr (se_workspace_root e)), (''model_id'', JStr (se_model_id e)),
     (''context_budget'', JNum (of_int (se_context_budget e))), (''updated_at'', JStr (se_updated_at e))]"

definition index_tree :: "session_entry list \<Rightarrow> json" where
  "index_tree es = JObj [(''entries'', JArr (map (\<lambda>e. entry_tree (clip_entry e)) es))]"

lemma length_clip_field: "length (clip_field s) \<le> length s"
  by (simp add: clip_field_def)

lemma c_trunc_of_int [simp]: "c_trunc (of_int i) = i"
  by (simp add: c_trunc_def flip: of_int_minus)

lemma load_entry_tree:
  assumes "session_entry_ok e"
  shows "load_entry (entry_tree e) old = e"
  using assms
  by (cases e) (simp add: load_entry_def entry_tree_def get_into_def json_get_string_def json_get_int_def
      ci_eq_def session_entry_ok_def cstr_copy_fits to_lower_def cval_def)

lemma session_entry_ok_clip:
  assumes "session_entry_ok e"
  shows "session_entry_ok (clip_entry e)"
  using assms length_clip_field le_less_trans unfolding session_entry_ok_def clip_entry_def by simp blast

lemma load_fold_entries:
  "length (sx_slots sx) = SESSION_INDEX_MAX_ENTRIES \<Longrightarrow> sx_count sx + length es \<le> SESSION_INDEX_MAX_ENTRIES \<Longrightarrow>
   list_all session_entry_ok es \<Longrightarrow>
   index_entries (foldl load_step sx (map entry_tree es)) = index_entries sx @ es"
proof (induction es arbitrary: sx)
  case Nil
  then show ?case by simp
next
  case (Cons e es)
  have "index_entries (load_step sx (entry_tree e)) = index_entries sx @ [e]"
    using Cons.prems by (simp add: index_entries_def load_step_def load_entry_tree take_Suc_conv_app_nth)
  then show ?case using Cons.IH [of "load_step sx (entry_tree e)"] Cons.prems by (simp add: load_step_def)
qed


definition one_session :: sessions where
  "one_session = snd (session_index_update 7 ''k'' ''s1'' ''/w'' ''m'' 0 (sessions_init None True))"

lemma one_session_entries: "index_entries one_session = [new_entry 7 ''k'' ''s1'' ''/w'' ''m'' 0]"
  by (simp add: one_session_def index_entries_update [OF index_ok_init])
    (simp add: sessions_init_def index_entries_def SESSION_INDEX_MAX_ENTRIES_def)


end
