(* ===== verification/Bridge_Config.thy ===== *)
theory Bridge_Config
  imports Json_Text
begin

text \<open>
  The configuration (\<^verbatim>\<open>src/config_manager.c\<close>): its defaults, the members read from the JSON file,
  the validation, and the checks on the path of the agent's socket. The record has the fields of
  \<^verbatim>\<open>BridgeConfig\<close>; the session key, the session id and the path of the session index are kept
  in the state of \<open>Session_Index\<close>.

  The file is its content or absent, the JSON parser a parameter, the file system a function from
  paths to what \<^verbatim>\<open>stat\<close> reports.
\<close>

section \<open>The record and its defaults\<close>

record bridge_config =
  cf_server_port :: int
  cf_max_buffer_chunk :: int
  cf_theme :: string
  cf_codex_harness_id :: string
  cf_codex_model :: string
  cf_codex_model_alias :: string
  cf_codex_model_display_name :: string
  cf_automatic_tree_expand :: bool
  cf_use_framed_protocol :: bool
  cf_auto_load_resume_session :: bool
  cf_auto_save_kv_cache :: bool
  cf_auto_load_project_session :: bool
  cf_kv_cache_policy :: string
  cf_context_tokens :: int
  cf_model_path :: string
  cf_kv_cache_dir :: string
  cf_browser_state_dir :: string
  cf_preferred_browser :: string
  cf_agent_env :: string
  cf_extra_native_args :: string
  cf_shell_command_enabled :: bool
  cf_google_search_timeout_ms :: int
  cf_browse_url_timeout_ms :: int
  cf_shell_command_timeout_ms :: int
  cf_response_timeout_ms :: int
  cf_max_history_entries :: int
  cf_max_request_size :: int
  cf_max_request_input_bytes :: int
  cf_auth_token :: string
  cf_bind_host :: string
  cf_host_allowlist :: string
  cf_keep_alive_enabled :: bool
  cf_native_transport :: string
  cf_native_socket_path :: string
  cf_uds_connect_timeout_ms :: int
  cf_hello_timeout_ms :: int
  cf_model_load_timeout_ms :: int
  cf_uds_reconnect_max_attempts :: int
  cf_uds_reconnect_backoff_ms :: int
  cf_uds_owner_mode :: string
  cf_trace :: bool
  cf_debug_log_enabled :: bool
  cf_debug_log_path :: string
  cf_bridge_workspace_monitor_enabled :: bool
  cf_hide_tool_transcripts :: bool
  cf_model_reasoning_effort :: string
  cf_max_output_buffer :: int
  cf_max_output_chars :: int
  cf_max_turn_events :: int

definition init_global_config :: "int \<Rightarrow> bridge_config" where
  "init_global_config default_port =
     \<lparr>cf_server_port = default_port, cf_max_buffer_chunk = 32768, cf_theme = ''dracula'',
      cf_codex_harness_id = ''codex.responses'', cf_codex_model = ''star-bridge-ds4'',
      cf_codex_model_alias = ''star-bridge-ds4'',
      cf_codex_model_display_name = ''Star Bridge ds4'', cf_automatic_tree_expand = True,
      cf_use_framed_protocol = False, cf_auto_load_resume_session = True,
      cf_auto_save_kv_cache = True, cf_auto_load_project_session = True,
      cf_kv_cache_policy = ''per_session'', cf_context_tokens = 150000, cf_model_path = [],
      cf_kv_cache_dir = [], cf_browser_state_dir = [], cf_preferred_browser = ''brave'',
      cf_agent_env = [], cf_extra_native_args = [], cf_shell_command_enabled = False,
      cf_google_search_timeout_ms = 5000, cf_browse_url_timeout_ms = 5000,
      cf_shell_command_timeout_ms = 5000, cf_response_timeout_ms = 60000,
      cf_max_history_entries = 20, cf_max_request_size = 1048576,
      cf_max_request_input_bytes = 8388608, cf_auth_token = [], cf_bind_host = ''127.0.0.1'',
      cf_host_allowlist = [], cf_keep_alive_enabled = False, cf_native_transport = ''auto'',
      cf_native_socket_path = [], cf_uds_connect_timeout_ms = 15000, cf_hello_timeout_ms = 10000,
      cf_model_load_timeout_ms = 120000, cf_uds_reconnect_max_attempts = 3,
      cf_uds_reconnect_backoff_ms = 2000, cf_uds_owner_mode = ''connect_existing'',
      cf_trace = True, cf_debug_log_enabled = True,
      cf_debug_log_path = ''.codex-bridge-debug.log'', cf_bridge_workspace_monitor_enabled = False,
      cf_hide_tool_transcripts = True, cf_model_reasoning_effort = ''medium'',
      cf_max_output_buffer = 262144, cf_max_output_chars = 0, cf_max_turn_events = 65536\<rparr>"

section \<open>Reading the file\<close>

definition parse_int_value :: "jptr \<Rightarrow> string \<Rightarrow> int \<Rightarrow> int" where
  "parse_int_value obj key fallback =
     (case Option.bind obj (\<lambda>j. cJSON_GetObjectItem j key) of Some (JNum q) \<Rightarrow> c_trunc q | _ \<Rightarrow> fallback)"

definition parse_bool_value :: "jptr \<Rightarrow> string \<Rightarrow> bool \<Rightarrow> bool" where
  "parse_bool_value obj key fallback =
     (case Option.bind obj (\<lambda>j. cJSON_GetObjectItem j key) of Some (JBool b) \<Rightarrow> b | _ \<Rightarrow> fallback)"

text \<open>The members of the file in the order they are read; a missing or ill-typed member keeps the value.\<close>

definition config_from_json :: "jptr \<Rightarrow> bridge_config \<Rightarrow> bridge_config" where
  "config_from_json obj c = c
     \<lparr>cf_server_port := parse_int_value obj ''port'' (cf_server_port c),
      cf_max_buffer_chunk := parse_int_value obj ''max_buffer_chunk'' (cf_max_buffer_chunk c),
      cf_context_tokens := parse_int_value obj ''context_tokens'' (cf_context_tokens c),
      cf_response_timeout_ms := parse_int_value obj ''response_timeout_ms'' (cf_response_timeout_ms c),
      cf_automatic_tree_expand := parse_bool_value obj ''automatic_tree_expand'' (cf_automatic_tree_expand c),
      cf_use_framed_protocol := parse_bool_value obj ''use_framed_protocol'' (cf_use_framed_protocol c),
      cf_auto_load_resume_session := parse_bool_value obj ''auto_load_resume_session'' (cf_auto_load_resume_session c),
      cf_auto_save_kv_cache := parse_bool_value obj ''auto_save_kv_cache'' (cf_auto_save_kv_cache c),
      cf_auto_load_project_session := parse_bool_value obj ''auto_load_project_session'' (cf_auto_load_project_session c),
      cf_kv_cache_policy := get_into obj ''kv_cache_policy'' 32 (cf_kv_cache_policy c),
      cf_theme := get_into obj ''theme'' 32 (cf_theme c),
      cf_codex_harness_id := get_into obj ''codex_harness_id'' 32 (cf_codex_harness_id c),
      cf_codex_model := get_into obj ''codex_model'' 128 (cf_codex_model c),
      cf_codex_model_alias := get_into obj ''codex_model_alias'' 128 (cf_codex_model_alias c),
      cf_codex_model_display_name := get_into obj ''codex_model_display_name'' 128 (cf_codex_model_display_name c),
      cf_model_path := get_into obj ''model_path'' 1024 (cf_model_path c),
      cf_kv_cache_dir := get_into obj ''kv_cache_dir'' 1024 (cf_kv_cache_dir c),
      cf_browser_state_dir := get_into obj ''browser_state_dir'' 1024 (cf_browser_state_dir c),
      cf_preferred_browser := get_into obj ''preferred_browser'' 64 (cf_preferred_browser c),
      cf_agent_env := get_into obj ''agent_env'' 512 (cf_agent_env c),
      cf_extra_native_args := get_into obj ''extra_native_args'' 2048 (cf_extra_native_args c),
      cf_shell_command_enabled := parse_bool_value obj ''shell_command_enabled'' (cf_shell_command_enabled c),
      cf_google_search_timeout_ms := parse_int_value obj ''google_search_timeout_ms'' (cf_google_search_timeout_ms c),
      cf_browse_url_timeout_ms := parse_int_value obj ''browse_url_timeout_ms'' (cf_browse_url_timeout_ms c),
      cf_shell_command_timeout_ms := parse_int_value obj ''shell_command_timeout_ms'' (cf_shell_command_timeout_ms c),
      cf_max_history_entries := parse_int_value obj ''max_history_entries'' (cf_max_history_entries c),
      cf_max_request_size := parse_int_value obj ''max_request_size'' (cf_max_request_size c),
      cf_max_request_input_bytes := parse_int_value obj ''max_request_input_bytes'' (cf_max_request_input_bytes c),
      cf_auth_token := get_into obj ''auth_token'' 256 (cf_auth_token c),
      cf_bind_host := get_into obj ''bind_host'' 64 (cf_bind_host c),
      cf_host_allowlist := get_into obj ''host_allowlist'' 1024 (cf_host_allowlist c),
      cf_keep_alive_enabled := parse_bool_value obj ''keep_alive_enabled'' (cf_keep_alive_enabled c),
      cf_native_transport := get_into obj ''native_transport'' 16 (cf_native_transport c),
      cf_native_socket_path := get_into obj ''native_socket_path'' 1024 (cf_native_socket_path c),
      cf_uds_connect_timeout_ms := parse_int_value obj ''uds_connect_timeout_ms'' (cf_uds_connect_timeout_ms c),
      cf_hello_timeout_ms := parse_int_value obj ''hello_timeout_ms'' (cf_hello_timeout_ms c),
      cf_model_load_timeout_ms := parse_int_value obj ''model_load_timeout_ms'' (cf_model_load_timeout_ms c),
      cf_uds_reconnect_max_attempts := parse_int_value obj ''uds_reconnect_max_attempts'' (cf_uds_reconnect_max_attempts c),
      cf_uds_reconnect_backoff_ms := parse_int_value obj ''uds_reconnect_backoff_ms'' (cf_uds_reconnect_backoff_ms c),
      cf_uds_owner_mode := get_into obj ''uds_owner_mode'' 32 (cf_uds_owner_mode c),
      cf_trace := parse_bool_value obj ''trace'' (cf_trace c),
      cf_debug_log_enabled := parse_bool_value obj ''debug_log'' (cf_debug_log_enabled c),
      cf_debug_log_path := get_into obj ''debug_log_path'' 1024 (cf_debug_log_path c),
      cf_bridge_workspace_monitor_enabled := parse_bool_value obj ''bridge_workspace_monitor_enabled'' (cf_bridge_workspace_monitor_enabled c),
      cf_hide_tool_transcripts := parse_bool_value obj ''hide_tool_transcripts'' (cf_hide_tool_transcripts c),
      cf_model_reasoning_effort := get_into obj ''model_reasoning_effort'' 32 (cf_model_reasoning_effort c),
      cf_max_output_buffer := parse_int_value obj ''max_output_buffer'' (cf_max_output_buffer c),
      cf_max_output_chars := parse_int_value obj ''max_output_chars'' (cf_max_output_chars c),
      cf_max_turn_events := parse_int_value obj ''max_turn_events'' (cf_max_turn_events c)\<rparr>"

definition CONFIG_FILE_MAX_BYTES :: nat where
  "CONFIG_FILE_MAX_BYTES = 512 * 1024"

definition load_config_from_file ::
    "(string \<Rightarrow> json option) \<Rightarrow> (nat \<Rightarrow> bool) \<Rightarrow> bytes option \<Rightarrow> bridge_config \<Rightarrow> bool \<times> bridge_config" where
  "load_config_from_file parse alloc file c =
     (case file of
        None \<Rightarrow> (False, c)
      | Some content \<Rightarrow>
          if length content > CONFIG_FILE_MAX_BYTES then (False, c)
          else if \<not> alloc (if content = [] then CONFIG_FILE_MAX_BYTES else length content + 1) then (False, c)
          else case parse (c_str content) of
                 None \<Rightarrow> (False, c)
               | Some obj \<Rightarrow> (True, config_from_json (Some obj) c))"

section \<open>Validation\<close>

definition CONFIG_MAX_ERRORS :: nat where "CONFIG_MAX_ERRORS = 32"

definition config_add_error :: "string \<Rightarrow> string list \<Rightarrow> string list" where
  "config_add_error msg errs = (if length errs \<ge> CONFIG_MAX_ERRORS then errs else errs @ [cstr_copy 128 msg])"

text \<open>The checks in their order: the condition of an error and its message.\<close>

definition quoted :: "string \<Rightarrow> string" where
  "quoted s = CHR 0x27 # s @ [CHR 0x27]"

definition negative_check :: "string \<Rightarrow> int \<Rightarrow> (bool \<times> string)" where
  "negative_check name v = (v < 0, name @ '' negative ('' @ show_int v @ '')'')"

definition small_check :: "string \<Rightarrow> int \<Rightarrow> int \<Rightarrow> (bool \<times> string)" where
  "small_check name low v = (v < low, name @ '' '' @ show_int v @ '' too small (minimum '' @ show_int low @ '')'')"

definition large_check :: "string \<Rightarrow> int \<Rightarrow> int \<Rightarrow> (bool \<times> string)" where
  "large_check name high v = (v > high, name @ '' '' @ show_int v @ '' too large (maximum '' @ show_int high @ '')'')"

fun bar_joined :: "string list \<Rightarrow> string" where
  "bar_joined [] = []"
| "bar_joined [w] = w"
| "bar_joined (w # ws) = w @ ''|'' @ bar_joined ws"

definition enum_check :: "string \<Rightarrow> string list \<Rightarrow> string \<Rightarrow> (bool \<times> string)" where
  "enum_check name valid v =
     (\<not> list_ex (\<lambda>w. w = v) valid, name @ '' '' @ quoted v @ '' invalid (must be '' @ bar_joined valid @ '')'')"

definition valid_transports :: "string list" where
  "valid_transports = [''auto'', ''uds'', ''stdio_framed'', ''stdio'']"
definition valid_owner_modes :: "string list" where
  "valid_owner_modes = [''connect_existing'', ''launch_and_connect'', ''bridge_listen'']"
definition valid_kv_policies :: "string list" where
  "valid_kv_policies = [''per_session'', ''global'', ''disabled'']"
definition valid_effort :: "string list" where
  "valid_effort = [''low'', ''medium'', ''high'', ''extra high'']"

definition config_checks :: "bridge_config \<Rightarrow> (bool \<times> string) list" where
  "config_checks c =
     [(cf_server_port c < 1 \<or> cf_server_port c > 65535,
       ''port '' @ show_int (cf_server_port c) @ '' out of range (1-65535)''),
      negative_check ''uds_connect_timeout_ms'' (cf_uds_connect_timeout_ms c),
      negative_check ''hello_timeout_ms'' (cf_hello_timeout_ms c),
      negative_check ''model_load_timeout_ms'' (cf_model_load_timeout_ms c),
      negative_check ''response_timeout_ms'' (cf_response_timeout_ms c),
      negative_check ''google_search_timeout_ms'' (cf_google_search_timeout_ms c),
      negative_check ''browse_url_timeout_ms'' (cf_browse_url_timeout_ms c),
      negative_check ''shell_command_timeout_ms'' (cf_shell_command_timeout_ms c),
      negative_check ''uds_reconnect_backoff_ms'' (cf_uds_reconnect_backoff_ms c),
      small_check ''max_buffer_chunk'' 64 (cf_max_buffer_chunk c),
      large_check ''max_buffer_chunk'' 10485760 (cf_max_buffer_chunk c),
      small_check ''max_request_size'' 1024 (cf_max_request_size c),
      large_check ''max_request_size'' 104857600 (cf_max_request_size c),
      small_check ''max_request_input_bytes'' 1024 (cf_max_request_input_bytes c),
      large_check ''max_request_input_bytes'' 104857600 (cf_max_request_input_bytes c),
      small_check ''context_tokens'' 1024 (cf_context_tokens c),
      large_check ''context_tokens'' 10000000 (cf_context_tokens c),
      negative_check ''max_history_entries'' (cf_max_history_entries c),
      large_check ''max_history_entries'' 1000 (cf_max_history_entries c),
      negative_check ''uds_reconnect_max_attempts'' (cf_uds_reconnect_max_attempts c),
      large_check ''uds_reconnect_max_attempts'' 100 (cf_uds_reconnect_max_attempts c),
      enum_check ''native_transport'' valid_transports (cf_native_transport c),
      enum_check ''uds_owner_mode'' valid_owner_modes (cf_uds_owner_mode c),
      enum_check ''kv_cache_policy'' valid_kv_policies (cf_kv_cache_policy c),
      enum_check ''model_reasoning_effort'' valid_effort (cf_model_reasoning_effort c)]"

definition config_validate_all :: "bridge_config \<Rightarrow> string list" where
  "config_validate_all c =
     foldl (\<lambda>errs (bad, msg). if bad then config_add_error msg errs else errs) [] (config_checks c)"

section \<open>The path of the socket\<close>

record file_stat =
  fs_dir :: bool
  fs_uid :: nat
  fs_read_user :: bool
  fs_exec_user :: bool
  fs_write_other :: bool
  fs_sticky :: bool

text \<open>\<open>base\<close> is the real path of the workspace, \<open>cwd\<close> the current directory, each if the call succeeds.\<close>

definition resolve_native_socket_path :: "string option \<Rightarrow> string option \<Rightarrow> bridge_config \<Rightarrow> bridge_config" where
  "resolve_native_socket_path base cwd c =
     (let p = cf_native_socket_path c;
          join = (\<lambda>d. cstr_copy 1024 (d @ ''/'' @ p))
      in if p = [] then c
         else if hd p = CHR ''/'' then c\<lparr>cf_native_socket_path := cstr_copy 1024 p\<rparr>
         else c\<lparr>cf_native_socket_path :=
                 (case base of Some d \<Rightarrow> join d
                  | None \<Rightarrow> (case cwd of Some d \<Rightarrow> join d | None \<Rightarrow> cstr_copy 1024 p))\<rparr>)"

definition parent_dir :: "string \<Rightarrow> string" where
  "parent_dir p =
     (let d = rev (drop 1 (dropWhile (\<lambda>ch. ch \<noteq> CHR ''/'') (rev p)))
      in if d = [] then ''/'' else d)"

definition validate_socket_parent_dir :: "(string \<Rightarrow> file_stat option) \<Rightarrow> bridge_config \<Rightarrow> string option" where
  "validate_socket_parent_dir stat c =
     (let p = cf_native_socket_path c
      in if p = [] then None
         else case stat (parent_dir p) of
                None \<Rightarrow> Some ''native_socket_parent_dir_missing''
              | Some st \<Rightarrow>
                  if \<not> fs_exec_user st then Some ''native_socket_parent_dir_not_searchable''
                  else if \<not> fs_read_user st then Some ''native_socket_parent_dir_not_readable''
                  else if fs_write_other st \<and> \<not> fs_sticky st
                    then Some ''native_socket_parent_dir_world_writable_no_sticky''
                  else if fs_uid st = 0 then Some ''native_socket_parent_dir_root_owned''
                  else None)"

definition validate_native_socket_path :: "(string \<Rightarrow> file_stat option) \<Rightarrow> bridge_config \<Rightarrow> string option" where
  "validate_native_socket_path stat c =
     (let p = cf_native_socket_path c
      in if p = [] then Some ''native_socket_path_empty''
         else if length p > 103 then Some ''native_socket_path_too_long''
         else case stat p of
                None \<Rightarrow> None
              | Some st \<Rightarrow>
                  if fs_dir st then Some ''native_socket_path_is_directory''
                  else if fs_uid st = 0 then Some ''native_socket_path_root_owned''
                  else if fs_write_other st then Some ''native_socket_path_world_writable''
                  else None)"

text \<open>The files removed: the configured socket, and whatever the patterns find (\<open>globbed\<close>).\<close>

definition cleanup_stale_socket :: "string list \<Rightarrow> bridge_config \<Rightarrow> bool \<times> string list" where
  "cleanup_stale_socket globbed c =
     (let own = (if cf_native_socket_path c \<noteq> [] \<and> cf_uds_owner_mode c = ''launch_and_connect''
                 then [cf_native_socket_path c] else [])
      in (own @ globbed \<noteq> [], own @ globbed))"

definition update_config_from_query :: "string option \<Rightarrow> bridge_config \<Rightarrow> bridge_config" where
  "update_config_from_query query c =
     (case Option.bind query (\<lambda>q. strstr q ''theme='') of
        None \<Rightarrow> c
      | Some p \<Rightarrow> c\<lparr>cf_theme := take 31 (takeWhile (\<lambda>ch. ch \<noteq> CHR ''&'') (drop 6 p))\<rparr>)"

definition inject_config_ui_html :: "nat \<Rightarrow> bridge_config \<Rightarrow> string" where
  "inject_config_ui_html max_len c =
     cstr_copy max_len
       (''<div class='' @ quoted ''config-strip'' @ ''><span>port '' @ show_int (cf_server_port c)
        @ ''</span><span>theme '' @ cf_theme c @ ''</span><span>chunk '' @ show_int (cf_max_buffer_chunk c)
        @ ''</span><span>context '' @ show_int (cf_context_tokens c)
        @ ''</span><span>resume '' @ (if cf_auto_load_resume_session c then ''on'' else ''off'')
        @ ''</span><span>framed '' @ (if cf_use_framed_protocol c then ''on'' else ''off'')
        @ ''</span><span>browser '' @ cf_preferred_browser c @ ''</span></div>'')"

end
