(* ===== verification/Bridge_Engine.thy ===== *)
theory Bridge_Engine
  imports Ring_Buffer Native_Connection Native_Response Session_Index Bridge_Config
begin

text \<open>
  The engine (\<^verbatim>\<open>src/bridge_core.c\<close>): the connection to the native agent with its handshake,
  heartbeat, cancellation and session state requests, and the two output buffers.

  The record \<open>engine\<close> has the fields of \<^verbatim>\<open>BridgeEngine\<close> and, after them, the world they act on:
  the script of what arrives, the script of what writes do, the bytes that went out, the
  payloads of the frames written in full, the allocator, the clock and the static counters.
  Threads are not modelled; a mutex protects single operations and each operation is one step.
  The log of calls on descriptors is the one of the connection.
\<close>

section \<open>State\<close>

record engine =
  en_child_pid :: int
  en_stdin_fd :: int
  en_stdout_fd :: int
  en_stderr_fd :: int
  en_html :: ring
  en_text :: ring
  en_running :: bool
  en_framed_mode :: bool
  en_cancelled :: bool
  en_turn_active :: bool
  en_turn_event_limited :: bool
  en_socket_connect_timeout_ms :: int
  en_hello_timeout_ms :: int
  en_model_load_timeout_ms :: int
  en_turn_response_timeout_ms :: int
  en_workspace :: string
  en_nc :: native_connection
  en_heartbeat_running :: bool
  en_heartbeat_interval_ms :: int
  en_heartbeat_timeout_ms :: int
  en_last_pong_time :: int
  en_current_request_id :: string
  en_last_session_id :: string
  en_cfg :: bridge_config
  en_in :: "io list"
  en_wr :: "wr list"
  en_out :: bytes
  en_frames :: "bytes list"
  en_malloc :: "nat \<Rightarrow> bool"
  en_time :: int
  en_nsec :: int
  en_health_seq :: u64
  en_ping_seq :: u64
  en_sessions :: sessions

definition on_nc :: "(native_connection \<Rightarrow> native_connection) \<Rightarrow> engine \<Rightarrow> engine" where
  "on_nc f e = e\<lparr>en_nc := f (en_nc e)\<rparr>"

definition on_sessions :: "(sessions \<Rightarrow> sessions) \<Rightarrow> engine \<Rightarrow> engine" where
  "on_sessions f e = e\<lparr>en_sessions := f (en_sessions e)\<rparr>"

section \<open>Output buffers\<close>

definition engine_push_html :: "string \<Rightarrow> engine \<Rightarrow> engine" where
  "engine_push_html html e = e\<lparr>en_html := ring_append BRIDGE_BUFFER_SIZE (en_html e) html\<rparr>"

definition engine_push_text :: "string \<Rightarrow> engine \<Rightarrow> engine" where
  "engine_push_text t e = e\<lparr>en_text := ring_append BRIDGE_BUFFER_SIZE (en_text e) t\<rparr>"

definition engine_read_html :: "u64 \<Rightarrow> engine \<Rightarrow> string \<times> engine" where
  "engine_read_html max_len e =
     (case ring_read BRIDGE_BUFFER_SIZE (en_html e) max_len of (s, r) \<Rightarrow> (s, e\<lparr>en_html := r\<rparr>))"

definition engine_read_text :: "u64 \<Rightarrow> engine \<Rightarrow> string \<times> engine" where
  "engine_read_text max_len e =
     (case ring_read BRIDGE_BUFFER_SIZE (en_text e) max_len of (s, r) \<Rightarrow> (s, e\<lparr>en_text := r\<rparr>))"

definition engine_text_available :: "engine \<Rightarrow> u64" where
  "engine_text_available e = ring_available (rb_head (en_text e)) (rb_tail (en_text e))"

section \<open>Frames\<close>

text \<open>The write loop of the raw protocol: what reaches the descriptor.\<close>

fun stdin_loop :: "wr list \<Rightarrow> bytes \<Rightarrow> bytes \<times> wr list" where
  "stdin_loop [] data = (data, [])"
| "stdin_loop (w # ws) data =
     (if data = [] then ([], w # ws)
      else case w of
        Wrote n \<Rightarrow>
          (if n = 0 then ([], ws)
           else case stdin_loop ws (drop n data) of (out, ws') \<Rightarrow> (take n data @ out, ws'))
      | Write_Intr \<Rightarrow> stdin_loop ws data
      | Write_Err \<Rightarrow> ([], ws))"

definition engine_write_stdin :: "bytes \<Rightarrow> engine \<Rightarrow> engine" where
  "engine_write_stdin input e =
     (if en_stdin_fd e < 0 \<or> input = [] then e
      else case stdin_loop (en_wr e) input of
             (out, ws) \<Rightarrow> e\<lparr>en_out := en_out e @ out, en_wr := ws\<rparr>)"

definition write_frame_ok :: "bytes \<Rightarrow> engine \<Rightarrow> bool \<times> engine" where
  "write_frame_ok data e =
     (case nc_write_frame (en_nc e) (en_wr e) data of
        (ok, out, ws) \<Rightarrow>
          (ok, e\<lparr>en_out := en_out e @ out, en_wr := ws,
                 en_frames := (if ok then en_frames e @ [data] else en_frames e)\<rparr>))"

definition engine_write_frame :: "bytes \<Rightarrow> engine \<Rightarrow> engine" where
  "engine_write_frame json e = (if json = [] then e else snd (write_frame_ok json e))"

text \<open>\<open>engine_send_error\<close>: the detail is escaped into 512 bytes, the frame cut to 1024.\<close>

fun escape_detail :: "nat \<Rightarrow> string \<Rightarrow> string" where
  "escape_detail ei [] = []"
| "escape_detail ei (c # s) =
     (if ei < 508 then
        (if c = dquote \<or> c = bslash then [bslash, c] @ escape_detail (ei + 2) s
         else c # escape_detail (ei + 1) s)
      else [])"

definition error_frame :: "string \<Rightarrow> string \<Rightarrow> string" where
  \<open>error_frame error_type detail =
     cstr_copy 1024 (''{"type":"error","error_type":"'' @ error_type @ ''","detail":"''
       @ escape_detail 0 detail @ ''"}'')\<close>

definition engine_send_error :: "string \<Rightarrow> string \<Rightarrow> engine \<Rightarrow> engine" where
  "engine_send_error error_type detail e =
     (if en_framed_mode e \<and> en_stdin_fd e > 0 then engine_write_frame (error_frame error_type detail) e
      else e)"

definition engine_read_frame_timeout :: "int \<Rightarrow> engine \<Rightarrow> frame_result \<times> engine" where
  "engine_read_frame_timeout timeout_ms e =
     (if \<not> en_framed_mode e then (Frame_Error ''not_framed'', e)
      else case nc_read_frame_timeout (en_malloc e) (en_nc e) timeout_ms (en_in e) of
             (r, es) \<Rightarrow>
               let e1 = e\<lparr>en_in := es\<rparr>
               in (r, if r = Frame_Error ''payload_too_large''
                      then engine_send_error ''payload_too_large'' ''frame payload exceeds max'' e1
                      else e1))"

definition engine_read_frame :: "engine \<Rightarrow> frame_result \<times> engine" where
  "engine_read_frame e = engine_read_frame_timeout (- 1) e"

text \<open>A frame as a C string, or none. A read with a deadline never blocks (\<open>not_blocked\<close>).\<close>

fun frame_text :: "frame_result \<Rightarrow> string option" where
  "frame_text (Frame bs) = Some (c_str bs)"
| "frame_text _ = None"

definition engine_exchange :: "string \<Rightarrow> int \<Rightarrow> engine \<Rightarrow> string option \<times> engine" where
  "engine_exchange json timeout_ms e =
     (case engine_read_frame_timeout timeout_ms (engine_write_frame json e) of
        (r, e') \<Rightarrow> (frame_text r, e'))"

section \<open>Health, cancellation, reconnecting\<close>

definition health_id :: "engine \<Rightarrow> string" where
  "health_id e = ''health_'' @ show_int (en_time e) @ ''_'' @ show_nat (unat (en_health_seq e + 1))"

definition health_reply_ok :: "string \<Rightarrow> string \<Rightarrow> bool" where
  \<open>health_reply_ok hid s =
     (contains s ''"type":"health"'' \<and> contains s hid \<and> contains s ''"status":"ok"'')\<close>

definition engine_health_check :: "int \<Rightarrow> engine \<Rightarrow> bool \<times> engine" where
  \<open>engine_health_check timeout_ms e =
     (if \<not> en_framed_mode e then (en_running e, e)
      else
        let hid = cstr_copy 64 (health_id e);
            e1 = e\<lparr>en_health_seq := en_health_seq e + 1\<rparr>
        in case engine_exchange (''{"type":"health","id":"'' @ hid @ ''"}'') timeout_ms e1 of
             (None, e2) \<Rightarrow> (False, e2)
           | (Some s, e2) \<Rightarrow> (health_reply_ok hid s, e2))\<close>

definition cancel_frame :: "engine \<Rightarrow> string" where
  \<open>cancel_frame e =
     cstr_copy 512 (''{"type":"cancel","id":"''
       @ (if en_current_request_id e \<noteq> [] then en_current_request_id e else ''cancel-1'')
       @ ''","reason":"client_disconnected"}'')\<close>

definition engine_cancel :: "engine \<Rightarrow> engine" where
  "engine_cancel e =
     (if en_cancelled e then e
      else
        let e1 = e\<lparr>en_cancelled := True\<rparr>
        in if en_framed_mode e1 \<and> en_stdin_fd e1 > 0 then engine_write_frame (cancel_frame e1) e1 else e1)"

definition engine_set_turn_active :: "bool \<Rightarrow> engine \<Rightarrow> engine" where
  "engine_set_turn_active active e = e\<lparr>en_turn_active := active\<rparr>"

definition engine_reconnect_uds :: "(nat \<Rightarrow> uds_env) \<Rightarrow> string \<Rightarrow> int \<Rightarrow> engine \<Rightarrow> bool \<times> engine" where
  "engine_reconnect_uds env path timeout_ms e =
     (if en_turn_active e \<and> \<not> en_cancelled e then (False, e)
      else case nc_reconnect env path timeout_ms (en_nc e) of (ok, nc) \<Rightarrow> (ok, e\<lparr>en_nc := nc\<rparr>))"

section \<open>The handshake\<close>

definition BRIDGE_MAX_FRAME_BYTES :: nat where
  "BRIDGE_MAX_FRAME_BYTES = 16777216"

definition hello_frame :: "string \<Rightarrow> string" where
  \<open>hello_frame workspace_root =
     ''{"type":"hello","role":"bridge","bridge_version":"1.0.0","protocol_versions":[1],''
     @ ''"harness_id":"codex.responses","workspace_root":"'' @ workspace_root
     @ ''","accepted_events":["response","error","status","log"],''
     @ ''"max_frame_bytes":'' @ show_nat BRIDGE_MAX_FRAME_BYTES @ ''}''\<close>

definition engine_send_hello :: "string \<Rightarrow> engine \<Rightarrow> bool \<times> engine" where
  "engine_send_hello workspace_root e =
     (if nc_write_fd (en_nc e) < 0 then (False, e)
      else if length (hello_frame workspace_root) \<ge> 4096 then (False, e)
      else case write_frame_ok (hello_frame workspace_root) e of
             (ok, e') \<Rightarrow> (ok, if ok then on_nc (nc_set_state CONN_HANDSHAKING) e' else e'))"

definition skip_blanks :: "string \<Rightarrow> string" where
  "skip_blanks s = dropWhile (\<lambda>c. c = CHR '' '' \<or> c = CHR 0x09) s"

text \<open>The version is one digit; zero when there is none.\<close>

definition hello_version :: "string \<Rightarrow> nat" where
  \<open>hello_version s =
     (case strstr s ''"protocol_version":'' of
        None \<Rightarrow> 0
      | Some p \<Rightarrow>
          (case skip_blanks (drop 19 p) of
             c # _ \<Rightarrow> if is_digit c then cval c - 48 else 0
           | [] \<Rightarrow> 0))\<close>

text \<open>The first complaint about a hello frame.\<close>

definition hello_fault :: "string \<Rightarrow> string option" where
  \<open>hello_fault s =
     (if \<not> (contains s ''"type":"hello"'' \<or> contains s ''"type": "hello"'') then
        Some ''missing type field in hello''
      else if \<not> (contains s ''"role":"native_agent"'' \<or> contains s ''"role": "native_agent"'') then
        Some ''missing role field in hello''
      else if \<not> contains s ''"protocol_version"'' then Some ''missing protocol_version in hello''
      else if hello_version s \<noteq> 1 then Some ''unsupported protocol version''
      else if \<not> contains s ''"agent_name"'' then Some ''missing agent_name''
      else if \<not> contains s ''"agent_version"'' then Some ''missing agent_version''
      else if \<not> contains s ''"supported_transports"'' then Some ''missing supported_transports''
      else None)\<close>

definition hello_frame_limit :: "string \<Rightarrow> nat option" where
  \<open>hello_frame_limit s =
     map_option (\<lambda>p. nat (digits_value 0 (takeWhile is_digit (skip_blanks (drop 18 p)))))
       (strstr s ''"max_frame_bytes":'')\<close>

definition limit_too_small :: "string \<Rightarrow> bool" where
  "limit_too_small s =
     (case hello_frame_limit s of None \<Rightarrow> False | Some n \<Rightarrow> n < BRIDGE_MAX_FRAME_BYTES)"

definition hello_received :: "string \<Rightarrow> engine \<Rightarrow> bool \<times> engine" where
  "hello_received s e =
     (case hello_fault s of
        Some detail \<Rightarrow> (False, engine_send_error ''protocol_mismatch'' detail e)
      | None \<Rightarrow>
          if limit_too_small s then (False, e)
          else (True, on_nc (\<lambda>nc. nc_set_state CONN_READY (nc\<lparr>nc_protocol_version := int (hello_version s)\<rparr>)) e))"

definition engine_read_native_hello :: "engine \<Rightarrow> bool \<times> engine" where
  "engine_read_native_hello e =
     (if nc_read_fd (en_nc e) < 0 then (False, e)
      else
        let timeout = (if en_hello_timeout_ms e > 0 then en_hello_timeout_ms e else 10000)
        in case nc_read_frame_timeout (en_malloc e) (en_nc e) timeout (en_in e) of
             (r, es) \<Rightarrow>
               let e1 = e\<lparr>en_in := es\<rparr>
               in case frame_text r of None \<Rightarrow> (False, e1) | Some s \<Rightarrow> hello_received s e1)"

definition ready_fault :: "string \<Rightarrow> (string \<times> string) option" where
  \<open>ready_fault s =
     (if \<not> (contains s ''"type":"ready"'' \<or> contains s ''"type": "ready"'') then
        Some (''protocol_mismatch'', ''ready frame has wrong type'')
      else if \<not> (contains s ''"model_loaded":true'' \<or> contains s ''"model_loaded": true'') then
        Some (''model_loading'', ''native model not loaded'')
      else None)\<close>

definition engine_wait_for_ready :: "engine \<Rightarrow> bool \<times> engine" where
  "engine_wait_for_ready e =
     (if nc_read_fd (en_nc e) < 0 then (False, e)
      else
        let timeout = (if en_model_load_timeout_ms e > 0 then en_model_load_timeout_ms e else 120000)
        in case nc_read_frame_timeout (en_malloc e) (en_nc e) timeout (en_in e) of
             (r, es) \<Rightarrow>
               let e1 = e\<lparr>en_in := es\<rparr>
               in case frame_text r of
                    None \<Rightarrow>
                      (False, engine_send_error ''handshake_timeout'' ''ready frame not received within timeout'' e1)
                  | Some s \<Rightarrow>
                      (case ready_fault s of
                         Some (ty, detail) \<Rightarrow> (False, engine_send_error ty detail e1)
                       | None \<Rightarrow> (True, on_nc (nc_set_state CONN_READY) e1)))"

section \<open>Session state requests\<close>

definition ack_accepted :: "string \<Rightarrow> bool" where
  \<open>ack_accepted s = (contains s ''"type":"ack"'' \<and> contains s ''"status":"accepted"'')\<close>

text \<open>The state id an acknowledgement carries: not empty, ended by a quote, below 256 bytes.\<close>

definition ack_state_id :: "string \<Rightarrow> string option" where
  \<open>ack_state_id s =
     (case strstr s ''"state_id":"'' of
        None \<Rightarrow> None
      | Some p \<Rightarrow>
          let sid = takeWhile (\<lambda>c. c \<noteq> dquote) (drop 12 p)
          in if strchr (drop 12 p) dquote \<noteq> None \<and> sid \<noteq> [] \<and> length sid < 256 then Some sid else None)\<close>

definition record_state :: "string \<Rightarrow> string \<Rightarrow> string \<Rightarrow> int \<Rightarrow> string \<Rightarrow> engine \<Rightarrow> engine" where
  "record_state key proj model budget ack e =
     (case ack_state_id ack of
        None \<Rightarrow> e
      | Some sid \<Rightarrow>
          on_sessions (\<lambda>sx. snd (save_session_index
            (snd (session_index_update (en_time e) key sid proj model budget sx)))) e)"

text \<open>The common frame of the four requests: format, send, wait ten seconds for the answer.\<close>

definition state_request :: "nat \<Rightarrow> string \<Rightarrow> (string \<Rightarrow> engine \<Rightarrow> engine) \<Rightarrow> engine \<Rightarrow> bool \<times> engine" where
  "state_request buf_max json on_ack e =
     (if \<not> en_framed_mode e then (False, e)
      else if length json \<ge> buf_max then (False, e)
      else case engine_exchange json 10000 e of
             (None, e1) \<Rightarrow> (False, e1)
           | (Some ack, e1) \<Rightarrow> (ack_accepted ack, on_ack ack e1))"

definition load_state_json :: "string \<Rightarrow> string \<Rightarrow> string" where
  \<open>load_state_json key sid =
     ''{"type":"load_state","key":"'' @ json_escape key 256 @ ''","state_id":"'' @ json_escape sid 256 @ ''"}''\<close>

definition engine_load_session_state :: "string \<Rightarrow> string \<Rightarrow> engine \<Rightarrow> bool \<times> engine" where
  "engine_load_session_state key sid e =
     state_request 1024 (load_state_json key sid) (record_state key [] [] 0) e"

definition save_state_json :: "string \<Rightarrow> string \<Rightarrow> string" where
  \<open>save_state_json key sid =
     ''{"type":"save_state","key":"'' @ json_escape key 256 @ ''","state_id":"'' @ json_escape sid 256 @ ''"}''\<close>

definition engine_save_session_state :: "string \<Rightarrow> string \<Rightarrow> engine \<Rightarrow> bool \<times> engine" where
  "engine_save_session_state key sid e = state_request 1024 (save_state_json key sid) (\<lambda>_ e. e) e"

definition switch_state_json :: "string \<Rightarrow> string \<Rightarrow> string \<Rightarrow> string" where
  \<open>switch_state_json from to_key sid =
     ''{"type":"switch_state","from_key":"'' @ json_escape from 256 @ ''","to_key":"'' @ json_escape to_key 256
     @ ''","state_id":"'' @ json_escape sid 256 @ ''"}''\<close>

definition engine_switch_session_state :: "string \<Rightarrow> string \<Rightarrow> string \<Rightarrow> engine \<Rightarrow> bool \<times> engine" where
  "engine_switch_session_state from to_key sid e =
     state_request 1024 (switch_state_json from to_key sid) (\<lambda>_ e. e) e"

definition create_state_json :: "string \<Rightarrow> string \<Rightarrow> string \<Rightarrow> int \<Rightarrow> string \<Rightarrow> string" where
  \<open>create_state_json key proj model budget metadata =
     ''{"type":"create_state","key":"'' @ json_escape key 256 @ ''","project_root":"'' @ json_escape proj 512
     @ ''","model_id":"'' @ json_escape model 256 @ ''","context_budget":'' @ show_int budget
     @ '',"metadata":'' @ metadata @ ''}''\<close>

definition engine_create_session_state ::
    "string \<Rightarrow> string \<Rightarrow> string \<Rightarrow> int \<Rightarrow> string \<Rightarrow> engine \<Rightarrow> bool \<times> engine" where
  "engine_create_session_state key proj model budget metadata e =
     state_request 1536 (create_state_json key proj model budget metadata)
       (record_state key proj model budget) e"

section \<open>Heartbeat\<close>

definition ping_json :: "engine \<Rightarrow> string" where
  \<open>ping_json e =
     ''{"type":"ping","id":"ping_'' @ show_int (en_time e) @ ''_'' @ show_nat (unat (en_ping_seq e + 1)) @ ''"}''\<close>

definition engine_send_ping :: "engine \<Rightarrow> bool \<times> engine" where
  "engine_send_ping e =
     (if \<not> en_framed_mode e then (False, e)
      else
        let e1 = e\<lparr>en_ping_seq := en_ping_seq e + 1\<rparr>
        in if length (ping_json e) \<ge> 256 then (False, e1) else (True, engine_write_frame (ping_json e) e1))"

definition pong_ok :: "string \<Rightarrow> bool" where
  \<open>pong_ok s = (contains s ''"type":"pong"'' \<and> contains s ''"status":"ok"'')\<close>

function wait_pong_loop :: "int \<Rightarrow> engine \<Rightarrow> bool \<times> engine" where
  "wait_pong_loop remaining e =
     (if remaining > 0 then
        case engine_read_frame_timeout remaining e of
          (r, e1) \<Rightarrow>
            (case frame_text r of
               None \<Rightarrow> (False, e1)
             | Some s \<Rightarrow> if pong_ok s then (True, e1) else wait_pong_loop (remaining - 100) e1)
      else (False, e))"
  by pat_completeness auto
termination by (relation "measure (\<lambda>(remaining, _). nat remaining)") auto

declare wait_pong_loop.simps [simp del]

definition engine_wait_pong :: "int \<Rightarrow> engine \<Rightarrow> bool \<times> engine" where
  "engine_wait_pong timeout_ms e =
     (if \<not> en_framed_mode e then (False, e) else wait_pong_loop timeout_ms e)"

text \<open>One beat of the heartbeat thread, after its sleep.\<close>

definition heartbeat_beat :: "engine \<Rightarrow> engine" where
  "heartbeat_beat e =
     (if en_turn_active e then e
      else
        let e1 = snd (engine_send_ping e);
            timeout = (if en_heartbeat_timeout_ms e1 > 0 then en_heartbeat_timeout_ms e1 else 60000)
        in case engine_wait_pong timeout e1 of
             (True, e2) \<Rightarrow> e2\<lparr>en_last_pong_time := en_time e2\<rparr>
           | (False, e2) \<Rightarrow>
               on_nc (nc_set_state CONN_UNHEALTHY)
                 (engine_send_error ''native_unhealthy'' ''heartbeat pong not received'' e2))"

text \<open>The thread: \<open>others\<close> is what the rest of the program does to the engine during each sleep.\<close>

fun heartbeat_loop :: "(engine \<Rightarrow> engine) list \<Rightarrow> engine \<Rightarrow> engine" where
  "heartbeat_loop [] e = e"
| "heartbeat_loop (other # others) e =
     (if en_heartbeat_running e \<and> en_running e then
        let e1 = other e
        in if en_heartbeat_running e1 \<and> en_running e1 then heartbeat_loop others (heartbeat_beat e1) else e1
      else e)"

definition engine_start_heartbeat :: "bool \<Rightarrow> engine \<Rightarrow> bool \<times> engine" where
  "engine_start_heartbeat thread_ok e =
     (if \<not> en_framed_mode e then (False, e)
      else if thread_ok then (True, e\<lparr>en_heartbeat_running := True, en_last_pong_time := en_time e\<rparr>)
      else (False, e\<lparr>en_heartbeat_running := False, en_last_pong_time := en_time e\<rparr>))"

definition engine_stop_heartbeat :: "engine \<Rightarrow> engine" where
  "engine_stop_heartbeat e = e\<lparr>en_heartbeat_running := False\<rparr>"

section \<open>Start and end\<close>

text \<open>What the system answers during \<open>engine_init\<close>: the allocations, the socket, the pid of
  \<open>fork\<close> and the pairs of the pipes that could be made.\<close>

record init_env =
  ie_alloc :: bool
  ie_uds :: uds_env
  ie_fork :: int
  ie_pipes :: "(int \<times> int) list"

text \<open>The engine after the first block of assignments, in a world \<open>w\<close>.\<close>

definition engine_fresh :: "bridge_config \<Rightarrow> string \<Rightarrow> bool \<Rightarrow> engine \<Rightarrow> engine" where
  "engine_fresh cfg workspace framed w =
     w\<lparr>en_child_pid := 0, en_stdin_fd := 0, en_stdout_fd := 0, en_stderr_fd := 0,
       en_html := ring_new BRIDGE_BUFFER_SIZE, en_text := ring_new BRIDGE_BUFFER_SIZE,
       en_running := False, en_framed_mode := framed, en_cancelled := False, en_turn_active := False,
       en_turn_event_limited := False, en_socket_connect_timeout_ms := 0, en_hello_timeout_ms := 0,
       en_model_load_timeout_ms := 0, en_turn_response_timeout_ms := 0,
       en_workspace := (if workspace \<noteq> [] then cstr_copy 1024 workspace else ''.''),
       en_nc := nc_init, en_heartbeat_running := False, en_heartbeat_interval_ms := 30000,
       en_heartbeat_timeout_ms := 60000, en_last_pong_time := 0, en_current_request_id := [],
       en_last_session_id := [], en_cfg := cfg\<rparr>"

definition no_pipes :: "engine \<Rightarrow> engine" where
  "no_pipes e = e\<lparr>en_stdin_fd := -1, en_stdout_fd := -1, en_stderr_fd := -1\<rparr>"

definition init_connect :: "init_env \<Rightarrow> string \<Rightarrow> engine \<Rightarrow> int \<times> engine" where
  "init_connect ie socket_path e =
     (case uds_connect (ie_uds ie) socket_path
             (if en_socket_connect_timeout_ms e > 0 then en_socket_connect_timeout_ms e else 30000) of
        (r, acts) \<Rightarrow> (ur_fd r, on_nc (nc_log acts) e))"

definition init_connect_existing :: "init_env \<Rightarrow> string \<Rightarrow> engine \<Rightarrow> bool \<times> engine" where
  "init_connect_existing ie socket_path e =
     (if socket_path = [] then (False, e)
      else case init_connect ie socket_path e of
             (fd, e1) \<Rightarrow>
               if fd < 0 then (False, e1)
               else (True, on_nc (\<lambda>nc. nc_set_state CONN_CONNECTED (nc_set_uds fd 0 nc))
                             ((no_pipes e1)\<lparr>en_child_pid := 0, en_running := True\<rparr>)))"

definition init_launch :: "init_env \<Rightarrow> bool \<Rightarrow> string \<Rightarrow> engine \<Rightarrow> bool \<times> engine" where
  "init_launch ie has_command socket_path e =
     (if \<not> has_command \<or> ie_fork ie < 0 then (False, e)
      else
        let pid = ie_fork ie;
            e1 = (no_pipes e)\<lparr>en_child_pid := pid, en_running := True\<rparr>
        in case init_connect ie socket_path e1 of
             (fd, e2) \<Rightarrow>
               if fd < 0 then
                 (False, (on_nc (nc_log [A_Kill pid, A_Sleep 10, A_Kill pid, A_Wait pid]) e2)
                           \<lparr>en_child_pid := 0, en_running := False\<rparr>)
               else (True, on_nc (\<lambda>nc. nc_set_state CONN_CONNECTED (nc_set_uds fd pid nc)) e2))"

text \<open>On pipes: \<open>pipe\<close> is called until one fails; a failure leaves the earlier pipes open.\<close>

definition init_pipes :: "init_env \<Rightarrow> bool \<Rightarrow> engine \<Rightarrow> bool \<times> engine" where
  "init_pipes ie has_command e =
     (if \<not> has_command then (False, e)
      else case ie_pipes ie of
        (in_r, in_w) # (out_r, out_w) # (err_r, err_w) # _ \<Rightarrow>
          let e1 = on_nc (nc_log [A_Close in_r, A_Close out_w, A_Close err_w]) e
          in if ie_fork ie < 0 then (False, on_nc (nc_log [A_Close in_w, A_Close out_r, A_Close err_r]) e1)
             else (True,
               on_nc (\<lambda>nc. nc_set_state CONN_CONNECTED (nc_set_stdio in_w out_r (ie_fork ie) nc))
                 (e1\<lparr>en_child_pid := ie_fork ie, en_stdin_fd := in_w, en_stdout_fd := out_r,
                     en_stderr_fd := err_r, en_running := True\<rparr>))
      | _ \<Rightarrow> (False, e))"

definition engine_init ::
    "init_env \<Rightarrow> bridge_config \<Rightarrow> bool \<Rightarrow> string \<Rightarrow> bool \<Rightarrow> string \<Rightarrow> string \<Rightarrow> string \<Rightarrow> engine \<Rightarrow> bool \<times> engine" where
  "engine_init ie cfg has_command workspace framed transport socket_path owner_mode w =
     (let e = engine_fresh cfg workspace framed w
      in if \<not> ie_alloc ie then (False, e)
         else if transport = ''uds'' \<and> owner_mode = ''connect_existing'' then
           init_connect_existing ie socket_path e
         else if transport = ''uds'' then init_launch ie has_command socket_path e
         else init_pipes ie has_command e)"

text \<open>\<open>engine_destroy\<close>; \<open>polls\<close> is how many times \<open>waitpid\<close> finds the child still running.\<close>

definition shutdown_json :: string where
  \<open>shutdown_json = ''{"type":"shutdown","reason":"bridge_exit"}''\<close>

definition destroy_handshake :: "engine \<Rightarrow> engine" where
  "destroy_handshake e =
     (if en_framed_mode e \<and> en_stdin_fd e > 0 then snd (engine_exchange shutdown_json 5000 e) else e)"

definition destroy_reap :: "nat \<Rightarrow> engine \<Rightarrow> engine" where
  "destroy_reap polls e =
     (if en_child_pid e > 0 then on_nc (nc_log (replicate (min polls 10) (A_Sleep 50))) e else e)"

definition destroy_fds :: "engine \<Rightarrow> int list" where
  "destroy_fds e = filter (\<lambda>fd. fd > 0) [en_stdin_fd e, en_stdout_fd e, en_stderr_fd e]"

definition engine_destroy :: "nat \<Rightarrow> engine \<Rightarrow> engine" where
  "engine_destroy polls e =
     (let e1 = destroy_reap polls (destroy_handshake (e\<lparr>en_running := False\<rparr>));
          e2 = on_nc (nc_log (map A_Close (destroy_fds e1))) e1
      in on_nc nc_close ((no_pipes e2)\<lparr>en_child_pid := 0\<rparr>))"

text \<open>The start of the framed protocol in \<^verbatim>\<open>main\<close>: hello, the agent's hello, ready, heartbeat.\<close>

definition framed_start :: "nat \<Rightarrow> bool \<Rightarrow> string \<Rightarrow> engine \<Rightarrow> bool \<times> engine" where
  "framed_start polls thread_ok workspace e =
     (case engine_send_hello workspace e of
        (False, e1) \<Rightarrow> (False, engine_destroy polls e1)
      | (True, e1) \<Rightarrow>
          (case engine_read_native_hello e1 of
             (False, e2) \<Rightarrow> (False, engine_destroy polls e2)
           | (True, e2) \<Rightarrow>
               (case engine_wait_for_ready e2 of
                  (False, e3) \<Rightarrow> (False, engine_destroy polls e3)
                | (True, e3) \<Rightarrow> (True, snd (engine_start_heartbeat thread_ok e3)))))"

section \<open>Facts about frames on a connection\<close>

definition link_up :: "engine \<Rightarrow> bool" where
  "link_up e =
     (0 \<le> nc_read_fd (en_nc e) \<and> 0 \<le> nc_write_fd (en_nc e) \<and> nc_transport (en_nc e) \<noteq> TRANSPORT_NONE
      \<and> en_framed_mode e \<and> en_wr e = [] \<and> (\<forall>n. en_malloc e n))"

text \<open>A frame of the agent that arrives in one piece.\<close>

definition agent_says :: "string \<Rightarrow> io" where
  "agent_says f = Read_Data (frame_encode f)"

definition sayable :: "string \<Rightarrow> bool" where
  "sayable f = (f \<noteq> [] \<and> length f \<le> FRAME_MAX_PAYLOAD \<and> CHR 0x00 \<notin> set f)"

lemma c_str_sayable: "sayable f \<Longrightarrow> c_str f = f"
  by (auto simp: sayable_def c_str_def takeWhile_eq_all_conv)

lemma frame_read_whole:
  assumes "0 < d" and "sayable f" and "m (length f + 1)"
  shows "frame_read m d (agent_says f # es) = (Frame f, es)"
proof -
  have dec: "le32_decode (le32_encode (length f)) = length f"
    using assms(2) by (intro le32_round) (simp add: sayable_def FRAME_MAX_PAYLOAD_def)
  have h: "read_all_deadline 4 d (agent_says f # es) = ((RBytes (le32_encode (length f)), False), Read_Data f # es)"
    using assms by (simp add: read_all_deadline_def agent_says_def frame_encode_def sayable_def Let_def)
  have p: "read_all_deadline (length f) k (Read_Data f # es) = ((RBytes f, False), es)" if "0 \<le> k" for k
    using assms(2) that by (simp add: read_all_deadline_def sayable_def Let_def)
  show ?thesis
    using assms h dec p [of "max 0 (d - 10)"]
    by (simp add: frame_read_def frame_read_payload_def Let_def sayable_def)
qed

lemma nc_read_whole:
  assumes "link_up e" and "0 < d" and "sayable f"
  shows "nc_read_frame_timeout (en_malloc e) (en_nc e) d (agent_says f # es) = (Frame f, es)"
  using assms frame_read_whole [of d f "en_malloc e" es]
  by (auto simp: nc_read_frame_timeout_def link_up_def uds_frame_read_def split: transport_type.splits)

definition sent :: "bytes \<Rightarrow> engine \<Rightarrow> engine" where
  "sent data e = e\<lparr>en_out := en_out e @ frame_encode data, en_frames := en_frames e @ [data]\<rparr>"

lemma write_frame_connected:
  assumes "link_up e" and "data \<noteq> []" and "length data \<le> FRAME_MAX_PAYLOAD"
  shows "write_frame_ok data e = (True, sent data e)"
proof -
  have w: "frame_write [] data = (True, frame_encode data, [])"
    using assms by (simp add: frame_write_def FRAME_MAX_PAYLOAD_def frame_encode_def)
  have "nc_write_frame (en_nc e) [] data = (True, frame_encode data, [])"
    using assms w by (auto simp: nc_write_frame_def link_up_def uds_frame_write_def split: transport_type.splits)
  then show ?thesis using assms by (simp add: write_frame_ok_def sent_def link_up_def)
qed

lemma engine_write_connected:
  "link_up e \<Longrightarrow> data \<noteq> [] \<Longrightarrow> length data \<le> FRAME_MAX_PAYLOAD \<Longrightarrow> engine_write_frame data e = sent data e"
  by (simp add: engine_write_frame_def write_frame_connected)

lemma link_up_simps [simp]:
  "link_up (sent data e) \<longleftrightarrow> link_up e"
  "link_up (e\<lparr>en_in := es\<rparr>) \<longleftrightarrow> link_up e"
  "link_up (e\<lparr>en_cancelled := b\<rparr>) \<longleftrightarrow> link_up e"
  "link_up (e\<lparr>en_turn_active := b\<rparr>) \<longleftrightarrow> link_up e"
  "link_up (e\<lparr>en_current_request_id := rid\<rparr>) \<longleftrightarrow> link_up e"
  "link_up (e\<lparr>en_last_session_id := rid\<rparr>) \<longleftrightarrow> link_up e"
  "link_up (e\<lparr>en_ping_seq := n\<rparr>) \<longleftrightarrow> link_up e"
  "link_up (on_sessions f e) \<longleftrightarrow> link_up e"
  "link_up (on_nc (nc_set_state st) e) \<longleftrightarrow> link_up e"
  by (simp_all add: link_up_def sent_def on_sessions_def on_nc_def nc_set_state_def)

lemma sent_sel [simp]:
  "en_in (sent data e) = en_in e" "en_nc (sent data e) = en_nc e" "en_frames (sent data e) = en_frames e @ [data]"
  "en_sessions (sent data e) = en_sessions e" "en_time (sent data e) = en_time e"
  "en_framed_mode (sent data e) = en_framed_mode e" "en_cfg (sent data e) = en_cfg e"
  "en_cancelled (sent data e) = en_cancelled e" "en_malloc (sent data e) = en_malloc e"
  by (simp_all add: sent_def)

lemma on_nc_sel [simp]:
  "en_in (on_nc f e) = en_in e" "en_frames (on_nc f e) = en_frames e" "en_nc (on_nc f e) = f (en_nc e)"
  "en_sessions (on_nc f e) = en_sessions e" "en_framed_mode (on_nc f e) = en_framed_mode e"
  by (simp_all add: on_nc_def)

lemma engine_read_says:
  assumes "link_up e" and "0 < d" and "sayable f" and "en_in e = agent_says f # es"
  shows "engine_read_frame_timeout d e = (Frame f, e\<lparr>en_in := es\<rparr>)"
  using nc_read_whole [OF assms(1-3), of es] assms
  by (simp add: engine_read_frame_timeout_def link_up_def)

lemma engine_exchange_says:
  assumes "link_up e" and "0 < d" and "sayable f" and "en_in e = agent_says f # es"
    and "json \<noteq> []" and "length json \<le> FRAME_MAX_PAYLOAD"
  shows "engine_exchange json d e = (Some f, (sent json e)\<lparr>en_in := es\<rparr>)"
  using assms engine_read_says [of "sent json e" d f es]
  by (simp add: engine_exchange_def engine_write_connected c_str_sayable)

text \<open>A read with a deadline comes back: it never waits for ever.\<close>

lemma read_poll_loop_returns: "\<exists>x t es'. read_poll_loop d r count buf es = ((x, t), es') \<and> x \<noteq> RBlocked"
proof (induction d r count buf es rule: read_poll_loop.induct)
  case (1 deadline remaining count buf)
  then show ?case by auto
next
  case (2 deadline remaining count buf e es)
  then show ?case by (cases e) (auto simp: Let_def)
qed

lemma frame_read_not_blocked:
  assumes "0 \<le> d"
  shows "fst (frame_read m d es) \<noteq> Frame_Blocked"
proof -
  have r: "fst (fst (read_all_deadline n k es)) \<noteq> RBlocked" if "0 \<le> k" for n k es
    using read_poll_loop_returns [of k k n "[]" es] that by (auto simp: read_all_deadline_def)
  have p: "fst (frame_read_payload m n d es) \<noteq> Frame_Blocked" for n es
    using r [of "if d > 0 then max 0 (d - 10) else d" n es] assms
    by (auto simp: frame_read_payload_def Let_def split: prod.splits rres.splits)
  show ?thesis using r [of d 4 es] assms p
    by (auto simp: frame_read_def Let_def split: prod.splits rres.splits)
qed

lemma not_blocked: "0 \<le> d \<Longrightarrow> fst (engine_read_frame_timeout d e) \<noteq> Frame_Blocked"
  using frame_read_not_blocked [of d "en_malloc e" "en_in e"]
  by (auto simp: engine_read_frame_timeout_def nc_read_frame_timeout_def uds_frame_read_def Let_def
      split: prod.splits transport_type.splits)

section \<open>Properties\<close>

lemma length_show_nat_limit: "length (show_nat BRIDGE_MAX_FRAME_BYTES) = 8"
  by (simp add: BRIDGE_MAX_FRAME_BYTES_def show_nat_def show_base.simps)

lemma hello_frame_nonempty [simp]: "hello_frame ws \<noteq> []"
  by (simp add: hello_frame_def)

lemma send_hello_connected:
  assumes "link_up e" and "length (hello_frame ws) < 4096"
  shows "engine_send_hello ws e = (True, on_nc (nc_set_state CONN_HANDSHAKING) (sent (hello_frame ws) e))"
  using assms
  by (simp add: engine_send_hello_def write_frame_connected FRAME_MAX_PAYLOAD_def)
    (simp add: link_up_def)

lemma read_hello_says:
  assumes "link_up e" and "sayable h" and "en_in e = agent_says h # es"
  shows "engine_read_native_hello e = hello_received h (e\<lparr>en_in := es\<rparr>)"
  using assms nc_read_whole [of e "if en_hello_timeout_ms e > 0 then en_hello_timeout_ms e else 10000" h es]
  by (simp add: engine_read_native_hello_def link_up_def c_str_sayable)

lemma wait_ready_says:
  assumes "link_up e" and "sayable r" and "en_in e = agent_says r # es" and "ready_fault r = None"
  shows "engine_wait_for_ready e = (True, on_nc (nc_set_state CONN_READY) (e\<lparr>en_in := es\<rparr>))"
  using assms nc_read_whole [of e "if en_model_load_timeout_ms e > 0 then en_model_load_timeout_ms e else 120000" r es]
  by (simp add: engine_wait_for_ready_def link_up_def c_str_sayable)

lemma wait_ready_refuses:
  assumes "link_up e" and "sayable r" and "en_in e = agent_says r # es" and "ready_fault r \<noteq> None"
  shows "\<not> fst (engine_wait_for_ready e)"
  using assms nc_read_whole [of e "if en_model_load_timeout_ms e > 0 then en_model_load_timeout_ms e else 120000" r es]
  by (auto simp: engine_wait_for_ready_def link_up_def c_str_sayable)

lemma hello_fault_version: "hello_fault s = None \<Longrightarrow> hello_version s = 1"
  by (auto simp: hello_fault_def split: if_splits)


text \<open>An engine in framed mode on a Unix socket, in a world with the given input.\<close>

definition some_config :: bridge_config where
  "some_config = (init_global_config 8080)
     \<lparr>cf_codex_model := ''m'', cf_use_framed_protocol := True, cf_auto_load_resume_session := False,
      cf_auto_save_kv_cache := False, cf_auto_load_project_session := False, cf_context_tokens := 100000,
      cf_max_history_entries := 10, cf_max_turn_events := 100\<rparr>"

lemma some_config_sel [simp]:
  "cf_codex_model some_config = ''m''" "cf_auto_save_kv_cache some_config = False"
  "cf_auto_load_project_session some_config = False" "cf_auto_load_resume_session some_config = False"
  "cf_context_tokens some_config = 100000" "cf_hide_tool_transcripts some_config = True"
  "cf_response_timeout_ms some_config = 60000" "cf_max_turn_events some_config = 100"
  "cf_shell_command_enabled some_config = False" "cf_kv_cache_dir some_config = []" "cf_max_history_entries some_config = 10"
  by (simp_all add: some_config_def init_global_config_def)

definition socket_engine :: "io list \<Rightarrow> engine" where
  "socket_engine es =
     \<lparr>en_child_pid = 0, en_stdin_fd = -1, en_stdout_fd = -1, en_stderr_fd = -1,
      en_html = ring_new BRIDGE_BUFFER_SIZE, en_text = ring_new BRIDGE_BUFFER_SIZE, en_running = True,
      en_framed_mode = True, en_cancelled = False, en_turn_active = False, en_turn_event_limited = False,
      en_socket_connect_timeout_ms = 0, en_hello_timeout_ms = 0, en_model_load_timeout_ms = 0,
      en_turn_response_timeout_ms = 0, en_workspace = ''/w'', en_nc = nc_set_uds 5 0 nc_init,
      en_heartbeat_running = False, en_heartbeat_interval_ms = 30000, en_heartbeat_timeout_ms = 60000,
      en_last_pong_time = 0, en_current_request_id = [], en_last_session_id = [], en_cfg = some_config,
      en_in = es, en_wr = [], en_out = [], en_frames = [], en_malloc = \<lambda>_. True, en_time = 7, en_nsec = 0,
      en_health_seq = 0, en_ping_seq = 0, en_sessions = sessions_init None True\<rparr>"

lemma link_up_socket: "link_up (socket_engine es)"
  by (simp add: link_up_def socket_engine_def nc_set_uds_def nc_init_def)

lemma socket_engine_sel [simp]:
  "en_in (socket_engine es) = es" "en_frames (socket_engine es) = []"
  "en_sessions (socket_engine es) = sessions_init None True"
  by (simp_all add: socket_engine_def)

definition good_hello :: string where
  \<open>good_hello = ''{"type":"hello","role":"native_agent","protocol_version":1,"agent_name":"a",''
     @ ''"agent_version":"1","supported_transports":["uds"]}''\<close>

definition good_ready :: string where
  \<open>good_ready = ''{"type":"ready","status":"ready","model_loaded":true}''\<close>

lemma good_frames:
  "hello_fault good_hello = None" "\<not> limit_too_small good_hello" "ready_fault good_ready = None"
  "sayable good_hello" "sayable good_ready"
  by (simp_all add: good_hello_def good_ready_def hello_fault_def limit_too_small_def hello_frame_limit_def
      ready_fault_def contains_def hello_version_def skip_blanks_def is_digit_def cval_def sayable_def
      FRAME_MAX_PAYLOAD_def)


section \<open>Control frames need a pipe\<close>

text \<open>Cancel, error and shutdown look at \<open>stdin_fd\<close>, which is \<open>-1\<close> on a socket.\<close>

lemma no_stdin_silent:
  assumes "en_stdin_fd e \<le> 0"
  shows "engine_send_error ty detail e = e" and "en_out (engine_cancel e) = en_out e"
    and "en_out (engine_destroy polls e) = en_out e"
  using assms
  by (simp_all add: engine_send_error_def engine_cancel_def engine_destroy_def destroy_handshake_def destroy_reap_def
      Let_def on_nc_def no_pipes_def)

lemma init_uds_stdin:
  assumes "engine_init ie cfg has_command ws framed ''uds'' path owner w = (True, e)"
  shows "en_stdin_fd e = -1" and "en_out e = en_out w" and "en_stdout_fd e = -1" and "en_stderr_fd e = -1"
  using assms
  by (auto simp: engine_init_def init_connect_existing_def init_launch_def init_connect_def no_pipes_def
      on_nc_def engine_fresh_def Let_def split: if_splits prod.splits)

text \<open>On a Unix socket the agent is never told: neither a cancellation nor an error nor
  the shutdown puts a single byte on the connection, because all three ask for a pipe to the
  agent's standard input. The cancellation still takes effect in the bridge.\<close>

theorem socket_control_silent:
  assumes "engine_init ie cfg has_command ws framed ''uds'' path owner w = (True, e)"
  shows "en_out (engine_cancel e) = en_out w \<and> en_cancelled (engine_cancel e)
    \<and> en_out (engine_send_error ty detail e) = en_out w \<and> en_out (engine_destroy polls e) = en_out w"
  using init_uds_stdin [OF assms] no_stdin_silent [of e]
  by (simp add: engine_cancel_def Let_def)

definition socket_env :: init_env where
  "socket_env = \<lparr>ie_alloc = True,
     ie_uds = \<lparr>ue_socket = 5, ue_flags_ok = True, ue_connect1 = C_Ok, ue_stat = \<lambda>_. True,
               ue_connect2 = C_Ok, ue_poll = P_Ready, ue_so = SO_Ok\<rparr>,
     ie_fork = 100, ie_pipes = [(10, 11), (12, 13), (14, 15)]\<rparr>"

theorem socket_control_silent_witness:
  "en_out (engine_cancel (snd (engine_init socket_env some_config True ''/w'' True ''uds'' ''/s''
      ''connect_existing'' (socket_engine [])))) = []"
proof -
  let ?i = "engine_init socket_env some_config True ''/w'' True ''uds'' ''/s'' ''connect_existing'' (socket_engine [])"
  have "?i = (True, snd ?i)"
    by (simp add: engine_init_def socket_env_def init_connect_existing_def init_connect_def uds_connect_def
        uds_give_def Let_def engine_fresh_def)
  from socket_control_silent [OF this] show ?thesis by (simp add: socket_engine_def)
qed

section \<open>Descriptors at the end\<close>

lemma engine_write_frame_nc: "en_nc (engine_write_frame j e) = en_nc e"
  by (simp add: engine_write_frame_def write_frame_ok_def split: prod.splits)

lemma engine_write_frame_fds:
  "en_stdin_fd (engine_write_frame j e) = en_stdin_fd e" "en_stdout_fd (engine_write_frame j e) = en_stdout_fd e"
  "en_stderr_fd (engine_write_frame j e) = en_stderr_fd e"
  by (simp_all add: engine_write_frame_def write_frame_ok_def split: prod.splits)

lemma engine_exchange_fds:
  "en_nc (snd (engine_exchange j d e)) = en_nc e" "en_stdin_fd (snd (engine_exchange j d e)) = en_stdin_fd e"
  "en_stdout_fd (snd (engine_exchange j d e)) = en_stdout_fd e"
  "en_stderr_fd (snd (engine_exchange j d e)) = en_stderr_fd e"
  by (simp_all add: engine_exchange_def engine_read_frame_timeout_def engine_send_error_def
      engine_write_frame_nc engine_write_frame_fds Let_def split: prod.splits)

lemma closes_replicate_sleep [simp]: "closes (replicate n (A_Sleep k)) = []"
  by (induction n) simp_all

lemma closes_map_close [simp]: "closes (map A_Close fds) = fds"
  by (induction fds) simp_all

lemma destroy_handshake_fds:
  "en_nc (destroy_handshake e) = en_nc e" "destroy_fds (destroy_handshake e) = destroy_fds e"
  by (simp_all add: destroy_handshake_def destroy_fds_def engine_exchange_fds)

lemma nc_log_closes:
  "closes (nc_acts (nc_log acts nc)) = closes (nc_acts nc) @ closes acts"
  "nc_close_acts (nc_log acts nc) = nc_close_acts nc"
  "closes (nc_acts (nc_close nc)) = closes (nc_acts nc) @ closes (nc_close_acts nc)"
  by (simp_all add: nc_log_def nc_close_def) (simp add: nc_close_acts_def)

lemma destroy_reap_fds:
  "closes (nc_acts (en_nc (destroy_reap polls e))) = closes (nc_acts (en_nc e))"
  "nc_close_acts (en_nc (destroy_reap polls e)) = nc_close_acts (en_nc e)"
  "destroy_fds (destroy_reap polls e) = destroy_fds e"
  by (simp_all add: destroy_reap_def nc_log_closes) (simp add: destroy_fds_def on_nc_def)

lemma destroy_closes:
  "closes (nc_acts (en_nc (engine_destroy polls e))) =
     closes (nc_acts (en_nc e)) @ destroy_fds e @ closes (nc_close_acts (en_nc e))"
proof -
  have "destroy_fds (e\<lparr>en_running := False\<rparr>) = destroy_fds e" by (simp add: destroy_fds_def)
  then show ?thesis
    by (simp add: engine_destroy_def Let_def no_pipes_def nc_log_closes destroy_reap_fds destroy_handshake_fds)
qed

lemma init_pipes_fds:
  assumes "engine_init ie cfg True ws framed transport path owner w = (True, e)" and "transport \<noteq> ''uds''"
    and "ie_pipes ie = [(in_r, in_w), (out_r, out_w), (err_r, err_w)]"
  shows "en_stdin_fd e = in_w" "en_stdout_fd e = out_r" "en_stderr_fd e = err_r"
    and "en_nc e = nc_set_stdio in_w out_r (ie_fork ie) (nc_log [A_Close in_r, A_Close out_w, A_Close err_w] nc_init)"
  using assms
  by (auto simp: engine_init_def init_pipes_def Let_def nc_set_stdio_def nc_set_state_def on_nc_def
      engine_fresh_def split: if_splits)

text \<open>Ending an engine that runs on pipes closes both of its connection's descriptors
  twice, once as the engine's and once as the connection's; by then another thread may own them.\<close>

theorem destroy_closes_pipes_twice:
  assumes "engine_init ie cfg True ws framed transport path owner w = (True, e)" and "transport \<noteq> ''uds''"
    and "ie_pipes ie = [(in_r, in_w), (out_r, out_w), (err_r, err_w)]"
    and "0 < in_w" and "0 < out_r" and "0 < err_r" and "in_w \<noteq> out_r"
  shows "closes (nc_acts (en_nc (engine_destroy polls e))) =
    [in_r, out_w, err_w] @ [in_w, out_r, err_r] @ [out_r, in_w]"
  using assms(4-7)
  by (simp add: destroy_closes destroy_fds_def init_pipes_fds [OF assms(1-3)] nc_set_stdio_def nc_log_def
      nc_close_acts_def nc_init_def)

theorem destroy_closes_pipes_twice_witness:
  "closes (nc_acts (en_nc (engine_destroy 0 (snd (engine_init socket_env some_config True ''/w'' True ''stdio''
      ''/s'' [] (socket_engine [])))))) = [10, 13, 15, 11, 12, 14, 12, 11]"
proof -
  let ?i = "engine_init socket_env some_config True ''/w'' True ''stdio'' ''/s'' [] (socket_engine [])"
  have "?i = (True, snd ?i)" by (simp add: engine_init_def socket_env_def init_pipes_def Let_def)
  from destroy_closes_pipes_twice [OF this, of 10 11 12 13 14 15 0] show ?thesis
    by (simp add: socket_env_def)
qed

section \<open>Answers of the agent\<close>

lemma save_index_entries: "index_entries (snd (save_session_index sx)) = index_entries sx"
  by (simp add: save_session_index_def index_entries_def)

lemma save_index_lookup: "session_index_lookup (snd (save_session_index sx)) k = session_index_lookup sx k"
  by (simp add: session_index_lookup_def save_index_entries)

lemma state_request_says:
  assumes "link_up e" and "sayable ack" and "en_in e = agent_says ack # es"
    and "json \<noteq> []" and "length json < buf_max" and "buf_max \<le> FRAME_MAX_PAYLOAD"
  shows "state_request buf_max json on_ack e = (ack_accepted ack, on_ack ack ((sent json e)\<lparr>en_in := es\<rparr>))"
  using assms engine_exchange_says [of e 10000 ack es json]
  by (simp add: state_request_def link_up_def)

lemma record_state_lookup:
  assumes "ack_state_id ack = Some sid" and "index_ok (en_sessions e)" and "length key < 256"
    and "sx_count (en_sessions e) < SESSION_INDEX_MAX_ENTRIES"
  shows "session_index_lookup (en_sessions (record_state key proj model budget ack e)) k =
    (if k = key then Some (cstr_copy 128 sid) else session_index_lookup (en_sessions e) k)"
  using assms si.lookup_same [of "en_sessions e" key "en_time e" sid proj model budget]
    si.lookup_other [of "en_sessions e" key k "en_time e" sid proj model budget]
    si.put_room [of "en_sessions e" "en_time e" key sid proj model budget]
  by (simp add: record_state_def on_sessions_def save_index_lookup)

text \<open>When a new session state is requested, the state id of the agent's answer is what
  the index holds for the session from then on, and nothing else in the index changes. This is
  so even when the answer is a rejection, which only the result tells.\<close>

theorem created_state_indexed:
  assumes "link_up e" and "sayable ack" and "en_in e = agent_says ack # es" and "ack_state_id ack = Some sid"
    and "index_ok (en_sessions e)" and "length key < 256"
    and "sx_count (en_sessions e) < SESSION_INDEX_MAX_ENTRIES"
    and "length (create_state_json key proj model budget metadata) < 1536"
  shows "case engine_create_session_state key proj model budget metadata e of (accepted, e') \<Rightarrow>
    accepted = ack_accepted ack
    \<and> (\<forall>k. session_index_lookup (en_sessions e') k =
           (if k = key then Some (cstr_copy 128 sid) else session_index_lookup (en_sessions e) k))"
proof -
  have "create_state_json key proj model budget metadata \<noteq> []" by (simp add: create_state_json_def)
  then show ?thesis
    using assms state_request_says [of e ack es "create_state_json key proj model budget metadata" 1536]
      record_state_lookup [of ack sid _ key proj model budget]
    by (simp add: engine_create_session_state_def FRAME_MAX_PAYLOAD_def)
qed

definition rejecting_ack :: string where
  \<open>rejecting_ack = ''{"type":"ack","status":"error","state_id":"s9"}''\<close>

theorem created_state_indexed_witness:
  "case engine_create_session_state ''k'' ''/w'' ''m'' 10 ''{}'' (socket_engine [agent_says rejecting_ack]) of
     (accepted, e') \<Rightarrow> \<not> accepted \<and> session_index_lookup (en_sessions e') ''k'' = Some ''s9''"
proof -
  have a: "sayable rejecting_ack" "ack_state_id rejecting_ack = Some ''s9''" "\<not> ack_accepted rejecting_ack"
    by (simp_all add: rejecting_ack_def sayable_def FRAME_MAX_PAYLOAD_def ack_state_id_def ack_accepted_def
        contains_def)
  have s: "index_ok (sessions_init None True)" "sx_count (sessions_init None True) < SESSION_INDEX_MAX_ENTRIES"
    by (simp_all add: index_ok_init) (simp add: sessions_init_def SESSION_INDEX_MAX_ENTRIES_def)
  have "length (create_state_json ''k'' ''/w'' ''m'' 10 ''{}'') < 1536"
    using json_escape_bound [of 256 "''k''"] json_escape_bound [of 512 "''/w''"] json_escape_bound [of 256 "''m''"]
    by (simp add: create_state_json_def show_int_def show_nat_def show_base.simps)
  then show ?thesis
    using created_state_indexed [of "socket_engine [agent_says rejecting_ack]" rejecting_ack "[]" "''s9''" "''k''"
        "''/w''" "''m''" 10 "''{}''"] link_up_socket a s
    by (simp add: cstr_copy_fits split: prod.splits)
qed

lemma frame_read_silent: "0 \<le> d \<Longrightarrow> frame_read m d [] = (Frame_Error ''timeout'', [])"
  by (simp add: frame_read_def read_all_deadline_def)

lemma engine_read_silent:
  assumes "link_up e" and "0 \<le> d" and "en_in e = []"
  shows "engine_read_frame_timeout d e = (Frame_Error ''timeout'', e)"
  using assms frame_read_silent [of d "en_malloc e"]
  by (auto simp: engine_read_frame_timeout_def nc_read_frame_timeout_def link_up_def uds_frame_read_def Let_def
      split: transport_type.splits)

lemma ex_less_Suc_conv: "(\<exists>i < Suc n. P i) \<longleftrightarrow> P 0 \<or> (\<exists>i < n. P (Suc i))"
  by (metis less_Suc_eq_0_disj)

lemma wait_pong_frames:
  "link_up e \<Longrightarrow> list_all sayable fs \<Longrightarrow> en_in e = map agent_says fs \<Longrightarrow>
   fst (wait_pong_loop r e) \<longleftrightarrow> (\<exists>i < length fs. pong_ok (fs ! i) \<and> 100 * int i < r)"
proof (induction fs arbitrary: e r)
  case Nil
  then show ?case by (subst wait_pong_loop.simps) (simp add: engine_read_silent)
next
  case (Cons f fs)
  show ?case
  proof (cases "0 < r")
    case False
    then show ?thesis by (subst wait_pong_loop.simps) auto
  next
    case True
    have rd: "engine_read_frame_timeout r e = (Frame f, e\<lparr>en_in := map agent_says fs\<rparr>)"
      using Cons.prems True by (intro engine_read_says) simp_all
    have ih: "fst (wait_pong_loop (r - 100) (e\<lparr>en_in := map agent_says fs\<rparr>)) \<longleftrightarrow>
        (\<exists>i < length fs. pong_ok (fs ! i) \<and> 100 * int i < r - 100)"
      using Cons.prems by (intro Cons.IH) simp_all
    have arith: "100 * int i < r - 100 \<longleftrightarrow> 100 * int (Suc i) < r" for i
      by arith
    show ?thesis
      using True Cons.prems(2) rd ih
      by (subst wait_pong_loop.simps) (simp add: c_str_sayable ex_less_Suc_conv arith del: of_nat_Suc)
  qed
qed

text \<open>Waiting for a pong succeeds exactly when one is among the frames that arrive
  before the budget is used up; every other frame costs a nominal 100 milliseconds and is lost.\<close>

theorem wait_pong_iff:
  assumes "link_up e" and "list_all sayable fs" and "en_in e = map agent_says fs"
  shows "fst (engine_wait_pong timeout_ms e) \<longleftrightarrow>
    (\<exists>i < length fs. pong_ok (fs ! i) \<and> 100 * int i < timeout_ms)"
  using wait_pong_frames [OF assms] assms(1) by (simp add: engine_wait_pong_def link_up_def)

definition late_pong :: string where
  \<open>late_pong = ''{"type":"pong","status":"ok"}''\<close>

theorem wait_pong_iff_witness:
  "\<not> fst (engine_wait_pong 250 (socket_engine (map agent_says
       [''a'', ''b'', ''c'', late_pong])))"
proof -
  have "\<not> pong_ok ''a''" "\<not> pong_ok ''b''" "\<not> pong_ok ''c''" by (simp_all add: pong_ok_def contains_def)
  then show ?thesis
    using wait_pong_iff [of "socket_engine (map agent_says [''a'', ''b'', ''c'', late_pong])"
        "[''a'', ''b'', ''c'', late_pong]" 250] link_up_socket
    by (simp add: late_pong_def sayable_def FRAME_MAX_PAYLOAD_def ex_less_Suc_conv)
qed

end
