(* ===== verification/Log_Lines.thy ===== *)
theory Log_Lines
  imports Bridge_Engine
begin

text \<open>
  The output of the agent on its way to the user interface (\<^verbatim>\<open>src/bridge_core.c\<close>, first part):
  escaping for HTML, the formatting of one log line with its \<open>sscanf\<close> patterns for compiler
  messages, and the thread that cuts the byte stream into lines.

  Arguments of \<open>%d\<close> are integers without bound; a number beyond \<open>int\<close> is undefined in C.
\<close>

section \<open>Escaping\<close>

definition html_rep :: "char \<Rightarrow> string option" where
  "html_rep c =
     (if c = CHR ''<'' then Some ''&lt;'' else if c = CHR ''>'' then Some ''&gt;''
      else if c = CHR ''&'' then Some ''&amp;'' else if c = dquote then Some ''&quot;'' else None)"

fun html_loop :: "nat \<Rightarrow> nat \<Rightarrow> string \<Rightarrow> string" where
  "html_loop max_len out [] = []"
| "html_loop max_len out (c # s) =
     (if \<not> out + 1 < max_len then []
      else case html_rep c of
        Some rep \<Rightarrow>
          (if out + length rep \<ge> max_len then [] else rep @ html_loop max_len (out + length rep) s)
      | None \<Rightarrow> c # html_loop max_len (out + 1) s)"

definition bridge_html_escape :: "string \<Rightarrow> nat \<Rightarrow> string" where
  "bridge_html_escape src max_len = html_loop max_len 0 src"

section \<open>The scanner\<close>

text \<open>\<open>%n[^c]\<close>, a literal, blanks, \<open>%d\<close>.\<close>

definition scan_until :: "nat \<Rightarrow> char \<Rightarrow> string \<Rightarrow> (string \<times> string) option" where
  "scan_until n stop s =
     (let w = take n (takeWhile (\<lambda>c. c \<noteq> stop) s) in if w = [] then None else Some (w, drop (length w) s))"

definition scan_lit :: "string \<Rightarrow> string \<Rightarrow> string option" where
  "scan_lit p s = (if prefix p s then Some (drop (length p) s) else None)"

definition scan_blanks :: "string \<Rightarrow> string" where
  "scan_blanks s = dropWhile is_space s"

definition scan_int :: "string \<Rightarrow> (int \<times> string) option" where
  "scan_int s =
     (let s1 = scan_blanks s;
          sign = (case s1 of c # _ \<Rightarrow> if c = CHR ''-'' then -1 else 1 | [] \<Rightarrow> 1);
          s2 = (case s1 of c # t \<Rightarrow> if c = CHR ''-'' \<or> c = CHR ''+'' then t else s1 | [] \<Rightarrow> s1);
          ds = takeWhile is_digit s2
      in if ds = [] then None else Some (sign * digits_value 0 ds, drop (length ds) s2))"

text \<open>The tail \<open>": word: %2047[^\n]"\<close> of a pattern; the message stays empty when it does not fit.\<close>

definition scan_message :: "string \<Rightarrow> string \<Rightarrow> string" where
  "scan_message word s =
     (case scan_lit '':'' s of
        None \<Rightarrow> []
      | Some s1 \<Rightarrow>
          (case scan_lit (word @ '':'') (scan_blanks s1) of
             None \<Rightarrow> []
           | Some s2 \<Rightarrow> (case scan_until 2047 (CHR 0x0A) (scan_blanks s2) of None \<Rightarrow> [] | Some (m, _) \<Rightarrow> m)))"

text \<open>\<open>file:line\<close>, then for an error \<open>:column\<close>; that many conversions are all that is required.\<close>

definition scan_position :: "string \<Rightarrow> (string \<times> int \<times> string) option" where
  "scan_position s =
     (case scan_until 511 (CHR '':'') s of
        None \<Rightarrow> None
      | Some (file, s1) \<Rightarrow>
          Option.bind (scan_lit '':'' s1) (\<lambda>s2. map_option (\<lambda>(n, s3). (file, n, s3)) (scan_int s2)))"

definition scan_error :: "string \<Rightarrow> (string \<times> int \<times> int \<times> string) option" where
  "scan_error s =
     Option.bind (scan_position s) (\<lambda>(file, line, s1).
       Option.bind (scan_lit '':'' s1) (\<lambda>s2.
         map_option (\<lambda>(col, s3). (file, line, col, scan_message ''error'' s3)) (scan_int s2)))"

definition scan_warning :: "string \<Rightarrow> (string \<times> int \<times> string) option" where
  "scan_warning s = map_option (\<lambda>(file, line, s1). (file, line, scan_message ''warning'' s1)) (scan_position s)"

section \<open>Log rows\<close>

definition sq :: "string \<Rightarrow> string" where "sq s = [CHR 0x27] @ s @ [CHR 0x27]"

text \<open>The link is built from the file name as it is.\<close>

definition log_href :: "string \<Rightarrow> string \<Rightarrow> string \<Rightarrow> string" where
  "log_href workspace file pos =
     cstr_copy 2048
       (''vscode://file'' @ (if take 1 file = ''/'' then [] else or_else workspace ''.'' @ ''/'') @ file @ '':'' @ pos)"

definition log_row :: "string \<Rightarrow> string \<Rightarrow> string \<Rightarrow> string \<Rightarrow> string \<Rightarrow> string \<Rightarrow> string" where
  "log_row kind label href file pos message =
     ''<div class='' @ sq (''log-row compiler-'' @ kind) @ ''><a class='' @ sq ''log-link'' @ '' href='' @ sq href
     @ ''><span class='' @ sq (''log-indicator badge-'' @ kind) @ ''>'' @ label
     @ ''</span></a> <span class='' @ sq ''log-text'' @ ''><strong>'' @ file @ '':'' @ pos
     @ ''</strong> - '' @ message @ ''</span></div>'' @ [CHR 0x0A]"

definition bridge_format_log_line :: "string \<Rightarrow> string \<Rightarrow> nat \<Rightarrow> string" where
  "bridge_format_log_line raw workspace max_len =
     cstr_copy max_len
       (case scan_error raw of
          Some (file, line, col, msg) \<Rightarrow>
            let pos = show_int line @ '':'' @ show_int col
            in log_row ''error'' ''ERROR'' (log_href workspace file pos) (bridge_html_escape file 1024) pos
                 (bridge_html_escape msg 4096)
        | None \<Rightarrow>
            (case scan_warning raw of
               Some (file, line, msg) \<Rightarrow>
                 log_row ''warning'' ''WARNING'' (log_href workspace file (show_int line))
                   (bridge_html_escape file 1024) (show_int line) (bridge_html_escape msg 4096)
             | None \<Rightarrow>
                 ''<div class='' @ sq ''log-row'' @ ''>'' @ bridge_html_escape raw 4096 @ ''</div>'' @ [CHR 0x0A]))"

section \<open>The reader thread\<close>

text \<open>A finished line goes to the text buffer in raw mode and, formatted, to the log.\<close>

definition reader_emit :: "string \<Rightarrow> engine \<Rightarrow> engine" where
  "reader_emit line e =
     (let s = c_str line;
          e1 = (if \<not> en_framed_mode e then engine_push_text [CHR 0x0A] (engine_push_text s e) else e)
      in engine_push_html (bridge_format_log_line s (en_workspace e1) 8192) e1)"

definition reader_byte :: "string \<times> engine \<Rightarrow> char \<Rightarrow> string \<times> engine" where
  "reader_byte st c =
     (case st of (line, e) \<Rightarrow>
        if c = CHR 0x0A \<or> length line + 1 \<ge> 4096 then ([], reader_emit line e)
        else if c \<noteq> CHR 0x0D then (line @ [c], e)
        else (line, e))"

text \<open>The loop over the outcomes of \<open>read\<close>; at the end of the script the engine has stopped.\<close>

fun reader_loop :: "io list \<Rightarrow> string \<times> engine \<Rightarrow> string \<times> engine" where
  "reader_loop [] st = st"
| "reader_loop (r # rs) st =
     (if \<not> en_running (snd st) then st
      else case r of
        Read_Data bs \<Rightarrow> reader_loop rs (foldl reader_byte st bs)
      | Read_Eof \<Rightarrow> st
      | _ \<Rightarrow> reader_loop rs st)"

definition fd_reader_loop :: "io list \<Rightarrow> engine \<Rightarrow> engine" where
  "fd_reader_loop rs e =
     (case reader_loop rs ([], e) of (line, e1) \<Rightarrow> if line \<noteq> [] then reader_emit line e1 else e1)"

section \<open>Facts\<close>

lemma html_loop_safe:
  "c \<in> set (html_loop n out s) \<Longrightarrow> c \<noteq> CHR ''<'' \<and> c \<noteq> CHR ''>'' \<and> c \<noteq> dquote"
  by (induction n out s rule: html_loop.induct) (auto simp: html_rep_def split: if_splits)

lemma html_loop_fits: "out < n \<Longrightarrow> out + length (html_loop n out s) < n"
proof (induction n out s rule: html_loop.induct)
  case (2 max_len out c s)
  then show ?case by (auto simp: html_rep_def)
qed simp

lemma html_escape_fits: "0 < n \<Longrightarrow> length (bridge_html_escape s n) < n"
  using html_loop_fits [of 0 n s] by (simp add: bridge_html_escape_def)

lemma reader_emit_keeps [simp]:
  "en_running (reader_emit l e) = en_running e" "en_framed_mode (reader_emit l e) = en_framed_mode e"
  by (simp_all add: reader_emit_def Let_def engine_push_html_def engine_push_text_def)

lemma reader_byte_keeps:
  "en_running (snd (foldl reader_byte st bs)) = en_running (snd st)
   \<and> en_framed_mode (snd (foldl reader_byte st bs)) = en_framed_mode (snd st)"
  by (induction bs arbitrary: st) (auto simp: reader_byte_def split: prod.splits)

lemma reader_loop_clean:
  "clean es \<Longrightarrow> en_running (snd st) \<Longrightarrow> reader_loop es st = foldl reader_byte st (wire es)"
proof (induction es arbitrary: st)
  case (Cons r rs)
  from Cons.prems(1) show ?case
    by (cases rule: clean_Cons_cases) (use Cons in \<open>auto simp: reader_byte_keeps\<close>)
qed simp

definition line_ok :: "string \<Rightarrow> bool" where
  "line_ok l = (length l \<le> 4095 \<and> list_all (\<lambda>c. c \<noteq> CHR 0x0A \<and> c \<noteq> CHR 0x0D \<and> c \<noteq> CHR 0x00) l)"

lemma reader_line_part:
  "length (p @ l) \<le> 4095 \<Longrightarrow> list_all (\<lambda>c. c \<noteq> CHR 0x0A \<and> c \<noteq> CHR 0x0D \<and> c \<noteq> CHR 0x00) l \<Longrightarrow>
   foldl reader_byte (p, e) l = (p @ l, e)"
  by (induction l arbitrary: p) (simp_all add: reader_byte_def)

lemma reader_line: "line_ok l \<Longrightarrow> foldl reader_byte ([], e) (l @ [CHR 0x0A]) = ([], reader_emit l e)"
  using reader_line_part [of "[]" l e] by (simp add: line_ok_def reader_byte_def)

definition lines_text :: "string list \<Rightarrow> string" where
  "lines_text ls = concat (map (\<lambda>l. l @ [CHR 0x0A]) ls)"

lemma reader_lines:
  "list_all line_ok ls \<Longrightarrow> foldl reader_byte ([], e) (lines_text ls) = ([], foldl (\<lambda>e l. reader_emit l e) e ls)"
proof (induction ls arbitrary: e)
  case (Cons l ls)
  have "foldl reader_byte ([], e) (lines_text (l # ls))
      = foldl reader_byte (foldl reader_byte ([], e) (l @ [CHR 0x0A])) (lines_text ls)"
    by (simp add: lines_text_def)
  then show ?case using Cons reader_line [of l e] by simp
qed (simp add: lines_text_def)

lemma c_str_line: "line_ok l \<Longrightarrow> c_str l = l"
  by (auto simp: line_ok_def c_str_def takeWhile_eq_all_conv list_all_iff)

lemma emit_text:
  assumes "line_ok l" and "\<not> en_framed_mode e"
  shows "en_text (reader_emit l e) =
    foldl (ring_append BRIDGE_BUFFER_SIZE) (en_text e) [l, [CHR 0x0A]]"
  using assms by (simp add: reader_emit_def Let_def engine_push_html_def engine_push_text_def c_str_line)

lemma emit_lines_text:
  "list_all line_ok ls \<Longrightarrow> \<not> en_framed_mode e \<Longrightarrow>
   en_text (foldl (\<lambda>e l. reader_emit l e) e ls) =
     foldl (ring_append BRIDGE_BUFFER_SIZE) (en_text e) (concat (map (\<lambda>l. [l, [CHR 0x0A]]) ls))"
  by (induction ls arbitrary: e) (simp_all add: emit_text)

lemma concat_lines: "concat (concat (map (\<lambda>l. [l, [CHR 0x0A]]) ls)) = lines_text ls"
  by (induction ls) (simp_all add: lines_text_def)

section \<open>Properties\<close>



text \<open>Any line that starts with a name, a colon, a number, a colon and a number is shown
  as a compiler error, and unless a colon follows, the rest of the line is dropped: a time of day
  at the start of a line costs the message.\<close>

lemma log_line_misread:
  assumes "file \<noteq> []" and "length file \<le> 511" and "CHR '':'' \<notin> set file"
    and "ds1 \<noteq> []" and "ds2 \<noteq> []" and "list_all is_digit (ds1 @ ds2)"
    and "message \<noteq> []" and "\<not> is_digit (hd message)" and "hd message \<noteq> CHR '':''"
  shows "bridge_format_log_line (file @ '':'' @ ds1 @ '':'' @ ds2 @ message) workspace max_len
    = bridge_format_log_line (file @ '':'' @ ds1 @ '':'' @ ds2) workspace max_len"
proof -
  have digits: "scan_int (ds @ m) = Some (digits_value 0 ds, m)"
    if nz: "ds \<noteq> []" and "list_all is_digit ds" and "m = [] \<or> \<not> is_digit (hd m)" for ds m
  proof -
    obtain d ds' where ds: "ds = d # ds'" using nz by (cases ds) auto
    have d: "is_digit d" using that ds by simp
    then have "\<not> is_space d" "d \<noteq> CHR ''-''" "d \<noteq> CHR ''+''"
      by (auto simp: is_digit_def is_space_def cval_def)
    moreover have "takeWhile is_digit (ds @ m) = ds"
      using that by (cases m) (auto simp: list_all_iff takeWhile_append takeWhile_eq_Nil_iff)
    ultimately show ?thesis using ds by (simp add: scan_int_def scan_blanks_def)
  qed
  have f: "scan_until 511 (CHR '':'') (file @ '':'' @ r) = Some (file, '':'' @ r)" for r
    using assms(1-3) by (auto simp: scan_until_def Let_def takeWhile_append)
  have colon: "\<not> is_digit (CHR '':'')" by (simp add: is_digit_def cval_def)
  have e: "scan_error (file @ '':'' @ ds1 @ '':'' @ ds2 @ m)
      = Some (file, digits_value 0 ds1, digits_value 0 ds2, scan_message ''error'' m)"
    if "m = [] \<or> \<not> is_digit (hd m)" for m
    using digits [of ds1 "'':'' @ ds2 @ m"] digits [of ds2 m] f [of "ds1 @ '':'' @ ds2 @ m"] assms that colon
    by (simp add: scan_error_def scan_position_def scan_lit_def)
  have "scan_message ''error'' message = []" "scan_message ''error'' [] = []"
    using assms(7,9) by (cases message; simp add: scan_message_def scan_lit_def)+
  then show ?thesis using e [of message] e [of "[]"] assms(8) by (simp add: bridge_format_log_line_def)
qed

theorem log_line_misread_witness:
  "bridge_format_log_line ''12:30:45 started'' ''/w'' 8192 = bridge_format_log_line ''12:30:45'' ''/w'' 8192"
  using log_line_misread [of "''12''" "''30''" "''45''" "'' started''" "''/w''" 8192]
  by (simp add: is_digit_def cval_def)

end
