(* ===== verification/Turn_Begin.thy ===== *)
theory Turn_Begin
  imports Log_Lines Frame_Builders Stream_State Tool_History Tool_Runner Tool_Normalizer
begin

text \<open>
  The first half of a turn (\<^verbatim>\<open>src/turn_context.c\<close>): its state, the choice of the session
  (\<open>turn_begin\<close>) and the acknowledgement (\<open>turn_await_ack\<close>), with the helpers of
  \<^verbatim>\<open>src/server.c\<close> they call.

  The record \<open>turn\<close> has the fields of \<^verbatim>\<open>TurnContext\<close>, a missing string being empty, and after
  them the tool history, the clients waiting at the listening socket, what they were
  answered, what went to the live client without a stream state, the lines of
  \<open>emit_turn_metrics\<close> and the argument vectors of the processes started for tools.

  \<open>turn_env\<close> is what the turn takes from outside: the JSON parser and printer, the contents of
  uninitialised buffers, the application's tool callback, how the n-th tool process behaves,
  and what git says about the workspace.
\<close>

section \<open>State\<close>

record turn_env =
  tv_parse :: "string \<Rightarrow> json option"
  tv_print :: "json \<Rightarrow> string"
  tv_junk :: string
  tv_callback :: app_callback
  tv_tools :: "nat \<Rightarrow> tool_env"
  tv_git :: "string \<times> string \<times> string"

record turn_metric =
  tm_status :: string
  tm_output_bytes :: nat
  tm_prompt_tokens :: int
  tm_completion_tokens :: int
  tm_tool_calls :: nat

record turn =
  tc_eng :: engine
  tc_request_number :: nat
  tc_request_id :: string
  tc_input_text :: string
  tc_previous_response_id :: string
  tc_reasoning_effort :: string
  tc_reset_session :: bool
  tc_out_buf :: string
  tc_out_max :: nat
  tc_active :: bool
  tc_event_prefix :: string
  tc_live :: bool
  tc_server :: bool
  tc_delta_seq :: int
  tc_stream :: "stream_state option"
  tc_last_tool_name :: string
  tc_last_tool_args :: string
  tc_last_tool_run :: tool_run_result
  tc_event_limit_exceeded :: bool
  tc_tool_calls :: nat
  tc_history :: tool_history
  tc_clients :: "string option list list"
  tc_replies :: "string list"
  tc_live_out :: "string list"
  tc_metrics :: "turn_metric list"
  tc_spawned :: "string list list"

definition on_eng :: "(engine \<Rightarrow> engine) \<Rightarrow> turn \<Rightarrow> turn" where
  "on_eng f tc = tc\<lparr>tc_eng := f (tc_eng tc)\<rparr>"

definition set_out :: "string \<Rightarrow> turn \<Rightarrow> turn" where
  "set_out msg tc = tc\<lparr>tc_out_buf := cstr_copy (tc_out_max tc) msg\<rparr>"

definition turn_context_init ::
    "engine \<Rightarrow> nat \<Rightarrow> string \<Rightarrow> string \<Rightarrow> string \<Rightarrow> bool \<Rightarrow> string \<Rightarrow> nat \<Rightarrow> bool
     \<Rightarrow> stream_state option \<Rightarrow> bool \<Rightarrow> tool_history \<Rightarrow> string option list list \<Rightarrow> turn" where
  "turn_context_init e n input prev effort reset out out_max live stream server history clients =
     \<lparr>tc_eng = e, tc_request_number = n, tc_request_id = [], tc_input_text = input,
      tc_previous_response_id = prev, tc_reasoning_effort = effort, tc_reset_session = reset,
      tc_out_buf = out, tc_out_max = out_max, tc_active = False, tc_event_prefix = [], tc_live = live,
      tc_server = server, tc_delta_seq = 0, tc_stream = stream, tc_last_tool_name = [],
      tc_last_tool_args = [], tc_last_tool_run = tool_run_zero, tc_event_limit_exceeded = False,
      tc_tool_calls = 0, tc_history = history, tc_clients = clients, tc_replies = [], tc_live_out = [],
      tc_metrics = [], tc_spawned = []\<rparr>"

definition emit_turn_metrics :: "string \<Rightarrow> int \<Rightarrow> int \<Rightarrow> turn \<Rightarrow> turn" where
  "emit_turn_metrics status prompt_tokens completion_tokens tc =
     tc\<lparr>tc_metrics := tc_metrics tc @
        [\<lparr>tm_status = status, tm_output_bytes = length (tc_out_buf tc), tm_prompt_tokens = prompt_tokens,
          tm_completion_tokens = completion_tokens, tm_tool_calls = tc_tool_calls tc\<rparr>]\<rparr>"

section \<open>The session of a turn\<close>

definition use_session :: "string \<Rightarrow> engine \<Rightarrow> engine" where
  "use_session sid e = on_sessions (\<lambda>sx. compute_session_key (en_workspace e) sid (set_session_id sid sx)) e"

definition current_key :: "engine \<Rightarrow> string" where
  "current_key e = get_session_key (en_sessions e)"

definition load_index :: "turn_env \<Rightarrow> engine \<Rightarrow> engine" where
  "load_index env e = on_sessions (\<lambda>sx. snd (load_session_index (tv_parse env) sx)) e"

fun escape_git :: "nat \<Rightarrow> nat \<Rightarrow> string \<Rightarrow> string" where
  "escape_git cap i [] = []"
| "escape_git cap i (c # s) =
     (if i < cap - 4 then
        (if c = dquote \<or> c = bslash then [bslash, c] @ escape_git cap (i + 2) s
         else c # escape_git cap (i + 1) s)
      else [])"

text \<open>The metadata of a session: git's answers are cut to their buffers, the workspace is not escaped.\<close>

definition build_session_metadata_json :: "turn_env \<Rightarrow> engine \<Rightarrow> string \<Rightarrow> string" where
  \<open>build_session_metadata_json env e last_response_id =
     (case tv_git env of
        (remote, branch, head) \<Rightarrow>
          let stamp = cstr_copy 64 (show_int (en_time e) @ ''.'' @ show_int (en_nsec e))
          in cstr_copy 4096
               (''{"workspace_root":"'' @ en_workspace e
                @ ''","git_remote":"'' @ escape_git 512 0 (cstr_copy 256 remote)
                @ ''","git_branch":"'' @ escape_git 256 0 (cstr_copy 256 branch)
                @ ''","git_head":"'' @ escape_git 128 0 (cstr_copy 64 head)
                @ ''","model_id":"'' @ cf_codex_model (en_cfg e)
                @ ''","created_at":"'' @ stamp @ ''","updated_at":"'' @ stamp
                @ ''","last_response_id":"'' @ last_response_id
                @ ''","cache_path":"'' @ escape_git 1024 0 (cf_kv_cache_dir (en_cfg e)) @ ''"}''))\<close>

definition create_state :: "turn_env \<Rightarrow> string \<Rightarrow> engine \<Rightarrow> bool \<times> engine" where
  "create_state env key e =
     engine_create_session_state key (en_workspace e) (cf_codex_model (en_cfg e)) (cf_context_tokens (en_cfg e))
       (build_session_metadata_json env e []) e"

definition can_load :: "engine \<Rightarrow> bool" where
  "can_load e = (cf_auto_load_project_session (en_cfg e) \<and> cf_kv_cache_policy (en_cfg e) \<noteq> ''manual'')"

definition set_last_session :: "string \<Rightarrow> engine \<Rightarrow> engine" where
  "set_last_session sid e = e\<lparr>en_last_session_id := cstr_copy 256 sid\<rparr>"

text \<open>A request of the client for a fresh session.\<close>

definition reset_name :: "engine \<Rightarrow> string" where
  "reset_name e = cstr_copy 64 (''reset_'' @ show_int (en_time e) @ ''_'' @ show_int (en_nsec e))"

definition begin_reset :: "turn_env \<Rightarrow> engine \<Rightarrow> engine" where
  "begin_reset env e =
     (let sid = reset_name e;
          e1 = use_session sid e
      in if current_key e1 = [] then e1
         else case create_state env (current_key e1) e1 of
                (True, e2) \<Rightarrow> set_last_session sid e2
              | (False, e2) \<Rightarrow>
                  engine_send_error ''session_create_failure'' ''failed to create fresh session state'' e2)"

text \<open>A stored state is used only for the workspace and the model it was made for.\<close>

definition mismatch :: "string option \<Rightarrow> string \<Rightarrow> bool" where
  "mismatch stored current = (case stored of None \<Rightarrow> False | Some s \<Rightarrow> s \<noteq> [] \<and> s \<noteq> current)"

definition restorable :: "string \<Rightarrow> string \<Rightarrow> engine \<Rightarrow> bool \<times> engine" where
  "restorable what key e =
     (if mismatch (session_index_get_workspace (en_sessions e) key) (en_workspace e) then
        (False, engine_send_error ''session_incompatible_state'' (''workspace mismatch: cannot '' @ what) e)
      else if mismatch (session_index_get_model_id (en_sessions e) key) (cf_codex_model (en_cfg e)) then
        (False, engine_send_error ''session_incompatible_state'' (''model mismatch: cannot '' @ what) e)
      else (True, e))"

definition default_create :: "turn_env \<Rightarrow> string \<Rightarrow> engine \<Rightarrow> engine" where
  "default_create env key e =
     (case create_state env key e of
        (True, e1) \<Rightarrow> set_last_session key e1
      | (False, e1) \<Rightarrow> engine_send_error ''session_create_failure'' ''failed to create default session state'' e1)"

definition default_load :: "string \<Rightarrow> string \<Rightarrow> engine \<Rightarrow> engine" where
  "default_load key sid e =
     (case engine_load_session_state key sid e of
        (True, e1) \<Rightarrow> set_last_session ''default'' e1
      | (False, e1) \<Rightarrow>
          engine_send_error ''session_corrupt_state'' ''failed to load default session: native agent returned error'' e1)"

definition begin_default :: "turn_env \<Rightarrow> engine \<Rightarrow> engine" where
  "begin_default env e =
     (let e1 = use_session ''default'' e; key = current_key e1
      in if key = [] then e1
         else
           let e2 = load_index env e1
           in case session_index_lookup (en_sessions e2) key of
                None \<Rightarrow> default_create env key e2
              | Some sid \<Rightarrow>
                  (case restorable ''restore default session'' key e2 of
                     (True, e3) \<Rightarrow> default_load key sid e3
                   | (False, e3) \<Rightarrow> default_create env key e3))"

text \<open>A session that is named by the client or is the one of the last turn.\<close>

definition session_switch :: "string \<Rightarrow> string option \<Rightarrow> engine \<Rightarrow> engine" where
  "session_switch key state e =
     (let old_key = session_key_for (en_workspace e) (en_last_session_id e) 512;
          e1 = (case session_index_lookup (en_sessions e) old_key of
                  Some old \<Rightarrow>
                    if cf_auto_save_kv_cache (en_cfg e) then
                      (case engine_save_session_state old_key old e of
                         (True, e1) \<Rightarrow> e1
                       | (False, e1) \<Rightarrow>
                           engine_send_error ''session_save_failure'' ''failed to save previous session state'' e1)
                    else e
                | None \<Rightarrow> e)
      in case state of
           Some sid \<Rightarrow>
             if can_load e then
               (case engine_switch_session_state old_key key sid e1 of
                  (True, e2) \<Rightarrow> e2
                | (False, e2) \<Rightarrow>
                    engine_send_error ''session_switch_failure'' ''native agent failed to switch session state'' e2)
             else e1
         | None \<Rightarrow>
             if can_load e
             then engine_send_error ''session_state_missing'' ''target session state not found in index'' e1
             else e1)"

definition session_first_load :: "string \<Rightarrow> string option \<Rightarrow> engine \<Rightarrow> engine" where
  "session_first_load key state e =
     (if \<not> can_load e then e
      else case state of
        None \<Rightarrow> engine_send_error ''session_state_missing'' ''no saved state found for this session'' e
      | Some sid \<Rightarrow>
          (case restorable ''load saved state'' key e of
             (False, e1) \<Rightarrow> e1
           | (True, e1) \<Rightarrow>
               (case engine_load_session_state key sid e1 of
                  (True, e2) \<Rightarrow> e2
                | (False, e2) \<Rightarrow>
                    engine_send_error ''session_corrupt_state''
                      ''failed to load KV cache: native agent returned error'' e2)))"

definition begin_session :: "turn_env \<Rightarrow> string \<Rightarrow> engine \<Rightarrow> engine" where
  "begin_session env sid e =
     (let e1 = use_session sid e; key = current_key e1
      in if key = [] then e1
         else
           let e2 = load_index env e1;
               state = session_index_lookup (en_sessions e2) key;
               e3 = (if en_last_session_id e2 \<noteq> [] \<and> en_last_session_id e2 \<noteq> sid then session_switch key state e2
                     else if en_last_session_id e2 = [] then session_first_load key state e2
                     else e2)
           in set_last_session sid e3)"

definition choose_session :: "turn_env \<Rightarrow> turn \<Rightarrow> engine \<Rightarrow> engine" where
  "choose_session env tc e =
     (if tc_reset_session tc then begin_reset env e
      else if tc_previous_response_id tc \<noteq> [] then begin_session env (tc_previous_response_id tc) e
      else if en_last_session_id e \<noteq> [] then begin_session env (en_last_session_id e) e
      else if can_load e then begin_default env e
      else e)"

section \<open>Sending the request\<close>

definition request_id_of :: "nat \<Rightarrow> string" where
  "request_id_of n = cstr_copy 64 (''req-'' @ show_nat n)"

definition history_arg :: "bridge_config \<Rightarrow> tool_history \<Rightarrow> string" where
  "history_arg cfg h =
     (case tool_history_build_json h of
        None \<Rightarrow> []
      | Some js \<Rightarrow> if cf_hide_tool_transcripts cfg \<or> js = ''[]'' then [] else js)"

definition request_of :: "turn \<Rightarrow> engine \<Rightarrow> string option" where
  "request_of tc e =
     frame_build_request (tc_request_id tc) (tc_input_text tc) [] [] (tc_reasoning_effort tc)
       (tc_previous_response_id tc) (cf_auto_load_resume_session (en_cfg e)) (cf_context_tokens (en_cfg e))
       (tc_reset_session tc) (history_arg (en_cfg e) (tc_history tc))"

definition turn_begin :: "turn_env \<Rightarrow> turn \<Rightarrow> bool \<times> turn" where
  "turn_begin env tc =
     (let rid = request_id_of (tc_request_number tc);
          tc1 = tc\<lparr>tc_active := True, tc_request_id := rid\<rparr>;
          e1 = choose_session env tc1
                 ((tc_eng tc1)\<lparr>en_cancelled := False, en_current_request_id := rid\<rparr>)
      in case request_of tc1 e1 of
           None \<Rightarrow> (False, tc1\<lparr>tc_eng := e1\<rparr>)
         | Some req \<Rightarrow> (True, tc1\<lparr>tc_eng := engine_write_frame req e1\<rparr>))"

section \<open>The acknowledgement\<close>

definition no_event :: native_event where
  "no_event = \<lparr>ne_type = NATIVE_EVENT_UNKNOWN, ne_type_str = [], ne_id = [], ne_data = Ev_None\<rparr>"

definition event_of :: "turn_env \<Rightarrow> bytes \<Rightarrow> native_event" where
  "event_of env frame =
     (case native_parse_frame (tv_parse env) (tv_print env) (tv_junk env) frame of
        None \<Rightarrow> no_event | Some ev \<Rightarrow> ev)"

fun ev_status :: "event_data \<Rightarrow> string" where
  "ev_status (Ev_Response r) = re_status r"
| "ev_status _ = []"

fun unescape_field :: "nat \<Rightarrow> string \<Rightarrow> string \<Rightarrow> string" where
  "unescape_field max_len dest [] = dest"
| "unescape_field max_len dest (c # s) =
     (if c = dquote \<or> \<not> length dest + 1 < max_len then dest
      else if c = bslash then
        (case s of
           [] \<Rightarrow> unescape_field max_len (dest @ [c]) s
         | d # s' \<Rightarrow>
             unescape_field max_len
               (dest @ (if d = CHR ''n'' then [CHR 0x0A] else if d = CHR ''t'' then [CHR 0x09]
                        else if d \<noteq> CHR 0x0D then [d] else [])) s')
      else unescape_field max_len (dest @ [c]) s)"

definition extract_json_string_field :: "string \<Rightarrow> string \<Rightarrow> nat \<Rightarrow> string option" where
  \<open>extract_json_string_field js key max_len =
     (let pattern = cstr_copy 128 (''"'' @ key @ ''":"'')
      in case strstr js pattern of
           None \<Rightarrow> None
         | Some p \<Rightarrow>
             let v = unescape_field max_len [] (drop (length pattern) p) in if v = [] then None else Some v)\<close>

definition c_atoi :: "string \<Rightarrow> int" where
  "c_atoi s = (case scan_int s of None \<Rightarrow> 0 | Some (n, _) \<Rightarrow> n)"

text \<open>What one frame means while the acknowledgement is awaited.\<close>

datatype ack_verdict = Ack_Skip | Ack_Accepted | Ack_Refused string "(string \<times> string) option"

definition is_lifecycle_type :: "native_event \<Rightarrow> string \<Rightarrow> bool" where
  \<open>is_lifecycle_type ev s = (native_event_is_lifecycle ev \<or> contains s ''"type":"event"'')\<close>

definition ack_verdict :: "turn_env \<Rightarrow> string \<Rightarrow> bytes \<Rightarrow> ack_verdict" where
  "ack_verdict env rid frame =
     (let s = c_str frame;
          ev = event_of env frame
      in if is_lifecycle_type ev s then Ack_Skip
         else if ne_type ev \<noteq> NATIVE_EVENT_ACK \<or> \<not> contains s rid then
           Ack_Refused ''native agent ack invalid or rejected'' None
         else if ev_status (ne_data ev) = ''busy'' then
           Ack_Refused
             (''native agent busy (retry_after_ms=''
              @ show_int (case extract_json_string_field s ''retry_after_ms'' 32 of None \<Rightarrow> 0 | Some v \<Rightarrow> c_atoi v)
              @ '')'')
             (Some (''native_busy'', ''agent busy''))
         else if ev_status (ne_data ev) \<noteq> ''accepted'' then
           Ack_Refused ''native agent ack rejected (unknown status)'' None
         else Ack_Accepted)"

definition send_opt_error :: "(string \<times> string) option \<Rightarrow> engine \<Rightarrow> engine" where
  "send_opt_error err e = (case err of None \<Rightarrow> e | Some (ty, detail) \<Rightarrow> engine_send_error ty detail e)"

text \<open>\<open>None\<close>: a negative timeout and a silent agent; the call never returns.\<close>

primrec ack_loop :: "turn_env \<Rightarrow> nat \<Rightarrow> turn \<Rightarrow> (bool \<times> turn) option" where
  "ack_loop env 0 tc =
     Some (False, on_eng (engine_send_error ''handshake_timeout'' ''ack retry exhausted'')
                    (set_out ''native agent ack retry exhausted'' tc))"
| "ack_loop env (Suc n) tc =
     (case engine_read_frame_timeout (cf_response_timeout_ms (en_cfg (tc_eng tc))) (tc_eng tc) of
        (Frame_Blocked, e1) \<Rightarrow> None
      | (Frame_Error _, e1) \<Rightarrow>
          Some (False, on_eng (engine_send_error ''handshake_timeout'' ''ack frame timeout'')
                         (set_out ''native agent ack timeout'' (tc\<lparr>tc_eng := e1\<rparr>)))
      | (Frame ack, e1) \<Rightarrow>
          (case ack_verdict env (tc_request_id tc) ack of
             Ack_Skip \<Rightarrow> ack_loop env n (tc\<lparr>tc_eng := e1\<rparr>)
           | Ack_Accepted \<Rightarrow> Some (True, tc\<lparr>tc_eng := e1\<rparr>)
           | Ack_Refused msg err \<Rightarrow>
               Some (False, on_eng (send_opt_error err) (set_out msg (tc\<lparr>tc_eng := e1\<rparr>)))))"

definition turn_await_ack :: "turn_env \<Rightarrow> turn \<Rightarrow> (bool \<times> turn) option" where
  "turn_await_ack env tc = ack_loop env 5 tc"

end
