(* ===== verification/Turn_Events.thy ===== *)
theory Turn_Events
  imports Turn_Begin
begin

text \<open>
  The second half of a turn (\<^verbatim>\<open>src/turn_context.c\<close>): the mid-turn control plane, the event loop
  \<open>turn_process_events\<close> with its tool cycles, the cleanup, and the turn as the server runs it
  (\<^verbatim>\<open>src/server.c\<close>, framed part of \<open>handle_response_native\<close>).

  The loop is a step function and its iteration. A step goes on, stops with the result of the
  call, never returns (a tool whose child never ends) or runs into the overrun of the tool
  result block. Each round of the loop either takes a frame from the connection or uses up
  part of the timeout, which is why the iteration is total.
\<close>

section \<open>The control plane\<close>

definition scan_word :: "nat \<Rightarrow> string \<Rightarrow> (string \<times> string) option" where
  "scan_word n s =
     (let s1 = scan_blanks s; w = take n (takeWhile (\<lambda>c. \<not> is_space c) s1)
      in if w = [] then None else Some (w, drop (length w) s1))"

definition http_request_line :: "bytes \<Rightarrow> (string \<times> string) option" where
  "http_request_line buf =
     Option.bind (scan_word 15 (c_str (take 4095 buf))) (\<lambda>(m, s).
       map_option (\<lambda>(p, _). (m, p)) (scan_word 511 s))"

datatype midturn_kind = Midturn_Models | Midturn_Cancel | Midturn_Conflict | Midturn_Not_Found

definition midturn_kind_of :: "string \<Rightarrow> string \<Rightarrow> midturn_kind" where
  "midturn_kind_of meth path =
     (if meth = ''GET'' \<and> path = ''/v1/models'' then Midturn_Models
      else if meth = ''DELETE'' \<and> take 14 path = ''/v1/responses/'' then Midturn_Cancel
      else if meth = ''POST'' \<and> path = ''/v1/responses'' then Midturn_Conflict
      else Midturn_Not_Found)"

fun midturn_body :: "bridge_config \<Rightarrow> midturn_kind \<Rightarrow> string" where
  \<open>midturn_body cfg Midturn_Models =
     cstr_copy 4096 (''{"object":"list","data":[{"id":"'' @ or_else (cf_codex_model cfg) ''star-bridge-ds4''
       @ ''","object":"model","created":1700000000,"owned_by":"Star Bridge Local","tools":[]}]}'')\<close>
| \<open>midturn_body cfg Midturn_Cancel = ''{"object":"response","status":"cancelled"}''\<close>
| \<open>midturn_body cfg Midturn_Conflict =
     ''{"object":"error","type":"conflict","code":"turn_active",''
     @ ''"message":"A turn is already in progress for this session."}''\<close>
| \<open>midturn_body cfg Midturn_Not_Found = ''{"object":"error","type":"not_found","message":"Not found"}''\<close>

fun midturn_status :: "midturn_kind \<Rightarrow> string" where
  "midturn_status Midturn_Conflict = ''409 Conflict''"
| "midturn_status Midturn_Not_Found = ''404 Not Found''"
| "midturn_status _ = ''200 OK''"

definition http_reply :: "string \<Rightarrow> string \<Rightarrow> string" where
  "http_reply status body =
     ''HTTP/1.1 '' @ status @ crlf @ ''Content-Type: application/json'' @ crlf
     @ ''Content-Length: '' @ show_nat (length body) @ crlf @ ''Connection: close'' @ crlf @ crlf @ body"

definition midturn_client :: "string option \<Rightarrow> turn \<Rightarrow> turn" where
  "midturn_client req tc =
     (case Option.bind req http_request_line of
        None \<Rightarrow> tc
      | Some (meth, path) \<Rightarrow>
          let kind = midturn_kind_of meth path;
              tc1 = (if kind = Midturn_Cancel
                     then on_eng (\<lambda>e. engine_set_turn_active False (engine_cancel e)) tc else tc);
              reply = http_reply (midturn_status kind) (midturn_body (en_cfg (tc_eng tc)) kind)
          in tc1\<lparr>tc_replies := tc_replies tc1 @ [reply]\<rparr>)"

text \<open>All connections that are pending at this moment are served.\<close>

definition handle_midturn_control_plane :: "turn \<Rightarrow> turn" where
  "handle_midturn_control_plane tc =
     (if \<not> tc_server tc then tc
      else case tc_clients tc of
        [] \<Rightarrow> tc
      | now # later \<Rightarrow> foldl (\<lambda>tc req. midturn_client req tc) (tc\<lparr>tc_clients := later\<rparr>) now)"

section \<open>Events that only add text\<close>

fun ev_text :: "event_data \<Rightarrow> string" where
  "ev_text (Ev_Response r) = re_text r"
| "ev_text _ = []"

definition live_write :: "string \<Rightarrow> turn \<Rightarrow> turn" where
  "live_write s tc = tc\<lparr>tc_live_out := tc_live_out tc @ [s]\<rparr>"

definition live_heartbeat :: "turn \<Rightarrow> turn" where
  "live_heartbeat tc = (if tc_live tc then live_write ('':heartbeat'' @ [CHR 0x0A, CHR 0x0A]) tc else tc)"

definition live_delta :: "string \<Rightarrow> turn \<Rightarrow> turn" where
  \<open>live_delta t tc =
     (if tc_live tc \<and> t \<noteq> [] then
        (live_write (sse_text ''response.output_text.delta'' (cstr_copy 8192 (''{"delta":"'' @ t @ ''"}''))) tc)
          \<lparr>tc_delta_seq := tc_delta_seq tc + 1\<rparr>
      else tc)\<close>

definition handle_delta :: "string \<Rightarrow> turn \<Rightarrow> turn" where
  "handle_delta t tc =
     (let tc1 = tc\<lparr>tc_out_buf := append_text (tc_out_max tc) (tc_out_buf tc) t\<rparr>
      in case tc_stream tc1 of
           Some s \<Rightarrow>
             if t \<noteq> [] then tc1\<lparr>tc_stream := Some (snd (responses_stream_emit_text_delta t s))\<rparr>
             else live_delta t tc1
         | None \<Rightarrow> live_delta t tc1)"

definition append_compaction_notice :: "nat \<Rightarrow> string \<Rightarrow> string \<Rightarrow> string" where
  "append_compaction_notice max_len dest message =
     append_text max_len
       (append_text max_len (append_text max_len dest ''[COMPACT] '')
          (or_else message ''Native agent is compacting context.''))
       [CHR 0x0A]"

fun ev_message :: "event_data \<Rightarrow> string" where
  "ev_message (Ev_Error r) = ee_message r"
| "ev_message (Ev_Compaction r) = ce_message r"
| "ev_message _ = []"

definition handle_compaction :: "string \<Rightarrow> turn \<Rightarrow> turn" where
  "handle_compaction msg tc =
     tc\<lparr>tc_event_prefix := append_compaction_notice 8192 (tc_event_prefix tc) msg\<rparr>"

text \<open>Any other frame is copied as it is, in place of the text so far.\<close>

definition handle_raw :: "bytes \<Rightarrow> turn \<Rightarrow> turn" where
  "handle_raw frame tc =
     (let p = append_text (tc_out_max tc) [] (tc_event_prefix tc);
          copy_len = min (length frame) (tc_out_max tc - length p - 1)
      in tc\<lparr>tc_out_buf := c_str (p @ take copy_len frame)\<rparr>)"

section \<open>The final response\<close>

text \<open>The chunk loop over the text of a response; a failing emitter ends it.\<close>

function emit_chunks :: "string \<Rightarrow> stream_state \<Rightarrow> stream_state" where
  "emit_chunks rest s =
     (if rest = [] then s
      else case responses_stream_emit_text_delta (take 4096 rest) s of
             (True, s1) \<Rightarrow> emit_chunks (drop 4096 rest) s1
           | (False, s1) \<Rightarrow> s1)"
  by pat_completeness auto
termination by (relation "measure (\<lambda>(rest, _). length rest)") auto

declare emit_chunks.simps [simp del]

definition save_after_turn :: "turn_env \<Rightarrow> engine \<Rightarrow> engine" where
  "save_after_turn env e =
     (if en_last_session_id e \<noteq> [] \<and> cf_auto_save_kv_cache (en_cfg e) then
        let e1 = use_session (en_last_session_id e) e; key = current_key e1
        in if key = [] then e1
           else
             let e2 = load_index env e1
             in case session_index_lookup (en_sessions e2) key of
                  None \<Rightarrow> e2
                | Some sid \<Rightarrow> snd (engine_save_session_state key sid e2)
      else e)"

definition response_text :: "turn \<Rightarrow> string \<Rightarrow> string" where
  "response_text tc t =
     append_text (tc_out_max tc) (append_text (tc_out_max tc) [] (tc_event_prefix tc)) t"

definition handle_response :: "turn_env \<Rightarrow> event_data \<Rightarrow> turn \<Rightarrow> turn" where
  "handle_response env d tc =
     (let t = ev_text d;
          tc1 = tc\<lparr>tc_out_buf := response_text tc t\<rparr>;
          tc2 = (case tc_stream tc1 of
                   Some s \<Rightarrow> if t \<noteq> [] then tc1\<lparr>tc_stream := Some (emit_chunks t s)\<rparr> else live_delta t tc1
                 | None \<Rightarrow> live_delta t tc1);
          tc3 = on_eng (save_after_turn env) tc2
      in case d of
           Ev_Response r \<Rightarrow> emit_turn_metrics ''completed'' (re_prompt_tokens r) (re_completion_tokens r) tc3
         | _ \<Rightarrow> emit_turn_metrics ''completed'' 0 0 tc3)"

section \<open>Tool intents\<close>

definition MAX_TOOL_CYCLES :: nat where "MAX_TOOL_CYCLES = 64"

definition tool_timeout_ms :: "bridge_config \<Rightarrow> string \<Rightarrow> int" where
  "tool_timeout_ms cfg tool =
     (if tool = ''google_search'' then cf_google_search_timeout_ms cfg
      else if tool = ''browse_url'' then cf_browse_url_timeout_ms cfg
      else if tool = ''shell_command'' then cf_shell_command_timeout_ms cfg
      else 5000)"

definition append_history :: "string \<Rightarrow> turn \<Rightarrow> turn" where
  "append_history line tc =
     tc\<lparr>tc_history := tool_history_append (cf_max_history_entries (en_cfg (tc_eng tc))) (tc_history tc) line\<rparr>"

definition tool_refused :: "tool_error_kind \<Rightarrow> string \<Rightarrow> string option \<Rightarrow> tool_run_result \<Rightarrow> turn \<Rightarrow> string option \<times> turn" where
  "tool_refused kind tool detail run tc =
     (frame_build_tool_error (tc_request_id tc) tool (tool_policy_error_message kind),
      (append_history (tool_policy_build_error_summary (Some tool) kind detail 512) tc)\<lparr>tc_last_tool_run := run\<rparr>)"

definition result_line :: "string \<Rightarrow> string \<Rightarrow> string" where
  "result_line tool args =
     cstr_copy 1024 (''TOOL_RESULT '' @ tool @ '' '' @ take 256 args @ [CHR 0x0A])"

definition error_result :: string where
  \<open>error_result = ''{"status":"error"}''\<close>

text \<open>The three ways a tool intent is answered: the frame, if it fits its block, and the turn after.
  \<open>None\<close>: the tool's process never ends.\<close>

definition answer_tool :: "turn_env \<Rightarrow> string \<Rightarrow> string \<Rightarrow> turn \<Rightarrow> (string option \<times> turn) option" where
  "answer_tool env tool args tc =
     (if tool_policy_is_denied (Some tool) then
        Some (tool_refused TOOL_ERROR_DENIED tool None (tool_run_zero\<lparr>tr_denied := True\<rparr>) tc)
      else if \<not> tool_policy_args_valid tool args then
        Some (tool_refused TOOL_ERROR_MALFORMED_ARGS tool (Some args) (tool_run_zero\<lparr>tr_exit_code := 1\<rparr>) tc)
      else
        let cfg = en_cfg (tc_eng tc)
        in case tool_runner_run (tv_callback env) (tv_tools env (tc_tool_calls tc)) tool args
                  (cf_shell_command_enabled cfg) (tool_timeout_ms cfg tool) of
             None \<Rightarrow> None
           | Some (ok, run, argv) \<Rightarrow>
               Some (frame_build_tool_result (tc_request_id tc) tool (if ok then tr_result_json run else error_result),
                     (append_history (result_line tool args) tc)
                       \<lparr>tc_last_tool_run := run,
                        tc_spawned := tc_spawned tc @ (case argv of None \<Rightarrow> [] | Some a \<Rightarrow> [a])\<rparr>))"

text \<open>A round of the loop: go on with the turn, the event count, the tool cycles and the remaining
  timeout; or stop; or do not come back; or write outside the result block.\<close>

datatype turn_round = Go turn nat nat int | Stop bool turn | Never | Smash

definition handle_tool :: "turn_env \<Rightarrow> string \<Rightarrow> string \<Rightarrow> turn \<Rightarrow> nat \<Rightarrow> nat \<Rightarrow> int \<Rightarrow> turn_round" where
  "handle_tool env tool args tc count cycles remaining =
     (let tc1 = tc\<lparr>tc_tool_calls := tc_tool_calls tc + 1\<rparr>
      in if cycles + 1 > MAX_TOOL_CYCLES then
           Stop False (set_out ''native agent tool cycle limit exceeded'' tc1)
         else
           let tc2 = tc1\<lparr>tc_last_tool_name := cstr_copy 64 tool,
                         tc_last_tool_args := cstr_copy 2048 (or_else args ''{}''),
                         tc_last_tool_run := tool_run_zero\<rparr>
           in case answer_tool env tool args tc2 of
                None \<Rightarrow> Never
              | Some (reply, tc3) \<Rightarrow>
                  if \<not> en_malloc (tc_eng tc3) 4096 then
                    Stop False (set_out ''native agent tool result build failed'' tc3)
                  else case reply of
                    None \<Rightarrow> Smash
                  | Some frame \<Rightarrow> Go (on_eng (engine_write_frame frame) tc3) (count + 1) (cycles + 1) remaining)"

fun ev_tool :: "event_data \<Rightarrow> string \<times> string" where
  "ev_tool (Ev_Tool_Intent t) = (ti_name t, ti_args t)"
| "ev_tool _ = ([], [])"

section \<open>The loop\<close>

definition full_timeout :: "bridge_config \<Rightarrow> int" where
  "full_timeout cfg = (if cf_response_timeout_ms cfg > 0 then cf_response_timeout_ms cfg else 60000)"

definition skipped_unknown :: "native_event \<Rightarrow> string \<Rightarrow> bool" where
  \<open>skipped_unknown ev s =
     (ne_type ev = NATIVE_EVENT_UNKNOWN \<and> (contains s ''"type":"event"'' \<or> contains s ''thinking''))\<close>

definition foreign_id :: "turn \<Rightarrow> native_event \<Rightarrow> string \<Rightarrow> bool" where
  "foreign_id tc ev s = (ne_id ev \<noteq> [] \<and> \<not> contains s (tc_request_id tc))"

definition handle_frame :: "turn_env \<Rightarrow> bytes \<Rightarrow> turn \<Rightarrow> nat \<Rightarrow> nat \<Rightarrow> turn_round" where
  "handle_frame env frame tc0 count cycles =
     (let s = c_str frame;
          ev = event_of env frame;
          tc = live_heartbeat tc0;
          rem = full_timeout (en_cfg (tc_eng tc))
      in if foreign_id tc ev s then
           (if native_event_is_lifecycle ev then Go tc count cycles rem
            else Stop False
                   (on_eng (engine_send_error ''request_id_mismatch'' ''frame id does not match request id'')
                      (set_out ''native agent frame id mismatch'' tc)))
         else if skipped_unknown ev s then Go tc (count + 1) cycles rem
         else case ne_type ev of
           NATIVE_EVENT_TEXT_DELTA \<Rightarrow> Go (handle_delta (ev_text (ne_data ev)) tc) (count + 1) cycles rem
         | NATIVE_EVENT_COMPACTION \<Rightarrow> Go (handle_compaction (ev_message (ne_data ev)) tc) (count + 1) cycles rem
         | NATIVE_EVENT_CANCELLED \<Rightarrow> Stop False tc
         | NATIVE_EVENT_ERROR \<Rightarrow>
             Stop False (emit_turn_metrics ''error'' 0 0
               (set_out (or_else (ev_message (ne_data ev)) ''native agent error'') tc))
         | NATIVE_EVENT_TOOL_INTENT \<Rightarrow>
             (case ev_tool (ne_data ev) of (tool, args) \<Rightarrow> handle_tool env tool args tc count cycles rem)
         | NATIVE_EVENT_RESPONSE \<Rightarrow> Stop True (handle_response env (ne_data ev) tc)
         | _ \<Rightarrow> Go (handle_raw frame tc) (count + 1) cycles rem)"

definition poll_ms :: "turn \<Rightarrow> int \<Rightarrow> int" where
  "poll_ms tc remaining =
     (let p = min remaining 2000 in if tc_server tc \<and> p > 100 then 100 else p)"

definition handle_silence :: "turn \<Rightarrow> nat \<Rightarrow> nat \<Rightarrow> int \<Rightarrow> turn_round" where
  "handle_silence tc count cycles remaining =
     (let tc1 = live_heartbeat tc
      in if remaining \<le> 0 then
           Stop False (emit_turn_metrics ''timeout'' 0 0
             (on_eng (engine_send_error ''handshake_timeout'' ''native agent response timeout'')
               (set_out ''native agent response timeout'' (handle_midturn_control_plane tc1))))
         else Go tc1 count cycles remaining)"

definition turn_step :: "turn_env \<Rightarrow> turn \<Rightarrow> nat \<Rightarrow> nat \<Rightarrow> int \<Rightarrow> turn_round" where
  "turn_step env tc count cycles remaining =
     (let tc1 = handle_midturn_control_plane tc
      in if tc_server tc \<and> en_cancelled (tc_eng tc1) then
           Stop False (emit_turn_metrics ''cancelled'' 0 0 (set_out ''cancelled'' tc1))
         else case engine_read_frame_timeout (poll_ms tc remaining) (tc_eng tc1) of
                (Frame frame, e) \<Rightarrow> handle_frame env frame (tc1\<lparr>tc_eng := e\<rparr>) count cycles
              | (_, e) \<Rightarrow> handle_silence (tc1\<lparr>tc_eng := e\<rparr>) count cycles (remaining - poll_ms tc remaining))"

section \<open>Progress\<close>

definition gained :: "nat \<Rightarrow> rres \<Rightarrow> nat" where
  "gained n r = (case r of RBytes bs \<Rightarrow> length bs | _ \<Rightarrow> n)"

lemma gained_simps [simp]: "gained n (RBytes bs) = length bs" "gained n RErr = n" "gained n RBlocked = n"
  by (simp_all add: gained_def)

lemma read_all_size:
  "read_all count buf es = (r, es') \<Longrightarrow> io_size es' + gained (length buf) r \<le> io_size es + length buf"
proof (induction count buf es arbitrary: r es' rule: read_all.induct)
  case (1 count buf)
  then show ?case by (auto split: if_splits)
next
  case (2 count buf e es)
  note io_size_Cons [of es e, simp]
  show ?case
  proof (cases e)
    case (Read_Data bs)
    then show ?thesis using 2 by (auto split: if_splits simp: gained_def split: rres.splits) (force simp: gained_def split: rres.splits)+
  qed (use 2 in \<open>auto simp: gained_def split: if_splits rres.splits; force simp: gained_def split: rres.splits\<close>)+
qed

lemma read_poll_loop_size:
  "read_poll_loop d rem count buf es = ((r, t), es') \<Longrightarrow>
   io_size es' + gained (length buf) r \<le> io_size es + length buf"
proof (induction d rem count buf es arbitrary: r t es' rule: read_poll_loop.induct)
  case (1 deadline remaining count buf)
  then show ?case by (auto split: if_splits)
next
  case (2 deadline remaining count buf e es)
  show ?case
  proof (cases "length buf < count \<and> \<not> (deadline > 0 \<and> remaining \<le> 0)")
    case False
    then show ?thesis using "2.prems" by (auto split: if_splits)
  next
    case True
    show ?thesis
    proof (cases e)
      case (Read_Data bs)
      show ?thesis
      proof (cases "bs = [] \<or> deadline = 0 \<or> count - length buf \<le> length bs")
        case now: True
        then show ?thesis using "2.prems" True Read_Data by (auto simp: Let_def split: if_splits)
      next
        case False
        have "io_size es' + gained (length (buf @ bs)) r \<le> io_size es + length (buf @ bs)"
          using "2.prems" True Read_Data False by (intro "2.IH") (auto simp: Let_def)
        then show ?thesis using Read_Data by (cases r) auto
      qed
    next
      case Read_Intr
      then have "io_size es' + gained (length buf) r \<le> io_size es + length buf"
        using "2.prems" True by (intro "2.IH"(2)) auto
      then show ?thesis using Read_Intr by simp
    next
      case Poll_Intr
      then have "io_size es' + gained (length buf) r \<le> io_size es + length buf"
        using "2.prems" True by (intro "2.IH"(3)) auto
      then show ?thesis using Poll_Intr by simp
    qed (use "2.prems" True in auto)
  qed
qed

lemma read_deadline_size:
  assumes "read_all_deadline count d es = ((r, t), es')"
  shows "io_size es' + gained 0 r \<le> io_size es"
  using assms read_all_size [of count "[]" es r es'] read_poll_loop_size [of d d count "[]" es r t es']
  by (auto simp: read_all_deadline_def split: if_splits prod.splits)

lemma frame_payload_size:
  assumes "frame_read_payload m len d es = (r, es')"
  shows "io_size es' \<le> io_size es"
proof (cases "m (len + 1)")
  case True
  obtain x t es1 where "read_all_deadline len (if d > 0 then max 0 (d - 10) else d) es = ((x, t), es1)"
    by (metis surj_pair)
  then show ?thesis using assms True read_deadline_size [of len _ es x t es1]
    by (fastforce simp: frame_read_payload_def Let_def split: rres.splits if_splits)
qed (use assms in \<open>simp add: frame_read_payload_def\<close>)

lemma frame_read_size:
  assumes "frame_read m d es = (r, es')"
  shows "io_size es' \<le> io_size es" and "r = Frame bs \<Longrightarrow> io_size es' < io_size es"
proof -
  obtain x t es1 where h: "read_all_deadline 4 d es = ((x, t), es1)" by (metis surj_pair)
  have s: "io_size es1 + gained 0 x \<le> io_size es" by (rule read_deadline_size [OF h])
  have p: "io_size es2 \<le> io_size es1" if "frame_read_payload m n d es1 = (q, es2)" for n q es2
    by (rule frame_payload_size [OF that])
  have "io_size es' \<le> io_size es \<and> (r = Frame bs \<longrightarrow> io_size es' < io_size es)"
    using assms h s by (cases x) (force simp: frame_read_def Let_def dest!: p split: if_splits)+
  then show "io_size es' \<le> io_size es" and "r = Frame bs \<Longrightarrow> io_size es' < io_size es" by blast+
qed

lemma engine_write_frame_in [simp]:
  "en_in (engine_write_frame j e) = en_in e" "en_cfg (engine_write_frame j e) = en_cfg e"
  by (simp_all add: engine_write_frame_def write_frame_ok_def split: prod.splits)

lemma engine_send_error_in [simp]:
  "en_in (engine_send_error ty d e) = en_in e" "en_cfg (engine_send_error ty d e) = en_cfg e"
  by (simp_all add: engine_send_error_def)

lemma engine_cancel_in [simp]:
  "en_in (engine_cancel e) = en_in e" "en_cfg (engine_cancel e) = en_cfg e"
  by (simp_all add: engine_cancel_def Let_def)

lemma engine_read_size:
  assumes "engine_read_frame_timeout d e = (r, e')"
  shows "io_size (en_in e') \<le> io_size (en_in e)" and "r = Frame bs \<Longrightarrow> io_size (en_in e') < io_size (en_in e)"
    and "en_cfg e' = en_cfg e"
  using assms frame_read_size [of "en_malloc e" d "en_in e"]
  by (auto simp: engine_read_frame_timeout_def nc_read_frame_timeout_def uds_frame_read_def Let_def
      split: if_splits prod.splits transport_type.splits)

section \<open>What a round leaves alone\<close>

text \<open>Input and configuration, as seen from a turn.\<close>

abbreviation turn_in :: "turn \<Rightarrow> io list" where "turn_in tc \<equiv> en_in (tc_eng tc)"
abbreviation turn_cfg :: "turn \<Rightarrow> bridge_config" where "turn_cfg tc \<equiv> en_cfg (tc_eng tc)"

lemma live_keeps [simp]:
  "tc_eng (live_heartbeat tc) = tc_eng tc" "tc_eng (live_delta t tc) = tc_eng tc"
  "tc_eng (handle_delta t tc) = tc_eng tc" "tc_eng (handle_compaction t tc) = tc_eng tc"
  "tc_eng (handle_raw f tc) = tc_eng tc" "tc_eng (set_out msg tc) = tc_eng tc"
  "tc_eng (append_history l tc) = tc_eng tc" "tc_eng (emit_turn_metrics st p c tc) = tc_eng tc"
  by (simp_all add: live_heartbeat_def live_delta_def live_write_def handle_delta_def handle_compaction_def
      handle_raw_def set_out_def append_history_def emit_turn_metrics_def Let_def split: option.splits)

lemma midturn_client_keeps:
  "turn_in (midturn_client req tc) = turn_in tc" "turn_cfg (midturn_client req tc) = turn_cfg tc"
  "tc_server (midturn_client req tc) = tc_server tc"
  by (auto simp: midturn_client_def Let_def on_eng_def engine_set_turn_active_def split: option.splits prod.splits)

lemma midturn_keeps [simp]:
  "turn_in (handle_midturn_control_plane tc) = turn_in tc"
  "turn_cfg (handle_midturn_control_plane tc) = turn_cfg tc"
proof -
  have "turn_in (foldl (\<lambda>tc req. midturn_client req tc) tc rs) = turn_in tc
      \<and> turn_cfg (foldl (\<lambda>tc req. midturn_client req tc) tc rs) = turn_cfg tc" for rs tc
    by (induction rs arbitrary: tc) (simp_all add: midturn_client_keeps)
  then show "turn_in (handle_midturn_control_plane tc) = turn_in tc"
    and "turn_cfg (handle_midturn_control_plane tc) = turn_cfg tc"
    by (simp_all add: handle_midturn_control_plane_def split: list.splits)
qed

lemma answer_tool_eng: "answer_tool env tool args tc = Some (reply, tc') \<Longrightarrow> tc_eng tc' = tc_eng tc"
  by (auto simp: answer_tool_def tool_refused_def Let_def split: if_splits option.splits prod.splits)

lemma handle_tool_Go:
  assumes "handle_tool env tool args tc count cycles rem = Go tc' c y r"
  shows "turn_in tc' = turn_in tc" "turn_cfg tc' = turn_cfg tc" "c = count + 1" "y = cycles + 1" "r = rem"
    "y \<le> MAX_TOOL_CYCLES"
  using assms
  by (auto simp: handle_tool_def Let_def on_eng_def dest!: answer_tool_eng split: if_splits option.splits prod.splits)

lemma handle_frame_Go:
  assumes "handle_frame env frame tc count cycles = Go tc' c y r"
  shows "turn_in tc' = turn_in tc \<and> turn_cfg tc' = turn_cfg tc \<and> (c = count \<or> c = count + 1)
    \<and> (y = cycles \<or> y = cycles + 1 \<and> y \<le> MAX_TOOL_CYCLES)"
  using assms
  by (auto simp: handle_frame_def Let_def dest: handle_tool_Go split: if_splits native_event_type.splits prod.splits)

lemma turn_step_Go:
  assumes "turn_step env tc count cycles rem = Go tc' c y r"
  shows "(io_size (turn_in tc') < io_size (turn_in tc)
      \<or> io_size (turn_in tc') \<le> io_size (turn_in tc) \<and> nat r < nat rem \<and> c = count \<and> y = cycles)"
    and "turn_cfg tc' = turn_cfg tc" and "c \<le> count + 1"
    and "y = cycles \<or> y = cycles + 1 \<and> y \<le> MAX_TOOL_CYCLES"
proof -
  let ?tc1 = "handle_midturn_control_plane tc"
  obtain x e where rd: "engine_read_frame_timeout (poll_ms tc rem) (tc_eng ?tc1) = (x, e)" by (metis surj_pair)
  have go: "(case x of Frame frame \<Rightarrow> handle_frame env frame (?tc1\<lparr>tc_eng := e\<rparr>) count cycles
      | _ \<Rightarrow> handle_silence (?tc1\<lparr>tc_eng := e\<rparr>) count cycles (rem - poll_ms tc rem)) = Go tc' c y r"
    using assms rd by (auto simp: turn_step_def Let_def split: if_splits frame_result.splits)
  note sz = engine_read_size [OF rd]
  have silent: "turn_in tc' = en_in e \<and> turn_cfg tc' = en_cfg e \<and> nat r < nat rem \<and> c = count \<and> y = cycles"
    if "handle_silence (?tc1\<lparr>tc_eng := e\<rparr>) count cycles (rem - poll_ms tc rem) = Go tc' c y r"
    using that by (auto simp: handle_silence_def Let_def poll_ms_def split: if_splits)
  show "io_size (turn_in tc') < io_size (turn_in tc)
      \<or> io_size (turn_in tc') \<le> io_size (turn_in tc) \<and> nat r < nat rem \<and> c = count \<and> y = cycles"
    and "turn_cfg tc' = turn_cfg tc" and "c \<le> count + 1"
    and "y = cycles \<or> y = cycles + 1 \<and> y \<le> MAX_TOOL_CYCLES"
    using go sz silent by (auto dest!: handle_frame_Go split: frame_result.splits)
qed

section \<open>The event loop\<close>

function turn_loop :: "turn_env \<Rightarrow> turn \<Rightarrow> nat \<Rightarrow> nat \<Rightarrow> int \<Rightarrow> (bool \<times> turn) c_run option" where
  "turn_loop env tc count cycles remaining =
     (if int count < cf_max_turn_events (turn_cfg tc) then
        case turn_step env tc count cycles remaining of
          Go tc1 count1 cycles1 remaining1 \<Rightarrow> turn_loop env tc1 count1 cycles1 remaining1
        | Stop ok tc1 \<Rightarrow> Some (Ret (ok, tc1))
        | Never \<Rightarrow> None
        | Smash \<Rightarrow> Some Overrun
      else Some (Ret (True, emit_turn_metrics ''incomplete'' 0 0 (tc\<lparr>tc_event_limit_exceeded := True\<rparr>))))"
  by pat_completeness auto
termination
proof (relation "measures [\<lambda>(env, tc, count, cycles, rem). io_size (turn_in tc),
    \<lambda>(env, tc, count, cycles, rem). nat rem]")
  fix env tc count cycles and remaining :: int and tc1 count1 cycles1 remaining1
  assume "turn_step env tc count cycles remaining = Go tc1 count1 cycles1 remaining1"
  from turn_step_Go(1) [OF this]
  show "((env, tc1, count1, cycles1, remaining1), env, tc, count, cycles, remaining)
      \<in> measures [\<lambda>(env, tc, count, cycles, rem). io_size (turn_in tc),
          \<lambda>(env, tc, count, cycles, rem). nat rem]"
    by auto
qed simp

declare turn_loop.simps [simp del]

definition turn_process_events :: "turn_env \<Rightarrow> turn \<Rightarrow> (bool \<times> turn) c_run option" where
  "turn_process_events env tc =
     turn_loop env (tc\<lparr>tc_event_prefix := []\<rparr>) 0 0 (full_timeout (turn_cfg tc))"

definition turn_cleanup :: "turn \<Rightarrow> turn" where
  "turn_cleanup tc =
     (if \<not> tc_active tc then tc
      else (on_eng (\<lambda>e. (engine_set_turn_active False e)\<lparr>en_cancelled := False\<rparr>) tc)\<lparr>tc_active := False\<rparr>)"

section \<open>The turn as the server runs it\<close>

definition run_phases :: "turn_env \<Rightarrow> turn \<Rightarrow> (bool \<times> turn) c_run option" where
  "run_phases env tc =
     (case turn_begin env tc of
        (False, tc1) \<Rightarrow> Some (Ret (False, tc1))
      | (True, tc1) \<Rightarrow>
          (case turn_await_ack env tc1 of
             None \<Rightarrow> None
           | Some (False, tc2) \<Rightarrow> Some (Ret (False, tc2))
           | Some (True, tc2) \<Rightarrow> turn_process_events env tc2))"

text \<open>The opening events of a live stream; their results are not looked at.\<close>

definition open_live_stream :: "int \<Rightarrow> string \<Rightarrow> bool \<Rightarrow> wr list \<Rightarrow> stream_state" where
  "open_live_stream now model gzip script =
     (let s0 = responses_stream_init ''resp-stream'' model gzip script;
          s1 = snd (responses_stream_emit_created now s0);
          s2 = snd (responses_stream_start_item s1)
      in snd (responses_stream_start_part CONTENT_TYPE_OUTPUT_TEXT None s2))"

text \<open>The terminal events of a live stream: completed, failed after a cancellation, or error.\<close>

definition end_stream :: "int \<Rightarrow> bool \<Rightarrow> bool \<Rightarrow> bool \<Rightarrow> string \<Rightarrow> stream_state \<Rightarrow> stream_state" where
  "end_stream now ok cancelled limited out s =
     (if ok then
        let s1 = (if limited then s\<lparr>ss_incomplete_details := ''max_turn_events''\<rparr> else s);
            s2 = snd (responses_stream_emit_text_done s1);
            s3 = snd (responses_stream_emit_content_part_done s2);
            s4 = snd (responses_stream_emit_output_item_done s3)
        in snd (responses_stream_emit_completed now s4)
      else if cancelled then snd (responses_stream_emit_failed ''cancelled'' s)
      else snd (responses_stream_emit_error (or_else out ''native turn failed (see bridge logs)'') s))"

definition finish_turn :: "bool \<Rightarrow> turn \<Rightarrow> turn" where
  "finish_turn ok tc =
     (let cancelled = en_cancelled (tc_eng tc);
          limited = tc_event_limit_exceeded tc;
          tc1 = on_eng (\<lambda>e. (engine_set_turn_active False e)\<lparr>en_turn_event_limited := ok \<and> limited\<rparr>)
                  (turn_cleanup tc);
          tc2 = tc1\<lparr>tc_stream :=
                  map_option (end_stream (en_time (tc_eng tc1)) ok cancelled limited (tc_out_buf tc1)) (tc_stream tc1)\<rparr>
      in if ok then
           on_eng (engine_push_text (or_else (tc_out_buf tc2)
             (''Native agent returned an empty framed response.'' @ [CHR 0x0A]))) tc2
         else tc2)"

definition framed_turn :: "turn_env \<Rightarrow> turn \<Rightarrow> (bool \<times> turn) c_run option" where
  "framed_turn env tc =
     (case run_phases env (on_eng (engine_set_turn_active True) tc) of
        None \<Rightarrow> None
      | Some Overrun \<Rightarrow> Some Overrun
      | Some (Ret (ok, tc1)) \<Rightarrow> Some (Ret (ok, finish_turn ok tc1)))"

end
