(* ===== verification/Turn_Properties.thy ===== *)
theory Turn_Properties
  imports Turn_Events
begin

text \<open>
  What a turn guarantees: it comes back, it ends the stream and frees the engine, it starts only
  the processes the policy allows, and what it makes of the agent's frames.
\<close>

section \<open>What the engine operations leave alone\<close>

lemma cfg_keeps [simp]:
  "en_cfg (use_session sid e) = en_cfg e" "en_cfg (load_index env e) = en_cfg e"
  "en_cfg (set_last_session sid e) = en_cfg e" "en_cfg (record_state k p m b ack e) = en_cfg e"
  by (simp_all add: use_session_def load_index_def on_sessions_def set_last_session_def record_state_def
      split: option.splits)

lemma exchange_cfg [simp]: "en_cfg (snd (engine_exchange j d e)) = en_cfg e"
  using engine_read_size(3) [of d "engine_write_frame j e"]
  by (auto simp: engine_exchange_def split: prod.splits)

lemma state_request_cfg:
  assumes "\<And>ack e. en_cfg (on_ack ack e) = en_cfg e"
  shows "en_cfg (snd (state_request n j on_ack e)) = en_cfg e"
  using assms exchange_cfg [of j 10000 e]
  by (auto simp: state_request_def split: prod.splits option.splits simp del: exchange_cfg)

lemma session_ops_cfg [simp]:
  "en_cfg (snd (engine_load_session_state k s e)) = en_cfg e"
  "en_cfg (snd (engine_save_session_state k s e)) = en_cfg e"
  "en_cfg (snd (engine_switch_session_state k k' s e)) = en_cfg e"
  "en_cfg (snd (engine_create_session_state k p m b md e)) = en_cfg e"
  "en_cfg (snd (create_state env k e)) = en_cfg e"
  by (simp_all add: engine_load_session_state_def engine_save_session_state_def create_state_def
      engine_switch_session_state_def engine_create_session_state_def state_request_cfg)

text \<open>A case distinction over the result of an operation that keeps the configuration.\<close>

lemma cfg_case [simp]:
  "en_cfg (snd r) = c \<Longrightarrow> (\<And>e. en_cfg (f e) = en_cfg e) \<Longrightarrow> (\<And>e. en_cfg (g e) = en_cfg e) \<Longrightarrow>
   en_cfg (case r of (True, e) \<Rightarrow> f e | (False, e) \<Rightarrow> g e) = c"
  by (cases r) (auto split: bool.splits)

lemma restorable_cfg [simp]: "en_cfg (snd (restorable w k e)) = en_cfg e"
  by (simp add: restorable_def)

lemma begin_parts_cfg [simp]:
  "en_cfg (begin_reset env e) = en_cfg e" "en_cfg (default_create env k e) = en_cfg e"
  "en_cfg (default_load k s e) = en_cfg e" "en_cfg (session_first_load k st e) = en_cfg e"
  by (simp_all add: begin_reset_def default_create_def default_load_def session_first_load_def Let_def
      split: option.split)

lemma begin_default_cfg [simp]: "en_cfg (begin_default env e) = en_cfg e"
  by (simp add: begin_default_def Let_def split: option.split)

lemma cfg_let_text: "(\<And>x :: string. en_cfg (f x) = c) \<Longrightarrow> en_cfg (let x = a in f x) = c"
  by (simp add: Let_def)

lemma cfg_let: "en_cfg a = c \<Longrightarrow> (\<And>x. en_cfg x = c \<Longrightarrow> en_cfg (f x) = c) \<Longrightarrow> en_cfg (let x = a in f x) = c"
  by (simp add: Let_def)

lemma session_switch_cfg [simp]: "en_cfg (session_switch k st e) = en_cfg e"
  unfolding session_switch_def by (rule cfg_let_text, rule cfg_let) (simp_all split: option.split)

lemma begin_session_cfg [simp]: "en_cfg (begin_session env sid e) = en_cfg e"
  by (simp add: begin_session_def Let_def)

lemma choose_session_cfg [simp]: "en_cfg (choose_session env tc e) = en_cfg e"
  by (simp add: choose_session_def)

lemma save_after_turn_cfg [simp]: "en_cfg (save_after_turn env e) = en_cfg e"
  by (simp add: save_after_turn_def Let_def split: option.split)

section \<open>Tools\<close>

definition exact_command :: "string list \<Rightarrow> bool" where
  "exact_command argv =
     (\<exists>args cmd. exact_object_field args ''command'' 2048 = Some cmd \<and> cmd \<noteq> [] \<and> argv = [''sh'', ''-c'', cmd])"

text \<open>From \<open>tc0\<close> to \<open>tc\<close>, in at most \<open>n\<close> tool cycles.\<close>

definition tools_ok :: "turn \<Rightarrow> nat \<Rightarrow> turn \<Rightarrow> bool" where
  "tools_ok tc0 n tc =
     (turn_cfg tc = turn_cfg tc0 \<and> tc_active tc = tc_active tc0
      \<and> (\<exists>new. tc_spawned tc = tc_spawned tc0 @ new \<and> list_all exact_command new \<and> length new \<le> n
            \<and> (new = [] \<or> cf_shell_command_enabled (turn_cfg tc0))))"

lemma tools_ok_refl: "tools_ok tc n tc"
  by (simp add: tools_ok_def)

lemma tools_ok_same:
  "tools_ok tc0 n tc \<Longrightarrow> turn_cfg tc' = turn_cfg tc \<Longrightarrow> tc_active tc' = tc_active tc \<Longrightarrow>
   tc_spawned tc' = tc_spawned tc \<Longrightarrow> n \<le> m \<Longrightarrow> tools_ok tc0 m tc'"
  by (auto simp: tools_ok_def)

lemma log_keeps [simp]:
  "tc_active (live_heartbeat tc) = tc_active tc" "tc_spawned (live_heartbeat tc) = tc_spawned tc"
  "tc_active (handle_delta t tc) = tc_active tc" "tc_spawned (handle_delta t tc) = tc_spawned tc"
  "tc_active (handle_compaction t tc) = tc_active tc" "tc_spawned (handle_compaction t tc) = tc_spawned tc"
  "tc_active (handle_raw fr tc) = tc_active tc" "tc_spawned (handle_raw fr tc) = tc_spawned tc"
  "tc_active (set_out m tc) = tc_active tc" "tc_spawned (set_out m tc) = tc_spawned tc"
  "tc_active (emit_turn_metrics st p c tc) = tc_active tc" "tc_spawned (emit_turn_metrics st p c tc) = tc_spawned tc"
  "tc_active (append_history l tc) = tc_active tc" "tc_spawned (append_history l tc) = tc_spawned tc"
  "tc_active (on_eng f tc) = tc_active tc" "tc_spawned (on_eng f tc) = tc_spawned tc"
  "tc_eng (on_eng f tc) = f (tc_eng tc)"
  by (simp_all add: live_heartbeat_def live_delta_def live_write_def handle_delta_def handle_compaction_def
      handle_raw_def set_out_def append_history_def emit_turn_metrics_def on_eng_def Let_def split: option.splits)

lemma handle_response_keeps [simp]:
  "tc_active (handle_response env d tc) = tc_active tc" "tc_spawned (handle_response env d tc) = tc_spawned tc"
  "turn_cfg (handle_response env d tc) = turn_cfg tc"
  by (cases d; simp add: handle_response_def live_delta_def live_write_def Let_def split: option.split)+

lemma midturn_client_log:
  "tc_active (midturn_client req tc) = tc_active tc \<and> tc_spawned (midturn_client req tc) = tc_spawned tc"
  by (simp add: midturn_client_def Let_def split: option.splits prod.splits)

lemma midturn_log [simp]:
  "tc_active (handle_midturn_control_plane tc) = tc_active tc"
  "tc_spawned (handle_midturn_control_plane tc) = tc_spawned tc"
proof -
  have "tc_active (foldl (\<lambda>tc req. midturn_client req tc) tc rs) = tc_active tc
      \<and> tc_spawned (foldl (\<lambda>tc req. midturn_client req tc) tc rs) = tc_spawned tc" for rs tc
    by (induction rs arbitrary: tc) (simp_all add: midturn_client_log)
  then show "tc_active (handle_midturn_control_plane tc) = tc_active tc"
    and "tc_spawned (handle_midturn_control_plane tc) = tc_spawned tc"
    by (simp_all add: handle_midturn_control_plane_def split: list.splits)
qed

lemma answer_tool_ok:
  assumes "answer_tool env tool args tc = Some (reply, tc')" and "tools_ok tc0 n tc"
  shows "tools_ok tc0 (Suc n) tc'"
proof (cases "tc_spawned tc' = tc_spawned tc")
  case True
  then show ?thesis using assms
    by (intro tools_ok_same [OF assms(2)])
      (auto simp: answer_tool_def tool_refused_def Let_def split: if_splits option.splits prod.splits)
next
  case False
  then obtain ok run argv where r: "tool_runner_run (tv_callback env) (tv_tools env (tc_tool_calls tc)) tool args
      (cf_shell_command_enabled (turn_cfg tc)) (tool_timeout_ms (turn_cfg tc) tool) = Some (ok, run, Some argv)"
    and t: "tc_spawned tc' = tc_spawned tc @ [argv]" "turn_cfg tc' = turn_cfg tc" "tc_active tc' = tc_active tc"
    using assms(1)
    by (auto simp: answer_tool_def tool_refused_def Let_def split: if_splits option.splits prod.splits)
  have "exact_command argv" and "cf_shell_command_enabled (turn_cfg tc)"
    using spawn_exact [OF r] by (auto simp: exact_command_def)
  then show ?thesis using t assms(2) by (auto simp: tools_ok_def)
qed

text \<open>The rule for the event loop: what rounds keep holds at the end.\<close>

lemma turn_loop_rule:
  assumes "turn_loop env tc c y r = Some (Ret (ok, tc'))" and "P tc y"
    and step: "\<And>env tc c y r tc1 c1 y1 r1. P tc y \<Longrightarrow> turn_step env tc c y r = Go tc1 c1 y1 r1 \<Longrightarrow> P tc1 y1"
    and stop: "\<And>env tc c y r ok tc1. P tc y \<Longrightarrow> turn_step env tc c y r = Stop ok tc1 \<Longrightarrow> Q ok tc1"
    and limit: "\<And>tc y. P tc y \<Longrightarrow> Q True (emit_turn_metrics ''incomplete'' 0 0 (tc\<lparr>tc_event_limit_exceeded := True\<rparr>))"
  shows "Q ok tc'"
  using assms(1,2)
proof (induction env tc c y r rule: turn_loop.induct)
  case (1 env tc c y r)
  show ?case
  proof (cases "int c < cf_max_turn_events (turn_cfg tc)")
    case False
    then show ?thesis using "1.prems" limit [of tc y] by (auto simp: turn_loop.simps [of env tc])
  next
    case True
    show ?thesis
    proof (cases "turn_step env tc c y r")
      case (Go tc1 c1 y1 r1)
      have "turn_loop env tc1 c1 y1 r1 = Some (Ret (ok, tc'))"
        using "1.prems"(1) True Go by (simp add: turn_loop.simps [of env tc])
      then show ?thesis by (rule "1.IH" [OF True Go]) (rule step [OF "1.prems"(2) Go])
    qed (use "1.prems" True stop in \<open>auto simp: turn_loop.simps [of env tc]\<close>)
  qed
qed

lemma handle_tool_cases:
  assumes "handle_tool env tool args tc c y r = step" and "step = Go tc1 c1 y1 r1 \<or> step = Stop ok tc1"
  obtains (too_many) "MAX_TOOL_CYCLES < y + 1" "step = Stop ok tc1" "turn_cfg tc1 = turn_cfg tc"
      "tc_active tc1 = tc_active tc" "tc_spawned tc1 = tc_spawned tc"
  | (answered) reply tc2 tc3 where "y + 1 \<le> MAX_TOOL_CYCLES" "turn_cfg tc2 = turn_cfg tc"
      "tc_active tc2 = tc_active tc" "tc_spawned tc2 = tc_spawned tc" "tc_eng tc2 = tc_eng tc"
      "answer_tool env tool args tc2 = Some (reply, tc3)" "turn_cfg tc1 = turn_cfg tc3"
      "tc_active tc1 = tc_active tc3" "tc_spawned tc1 = tc_spawned tc3" "step = Go tc1 c1 y1 r1 \<Longrightarrow> y1 = y + 1"
proof (cases "y + 1 > MAX_TOOL_CYCLES")
  case True
  show ?thesis by (rule too_many) (use assms True in \<open>auto simp: handle_tool_def Let_def\<close>)
next
  case False
  let ?tc2 = "tc\<lparr>tc_tool_calls := tc_tool_calls tc + 1, tc_last_tool_name := cstr_copy 64 tool,
    tc_last_tool_args := cstr_copy 2048 (or_else args ''{}''), tc_last_tool_run := tool_run_zero\<rparr>"
  from assms False obtain reply tc3 where a: "answer_tool env tool args ?tc2 = Some (reply, tc3)"
    by (cases "answer_tool env tool args ?tc2") (auto simp: handle_tool_def Let_def)
  have h: "step = (if \<not> en_malloc (tc_eng tc3) 4096
      then Stop False (set_out ''native agent tool result build failed'' tc3)
      else case reply of None \<Rightarrow> Smash
        | Some frame \<Rightarrow> Go (on_eng (engine_write_frame frame) tc3) (c + 1) (y + 1) r)"
    using assms(1) False a by (simp add: handle_tool_def Let_def)
  have "tc1 = set_out ''native agent tool result build failed'' tc3
      \<or> (\<exists>frame. tc1 = on_eng (engine_write_frame frame) tc3)"
    and y: "step = Go tc1 c1 y1 r1 \<Longrightarrow> y1 = y + 1"
    using assms(2) unfolding h by (auto split: if_splits option.splits)
  then have "turn_cfg tc1 = turn_cfg tc3" "tc_active tc1 = tc_active tc3" "tc_spawned tc1 = tc_spawned tc3"
    by auto
  from answered [OF _ _ _ _ _ a this y] False show ?thesis by simp
qed

lemma handle_tool_ok:
  assumes "handle_tool env tool args tc c y r = step" and "step = Go tc1 c1 y1 r1 \<or> step = Stop ok tc1"
    and "tools_ok tc0 y tc" and "y \<le> MAX_TOOL_CYCLES"
  shows "tools_ok tc0 MAX_TOOL_CYCLES tc1" and "step = Go tc1 c1 y1 r1 \<Longrightarrow> tools_ok tc0 y1 tc1 \<and> y1 \<le> MAX_TOOL_CYCLES"
proof -
  have "tools_ok tc0 MAX_TOOL_CYCLES tc1 \<and> (step = Go tc1 c1 y1 r1 \<longrightarrow> tools_ok tc0 y1 tc1 \<and> y1 \<le> MAX_TOOL_CYCLES)"
    using assms(1,2)
  proof (cases rule: handle_tool_cases)
    case too_many
    then show ?thesis using assms(3,4) by (auto intro: tools_ok_same)
  next
    case (answered reply tc2 tc3)
    have "tools_ok tc0 y tc2" by (rule tools_ok_same [OF assms(3)]) (simp_all only: answered order.refl)
    from answer_tool_ok [OF answered(6) this] have t3: "tools_ok tc0 (y + 1) tc3" by simp
    have "tools_ok tc0 m tc1" if "y + 1 \<le> m" for m
      by (rule tools_ok_same [OF t3 answered(7-9) that])
    then show ?thesis using answered(1,10) by auto
  qed
  then show "tools_ok tc0 MAX_TOOL_CYCLES tc1"
    and "step = Go tc1 c1 y1 r1 \<Longrightarrow> tools_ok tc0 y1 tc1 \<and> y1 \<le> MAX_TOOL_CYCLES" by blast+
qed

lemma handle_frame_ok:
  assumes "handle_frame env frame tc c y = step" and "step = Go tc1 c1 y1 r1 \<or> step = Stop ok tc1"
    and "tools_ok tc0 y tc" and "y \<le> MAX_TOOL_CYCLES"
  shows "tools_ok tc0 MAX_TOOL_CYCLES tc1 \<and> (step = Go tc1 c1 y1 r1 \<longrightarrow> tools_ok tc0 y1 tc1 \<and> y1 \<le> MAX_TOOL_CYCLES)"
proof -
  let ?tc = "live_heartbeat tc"
  let ?r = "full_timeout (turn_cfg ?tc)"
  have t: "tools_ok tc0 y ?tc" by (rule tools_ok_same [OF assms(3)]) simp_all
  consider (tool) tool args where "step = handle_tool env tool args ?tc c y ?r"
    | (go) tc2 c2 where "step = Go tc2 c2 y ?r" "turn_cfg tc2 = turn_cfg ?tc" "tc_active tc2 = tc_active ?tc"
        "tc_spawned tc2 = tc_spawned ?tc"
    | (stop) ok2 tc2 where "step = Stop ok2 tc2" "turn_cfg tc2 = turn_cfg ?tc" "tc_active tc2 = tc_active ?tc"
        "tc_spawned tc2 = tc_spawned ?tc"
    using assms(1) unfolding handle_frame_def Let_def
    by (auto split: if_splits native_event_type.splits prod.splits)
  then show ?thesis
  proof cases
    case tool
    then show ?thesis
      using handle_tool_ok [OF tool [symmetric] assms(2) t assms(4)] by blast
  next
    case go
    have "tools_ok tc0 m tc2" if "y \<le> m" for m by (rule tools_ok_same [OF t go(2-4) that])
    then show ?thesis using go(1) assms(2,4) by auto
  next
    case stop
    have "tools_ok tc0 MAX_TOOL_CYCLES tc2" by (rule tools_ok_same [OF t stop(2-4) assms(4)])
    then show ?thesis using stop(1) assms(2) by auto
  qed
qed

lemma turn_step_ok:
  assumes "turn_step env tc c y r = step" and "step = Go tc1 c1 y1 r1 \<or> step = Stop ok tc1"
    and "tools_ok tc0 y tc" and "y \<le> MAX_TOOL_CYCLES"
  shows "tools_ok tc0 MAX_TOOL_CYCLES tc1 \<and> (step = Go tc1 c1 y1 r1 \<longrightarrow> tools_ok tc0 y1 tc1 \<and> y1 \<le> MAX_TOOL_CYCLES)"
proof -
  let ?tc = "handle_midturn_control_plane tc"
  obtain x e where rd: "engine_read_frame_timeout (poll_ms tc r) (tc_eng ?tc) = (x, e)" by (metis surj_pair)
  have t: "tools_ok tc0 y ?tc" by (rule tools_ok_same [OF assms(3)]) simp_all
  have te: "tools_ok tc0 y (?tc\<lparr>tc_eng := e\<rparr>)"
    by (rule tools_ok_same [OF t]) (simp_all add: engine_read_size(3) [OF rd])
  consider (cancelled) "step = Stop False (emit_turn_metrics ''cancelled'' 0 0 (set_out ''cancelled'' ?tc))"
    | (frame) frame where "step = handle_frame env frame (?tc\<lparr>tc_eng := e\<rparr>) c y"
    | (silence) "step = handle_silence (?tc\<lparr>tc_eng := e\<rparr>) c y (r - poll_ms tc r)"
    using assms(1) rd unfolding turn_step_def Let_def by (auto split: if_splits frame_result.splits)
  then show ?thesis
  proof cases
    case cancelled
    have "tools_ok tc0 MAX_TOOL_CYCLES (emit_turn_metrics ''cancelled'' 0 0 (set_out ''cancelled'' ?tc))"
      by (rule tools_ok_same [OF t _ _ _ assms(4)]) simp_all
    then show ?thesis using cancelled assms(2) by auto
  next
    case frame
    then show ?thesis using handle_frame_ok [OF frame [symmetric] assms(2) te assms(4)] by blast
  next
    case silence
    have go: "tools_ok tc0 m (live_heartbeat (?tc\<lparr>tc_eng := e\<rparr>))" if "y \<le> m" for m
      by (rule tools_ok_same [OF te _ _ _ that]) simp_all
    have stop: "tools_ok tc0 MAX_TOOL_CYCLES (emit_turn_metrics ''timeout'' 0 0
        (on_eng (engine_send_error ty d) (set_out msg (handle_midturn_control_plane
          (live_heartbeat (?tc\<lparr>tc_eng := e\<rparr>))))))" for ty d msg
      by (rule tools_ok_same [OF te _ _ _ assms(4)]) simp_all
    show ?thesis using silence assms(2,4) go stop
      by (auto simp: handle_silence_def Let_def split: if_splits)
  qed
qed

lemma turn_loop_tools:
  assumes "turn_loop env tc c y r = Some (Ret (ok, tc'))" and "tools_ok tc0 y tc" and "y \<le> MAX_TOOL_CYCLES"
  shows "tools_ok tc0 MAX_TOOL_CYCLES tc'"
proof (rule turn_loop_rule [OF assms(1), where P = "\<lambda>tc y. tools_ok tc0 y tc \<and> y \<le> MAX_TOOL_CYCLES"
      and Q = "\<lambda>ok tc. tools_ok tc0 MAX_TOOL_CYCLES tc"])
  show "tools_ok tc0 y tc \<and> y \<le> MAX_TOOL_CYCLES" using assms by simp
next
  fix env tc c y r tc1 c1 y1 r1
  assume "tools_ok tc0 y tc \<and> y \<le> MAX_TOOL_CYCLES" and "turn_step env tc c y r = Go tc1 c1 y1 r1"
  then show "tools_ok tc0 y1 tc1 \<and> y1 \<le> MAX_TOOL_CYCLES"
    using turn_step_ok [OF \<open>turn_step env tc c y r = Go tc1 c1 y1 r1\<close>, of tc1 c1 y1 r1 True tc0] by blast
next
  fix env tc c y r ok tc1
  assume "tools_ok tc0 y tc \<and> y \<le> MAX_TOOL_CYCLES" and "turn_step env tc c y r = Stop ok tc1"
  then show "tools_ok tc0 MAX_TOOL_CYCLES tc1"
    using turn_step_ok [OF \<open>turn_step env tc c y r = Stop ok tc1\<close>, of tc1 0 0 0 ok tc0] by blast
next
  fix tc y
  assume p: "tools_ok tc0 y tc \<and> y \<le> MAX_TOOL_CYCLES"
  show "tools_ok tc0 MAX_TOOL_CYCLES (emit_turn_metrics ''incomplete'' 0 0 (tc\<lparr>tc_event_limit_exceeded := True\<rparr>))"
    by (rule tools_ok_same [where n = y and tc = tc]) (use p in simp_all)
qed

section \<open>The phases\<close>

lemma turn_begin_keeps:
  assumes "turn_begin env tc = (ok, tc')"
  shows "tc_active tc'" "tc_spawned tc' = tc_spawned tc" "turn_cfg tc' = turn_cfg tc"
    "tc_request_id tc' = request_id_of (tc_request_number tc)"
  using assms by (auto simp: turn_begin_def Let_def split: option.splits)

lemma send_opt_error_cfg [simp]: "en_cfg (send_opt_error err e) = en_cfg e"
  by (simp add: send_opt_error_def split: option.splits)

lemma ack_loop_keeps:
  "ack_loop env n tc = Some (ok, tc') \<Longrightarrow>
   tc_active tc' = tc_active tc \<and> tc_spawned tc' = tc_spawned tc \<and> turn_cfg tc' = turn_cfg tc"
proof (induction n arbitrary: tc)
  case 0
  then show ?case by auto
next
  case (Suc n)
  obtain x e where rd: "engine_read_frame_timeout (cf_response_timeout_ms (turn_cfg tc)) (tc_eng tc) = (x, e)"
    by (metis surj_pair)
  then show ?case
    using Suc.prems Suc.IH [of "tc\<lparr>tc_eng := e\<rparr>"] engine_read_size(3) [OF rd]
    by (auto split: frame_result.splits ack_verdict.splits)
qed

lemma run_phases_tools:
  assumes "run_phases env tc = Some (Ret (ok, tc'))"
  shows "tools_ok (tc\<lparr>tc_active := True\<rparr>) MAX_TOOL_CYCLES tc'"
proof -
  obtain ok1 tc1 where b: "turn_begin env tc = (ok1, tc1)" by force
  have t1: "tools_ok (tc\<lparr>tc_active := True\<rparr>) m tc1" for m
    by (rule tools_ok_same [OF tools_ok_refl [of _ 0]]) (simp_all add: turn_begin_keeps [OF b])
  show ?thesis
  proof (cases ok1)
    case False
    then show ?thesis using assms b t1 by (simp add: run_phases_def)
  next
    case True
    then obtain ok2 tc2 where a: "turn_await_ack env tc1 = Some (ok2, tc2)"
      using assms b by (auto simp: run_phases_def split: option.splits)
    note k = ack_loop_keeps [OF a [unfolded turn_await_ack_def]]
    have t2: "tools_ok (tc\<lparr>tc_active := True\<rparr>) m tc2" for m
      by (rule tools_ok_same [OF t1 [of 0]]) (simp_all add: k)
    show ?thesis
    proof (cases ok2)
      case False
      then show ?thesis using assms b True a t2 by (simp add: run_phases_def)
    next
      case True
      have t3: "tools_ok (tc\<lparr>tc_active := True\<rparr>) 0 (tc2\<lparr>tc_event_prefix := []\<rparr>)"
        by (rule tools_ok_same [OF t2 [of 0]]) simp_all
      show ?thesis
        using assms b \<open>ok1\<close> a True
        by (intro turn_loop_tools [OF _ t3]) (simp_all add: run_phases_def turn_process_events_def)
    qed
  qed
qed

lemma finish_turn_keeps:
  "tc_spawned (finish_turn ok tc) = tc_spawned tc"
  by (simp add: finish_turn_def Let_def turn_cleanup_def)

section \<open>Properties\<close>


lemma finish_turn_eng:
  "tc_eng (finish_turn ok tc) =
     (if ok then engine_push_text (or_else (tc_out_buf (turn_cleanup tc))
        (''Native agent returned an empty framed response.'' @ [CHR 0x0A])) else id)
       ((engine_set_turn_active False (tc_eng (turn_cleanup tc)))
          \<lparr>en_turn_event_limited := ok \<and> tc_event_limit_exceeded tc\<rparr>)"
  by (simp add: finish_turn_def Let_def on_eng_def)

lemma end_stream_terminal:
  "ss_terminal (end_stream now ok cancelled limited out s) = (if ok then STREAM_COMPLETED else STREAM_ERROR)"
  by (simp add: end_stream_def Let_def responses_stream_emit_completed_def responses_stream_emit_failed_def
      responses_stream_emit_error_def)

lemma framed_turn_settled:
  assumes "framed_turn env tc = Some (Ret (ok, tc'))"
  shows "\<not> tc_active tc'" "\<not> en_turn_active (tc_eng tc')" "\<not> en_cancelled (tc_eng tc')" "turn_cfg tc' = turn_cfg tc"
    "map_option ss_terminal (tc_stream tc')
       = map_option (\<lambda>_. if ok then STREAM_COMPLETED else STREAM_ERROR) (tc_stream tc')"
proof -
  obtain tc1 where r: "run_phases env (on_eng (engine_set_turn_active True) tc) = Some (Ret (ok, tc1))"
    and tc': "tc' = finish_turn ok tc1"
    using assms by (auto simp: framed_turn_def split: option.splits c_run.splits)
  have a: "tc_active tc1" and cfg: "turn_cfg tc1 = turn_cfg tc"
    using run_phases_tools [OF r] by (simp_all add: tools_ok_def engine_set_turn_active_def)
  from a have c: "turn_cleanup tc1 =
      (on_eng (\<lambda>e. (engine_set_turn_active False e)\<lparr>en_cancelled := False\<rparr>) tc1)\<lparr>tc_active := False\<rparr>"
    by (simp add: turn_cleanup_def)
  show "\<not> tc_active tc'"
    by (simp add: tc' finish_turn_def Let_def c)
  show "\<not> en_turn_active (tc_eng tc')" "\<not> en_cancelled (tc_eng tc')" "turn_cfg tc' = turn_cfg tc"
    by (simp_all add: tc' finish_turn_eng c engine_set_turn_active_def engine_push_text_def cfg)
  show "map_option ss_terminal (tc_stream tc')
      = map_option (\<lambda>_. if ok then STREAM_COMPLETED else STREAM_ERROR) (tc_stream tc')"
    by (simp add: tc' finish_turn_def Let_def end_stream_terminal on_eng_def option.map_comp comp_def)
qed

text \<open>Property C4: when a turn comes back, in whatever way it ended, the engine is free for the next
  one (no turn active, no cancellation pending) and a live stream has got its terminal event:
  completed after a success, failed or error otherwise.\<close>

theorem turn_always_settled:
  "case framed_turn env tc of
     Some (Ret (ok, tc')) \<Rightarrow>
       \<not> tc_active tc' \<and> \<not> en_turn_active (tc_eng tc') \<and> \<not> en_cancelled (tc_eng tc')
       \<and> map_option ss_terminal (tc_stream tc')
           = map_option (\<lambda>_. if ok then STREAM_COMPLETED else STREAM_ERROR) (tc_stream tc')
   | _ \<Rightarrow> True"
  using framed_turn_settled [of env tc] by (simp split: option.split c_run.split prod.split)

section \<open>A turn comes back\<close>

definition tools_end :: "turn_env \<Rightarrow> bridge_config \<Rightarrow> bool" where
  "tools_end env cfg =
     (\<forall>n tool args. tool_runner_run (tv_callback env) (tv_tools env n) tool args
        (cf_shell_command_enabled cfg) (tool_timeout_ms cfg tool) \<noteq> None)"

text \<open>That is so when the shell is disabled, whatever the application's callback does.\<close>

lemma tools_end_no_shell: "\<not> cf_shell_command_enabled cfg \<Longrightarrow> tools_end env cfg"
proof -
  have "run_supported te tool args False ms r \<noteq> None" for te tool args ms r
    by (cases "te_pipes te") (simp_all add: run_supported_def)
  then have rest: "(case r of None \<Rightarrow> run_supported te tool args False ms out | Some (a, b) \<Rightarrow> Some (f a b)) \<noteq> None"
    for r te tool args ms out and f :: "string \<Rightarrow> string \<Rightarrow> bool \<times> tool_run_result \<times> string list option"
    by (cases r) (simp_all split: prod.split del: not_None_eq)
  have branch: "(if c then Some a else b) \<noteq> None"
    if "b \<noteq> None" for c b and a :: "bool \<times> tool_run_result \<times> string list option"
    using that by (simp del: not_None_eq)
  have "tool_runner_run cb te tool args False ms \<noteq> None" for cb te tool args ms
    unfolding tool_runner_run_def Let_def by (intro branch rest)
  then show "\<not> cf_shell_command_enabled cfg \<Longrightarrow> tools_end env cfg" by (simp add: tools_end_def)
qed

lemma answer_tool_ends:
  assumes "tools_end env (turn_cfg tc)"
  shows "answer_tool env tool args tc \<noteq> None"
proof -
  obtain ok run argv where "tool_runner_run (tv_callback env) (tv_tools env (tc_tool_calls tc)) tool args
      (cf_shell_command_enabled (turn_cfg tc)) (tool_timeout_ms (turn_cfg tc) tool) = Some (ok, run, argv)"
    using assms unfolding tools_end_def by (metis not_Some_eq prod_cases3)
  then show ?thesis by (simp add: answer_tool_def Let_def)
qed

lemma handle_tool_ends:
  assumes "tools_end env (turn_cfg tc)"
  shows "handle_tool env tool args tc c y r \<noteq> Never"
proof -
  let ?tc = "tc\<lparr>tc_tool_calls := tc_tool_calls tc + 1, tc_last_tool_name := cstr_copy 64 tool,
      tc_last_tool_args := cstr_copy 2048 (or_else args ''{}''), tc_last_tool_run := tool_run_zero\<rparr>"
  obtain reply tc3 where "answer_tool env tool args ?tc = Some (reply, tc3)"
    using answer_tool_ends [of env ?tc tool args] assms by force
  then show ?thesis by (simp add: handle_tool_def Let_def split: option.splits)
qed

lemma turn_step_ends:
  assumes "tools_end env (turn_cfg tc)"
  shows "turn_step env tc c y r \<noteq> Never"
proof -
  let ?tc = "handle_midturn_control_plane tc"
  obtain x e where rd: "engine_read_frame_timeout (poll_ms tc r) (tc_eng ?tc) = (x, e)" by (metis surj_pair)
  have "tools_end env (turn_cfg (live_heartbeat (?tc\<lparr>tc_eng := e\<rparr>)))"
    using assms engine_read_size(3) [OF rd] by simp
  then have "handle_frame env frame (?tc\<lparr>tc_eng := e\<rparr>) c y \<noteq> Never" for frame
    using handle_tool_ends by (auto simp: handle_frame_def Let_def split: native_event_type.splits prod.splits)
  moreover have "handle_silence (?tc\<lparr>tc_eng := e\<rparr>) c y k \<noteq> Never" for k
    by (simp add: handle_silence_def Let_def)
  ultimately show ?thesis using rd by (auto simp: turn_step_def Let_def split: frame_result.splits)
qed

lemma turn_loop_ends: "tools_end env (turn_cfg tc) \<Longrightarrow> turn_loop env tc c y r \<noteq> None"
proof (induction env tc c y r rule: turn_loop.induct)
  case (1 env tc c y r)
  show ?case
  proof (cases "int c < cf_max_turn_events (turn_cfg tc)")
    case True
    show ?thesis
    proof (cases "turn_step env tc c y r")
      case (Go tc1 c1 y1 r1)
      have "turn_loop env tc1 c1 y1 r1 \<noteq> None"
        using "1.prems" turn_step_Go(2) [OF Go] by (intro "1.IH" [OF True Go]) simp
      then show ?thesis using True Go by (simp add: turn_loop.simps [of env tc])
    qed (use True turn_step_ends [OF "1.prems"] in \<open>auto simp: turn_loop.simps [of env tc]\<close>)
  qed (simp add: turn_loop.simps [of env tc])
qed

lemma ack_loop_ends: "0 \<le> cf_response_timeout_ms (turn_cfg tc) \<Longrightarrow> ack_loop env n tc \<noteq> None"
proof (induction n arbitrary: tc)
  case (Suc n)
  obtain x e where rd: "engine_read_frame_timeout (cf_response_timeout_ms (turn_cfg tc)) (tc_eng tc) = (x, e)"
    by (metis surj_pair)
  have "x \<noteq> Frame_Blocked" using not_blocked [OF Suc.prems, of "tc_eng tc"] rd by simp
  moreover have "ack_loop env n (tc\<lparr>tc_eng := e\<rparr>) \<noteq> None"
    using Suc engine_read_size(3) [OF rd] by simp
  ultimately show ?case using rd by (auto split: frame_result.splits ack_verdict.splits)
qed simp

lemma run_phases_ends:
  assumes "0 \<le> cf_response_timeout_ms (turn_cfg tc)" and "tools_end env (turn_cfg tc)"
  shows "run_phases env tc \<noteq> None"
proof -
  obtain ok1 tc1 where b: "turn_begin env tc = (ok1, tc1)" by force
  have c1: "turn_cfg tc1 = turn_cfg tc" using turn_begin_keeps [OF b] by simp
  then obtain ok2 tc2 where a: "turn_await_ack env tc1 = Some (ok2, tc2)"
    using ack_loop_ends [of tc1 env 5] assms(1) by (auto simp: turn_await_ack_def)
  have "turn_cfg tc2 = turn_cfg tc" using ack_loop_keeps [OF a [unfolded turn_await_ack_def]] c1 by simp
  then have "turn_process_events env tc2 \<noteq> None"
    using turn_loop_ends [of env "tc2\<lparr>tc_event_prefix := []\<rparr>"] assms(2) by (simp add: turn_process_events_def)
  then show ?thesis using b a by (auto simp: run_phases_def split: bool.splits)
qed

lemma framed_turn_ends:
  assumes "0 \<le> cf_response_timeout_ms (turn_cfg tc)" and "tools_end env (turn_cfg tc)"
  shows "framed_turn env tc \<noteq> None"
  using assms run_phases_ends [of "on_eng (engine_set_turn_active True) tc" env]
  by (auto simp: framed_turn_def engine_set_turn_active_def split: c_run.splits)


definition plain_env :: turn_env where
  "plain_env = \<lparr>tv_parse = \<lambda>_. None, tv_print = \<lambda>_. [], tv_junk = [], tv_callback = None,
     tv_tools = \<lambda>_. env_echo, tv_git = ([], [], [])\<rparr>"

definition plain_turn :: "io list \<Rightarrow> turn" where
  "plain_turn es =
     turn_context_init (socket_engine es) 7 ''hi'' [] [] False [] 1000 False None False tool_history_init []"


end
