(* ===== verification/Turn_Answer.thy ===== *)
theory Turn_Answer
  imports Turn_Properties
begin

text \<open>
  What a turn makes of an ordinary answer: an accepted request, pieces of text, and the final
  response. The lemmas follow the phases; the loop is taken by induction over the pieces.
\<close>

section \<open>The frames of an answer\<close>

text \<open>A frame that belongs to the request, as the parser sees it.\<close>

definition own_frame :: "turn_env \<Rightarrow> string \<Rightarrow> string \<Rightarrow> bool" where
  "own_frame env rid f = (sayable f \<and> (ne_id (event_of env f) = [] \<or> contains f rid))"

definition delta_says :: "turn_env \<Rightarrow> string \<Rightarrow> string \<Rightarrow> string \<Rightarrow> bool" where
  "delta_says env rid f t =
     (own_frame env rid f \<and> ne_type (event_of env f) = NATIVE_EVENT_TEXT_DELTA
      \<and> ev_text (ne_data (event_of env f)) = t \<and> t \<noteq> [])"

definition response_says :: "turn_env \<Rightarrow> string \<Rightarrow> string \<Rightarrow> string \<Rightarrow> bool" where
  "response_says env rid f t =
     (own_frame env rid f \<and> ne_type (event_of env f) = NATIVE_EVENT_RESPONSE
      \<and> ev_text (ne_data (event_of env f)) = t)"

section \<open>One round\<close>

lemma midturn_off [simp]: "\<not> tc_server tc \<Longrightarrow> handle_midturn_control_plane tc = tc"
  by (simp add: handle_midturn_control_plane_def)

lemma heartbeat_keeps [simp]:
  "tc_request_id (live_heartbeat tc) = tc_request_id tc" "tc_server (live_heartbeat tc) = tc_server tc"
  "tc_event_prefix (live_heartbeat tc) = tc_event_prefix tc" "tc_stream (live_heartbeat tc) = tc_stream tc"
  "tc_out_max (live_heartbeat tc) = tc_out_max tc" "tc_out_buf (live_heartbeat tc) = tc_out_buf tc"
  by (simp_all add: live_heartbeat_def live_write_def)

lemma own_not_foreign:
  "own_frame env rid f \<Longrightarrow> tc_request_id tc = rid \<Longrightarrow> \<not> foreign_id tc (event_of env f) f"
  by (auto simp: own_frame_def foreign_id_def)

lemma turn_step_says:
  assumes "link_up (tc_eng tc)" and "en_in (tc_eng tc) = agent_says f # es" and "sayable f"
    and "\<not> tc_server tc" and "0 < rem"
  shows "turn_step env tc c y rem = handle_frame env f (tc\<lparr>tc_eng := (tc_eng tc)\<lparr>en_in := es\<rparr>\<rparr>) c y"
proof -
  have "0 < poll_ms tc rem" using assms(5) by (simp add: poll_ms_def Let_def)
  from engine_read_says [OF assms(1) this assms(3,2)] show ?thesis
    using assms(4) by (simp add: turn_step_def Let_def)
qed

lemma handle_frame_delta:
  assumes "delta_says env (tc_request_id tc) f t"
  shows "handle_frame env f tc c y =
    Go (handle_delta t (live_heartbeat tc)) (c + 1) y (full_timeout (turn_cfg tc))"
proof -
  have "c_str f = f" using assms c_str_sayable by (simp add: delta_says_def own_frame_def)
  moreover have "\<not> foreign_id (live_heartbeat tc) (event_of env f) f"
    using assms own_not_foreign [of env "tc_request_id tc" f "live_heartbeat tc"] by (simp add: delta_says_def)
  ultimately show ?thesis
    using assms by (simp add: handle_frame_def Let_def skipped_unknown_def delta_says_def)
qed

lemma handle_frame_response:
  assumes "response_says env (tc_request_id tc) f t"
  shows "handle_frame env f tc c y = Stop True (handle_response env (ne_data (event_of env f)) (live_heartbeat tc))"
proof -
  have "c_str f = f" using assms c_str_sayable by (simp add: response_says_def own_frame_def)
  moreover have "\<not> foreign_id (live_heartbeat tc) (event_of env f) f"
    using assms own_not_foreign [of env "tc_request_id tc" f "live_heartbeat tc"] by (simp add: response_says_def)
  ultimately show ?thesis
    using assms by (simp add: handle_frame_def Let_def skipped_unknown_def response_says_def)
qed

section \<open>The stream\<close>

lemma accumulate_fits: "length t + length d < PART_TEXT_SIZE \<Longrightarrow> accumulate t d = t @ d"
  by (simp add: accumulate_def)

lemma emit_chunks_open:
  "text_open s acc \<Longrightarrow> length acc + length t < PART_TEXT_SIZE \<Longrightarrow> text_open (emit_chunks t s) (acc @ t)"
proof (induction t s arbitrary: acc rule: emit_chunks.induct)
  case (1 t s)
  show ?case
  proof (cases "t = []")
    case False
    obtain s' where d: "responses_stream_emit_text_delta (take 4096 t) s = (True, s')"
      "text_open s' (accumulate acc (take 4096 t))"
      using text_delta_step [OF "1.prems"(1)] by blast
    have "text_open s' (acc @ take 4096 t)" using d(2) "1.prems"(2) by (simp add: accumulate_fits)
    then have "text_open (emit_chunks (drop 4096 t) s') ((acc @ take 4096 t) @ drop 4096 t)"
      using "1.prems"(2) by (intro "1.IH" [OF False d(1) [symmetric] refl]) simp_all
    then show ?thesis using False d(1) by (simp add: emit_chunks.simps [of t])
  qed (use "1.prems" in \<open>simp add: emit_chunks.simps [of "[]"]\<close>)
qed

lemma handle_delta_open:
  assumes "tc_stream tc = Some s" and "text_open s acc" and "t \<noteq> []" and "length acc + length t < PART_TEXT_SIZE"
  shows "\<exists>s'. tc_stream (handle_delta t tc) = Some s' \<and> text_open s' (acc @ t)"
proof -
  obtain s' where "responses_stream_emit_text_delta t s = (True, s')" "text_open s' (accumulate acc t)"
    using text_delta_step [OF assms(2)] by blast
  then show ?thesis using assms by (auto simp: handle_delta_def accumulate_fits)
qed

lemma handle_delta_keeps [simp]:
  "tc_request_id (handle_delta t tc) = tc_request_id tc" "tc_server (handle_delta t tc) = tc_server tc"
  "tc_event_prefix (handle_delta t tc) = tc_event_prefix tc" "tc_out_max (handle_delta t tc) = tc_out_max tc"
  by (simp_all add: handle_delta_def live_delta_def live_write_def Let_def split: option.splits)

lemma handle_response_open:
  assumes "tc_stream tc = Some s" and "text_open s acc" and "length acc + length (ev_text d) < PART_TEXT_SIZE"
    and "tc_event_prefix tc = []" and "length (ev_text d) < tc_out_max tc"
  shows "tc_out_buf (handle_response env d tc) = ev_text d"
    and "\<exists>s'. tc_stream (handle_response env d tc) = Some s' \<and> text_open s' (acc @ ev_text d)"
  using assms emit_chunks_open [OF assms(2), of "ev_text d"]
  by (cases d; simp add: handle_response_def Let_def response_text_def append_text_def emit_turn_metrics_def
      on_eng_def live_delta_def)+

section \<open>The loop\<close>

lemma turn_loop_answer:
  assumes "list_all2 (delta_says env rid) fs ts" and "response_says env rid f t"
    and "link_up (tc_eng tc)" and "en_in (tc_eng tc) = map agent_says fs @ agent_says f # es"
    and "tc_request_id tc = rid" and "\<not> tc_server tc" and "tc_event_prefix tc = []"
    and "tc_stream tc = Some s" and "text_open s acc"
    and "length acc + length (concat ts) + length t < PART_TEXT_SIZE" and "length t < tc_out_max tc"
    and "int (c + length fs) < cf_max_turn_events (turn_cfg tc)" and "0 < rem"
  shows "\<exists>tc' s'. turn_loop env tc c y rem = Some (Ret (True, tc')) \<and> tc_out_buf tc' = t
    \<and> tc_stream tc' = Some s' \<and> text_open s' (acc @ concat ts @ t)"
  using assms
proof (induction fs ts arbitrary: tc c rem s acc rule: list_all2_induct)
  case Nil
  let ?tc = "live_heartbeat (tc\<lparr>tc_eng := (tc_eng tc)\<lparr>en_in := es\<rparr>\<rparr>)"
  let ?d = "ne_data (event_of env f)"
  have f: "sayable f" "ev_text ?d = t" using Nil by (simp_all add: response_says_def own_frame_def)
  have "turn_step env tc c y rem = Stop True (handle_response env ?d ?tc)"
    using Nil by (subst turn_step_says [OF _ _ f(1)]) (auto intro!: handle_frame_response)
  then have "turn_loop env tc c y rem = Some (Ret (True, handle_response env ?d ?tc))"
    using Nil by (simp add: turn_loop.simps [of env tc])
  moreover have "tc_out_buf (handle_response env ?d ?tc) = t"
    and "\<exists>s'. tc_stream (handle_response env ?d ?tc) = Some s' \<and> text_open s' (acc @ t)"
    using handle_response_open [of ?tc s acc ?d env] Nil f by simp_all
  ultimately show ?case by auto
next
  case (Cons g fs u ts)
  let ?tc = "live_heartbeat (tc\<lparr>tc_eng := (tc_eng tc)\<lparr>en_in := map agent_says fs @ agent_says f # es\<rparr>\<rparr>)"
  let ?tc1 = "handle_delta u ?tc"
  let ?r = "full_timeout (turn_cfg tc)"
  have g: "sayable g" "u \<noteq> []" using Cons.hyps by (simp_all add: delta_says_def own_frame_def)
  have "turn_step env tc c y rem = Go ?tc1 (c + 1) y ?r"
    using Cons.prems Cons.hyps handle_frame_delta
    by (subst turn_step_says [OF _ _ g(1)]) auto
  then have step: "turn_loop env tc c y rem = turn_loop env ?tc1 (c + 1) y ?r"
    using Cons.prems by (simp add: turn_loop.simps [of env tc])
  obtain s1 where s1: "tc_stream ?tc1 = Some s1" "text_open s1 (acc @ u)"
    using handle_delta_open [of ?tc s acc u] Cons.prems g by auto
  have "\<exists>tc' s'. turn_loop env ?tc1 (c + 1) y ?r = Some (Ret (True, tc')) \<and> tc_out_buf tc' = t
    \<and> tc_stream tc' = Some s' \<and> text_open s' ((acc @ u) @ concat ts @ t)"
    using Cons.prems s1 by (intro Cons.IH) (simp_all add: full_timeout_def)
  then show ?case using step by simp
qed

lemma ack_accepted_says:
  assumes "link_up (tc_eng tc)" and "en_in (tc_eng tc) = agent_says ack # es" and "sayable ack"
    and "0 < cf_response_timeout_ms (turn_cfg tc)" and "ack_verdict env (tc_request_id tc) ack = Ack_Accepted"
  shows "turn_await_ack env tc = Some (True, tc\<lparr>tc_eng := (tc_eng tc)\<lparr>en_in := es\<rparr>\<rparr>)"
  using engine_read_says [OF assms(1,4,3,2)] assms(5)
  by (simp add: turn_await_ack_def eval_nat_numeral)

section \<open>The end\<close>

lemma end_stream_text:
  assumes "text_open s t"
  shows "map first_part_text (ss_items (end_stream now True canc limited out s)) = [t]"
proof -
  obtain i p where "ss_items s = [i]" "oi_parts i = [p]" "cp_type p = CONTENT_TYPE_OUTPUT_TEXT"
    "cp_text p = t" "cur_item s = i" "cur_part s = p" "ss_cur_item s = 0" "ss_cur_part s = 0"
    "ss_terminal s = STREAM_ACTIVE"
    using assms by (rule text_open_obtain)
  then show ?thesis
    by (simp add: end_stream_def Let_def responses_stream_emit_text_done_def no_current_part_def
        responses_stream_emit_content_part_done_def responses_stream_emit_output_item_done_def
        responses_stream_emit_completed_def first_part_text_def cur_item_def cur_part_def)
qed

lemma finish_turn_out: "tc_out_buf (finish_turn ok tc) = tc_out_buf tc"
  by (simp add: finish_turn_def Let_def turn_cleanup_def on_eng_def)

lemma finish_turn_stream:
  "tc_stream tc = Some s \<Longrightarrow> \<exists>now canc limited out.
     tc_stream (finish_turn ok tc) = Some (end_stream now ok canc limited out s)"
  by (auto simp: finish_turn_def Let_def turn_cleanup_def on_eng_def)


lemma open_live_stream_open:
  assumes "fst (responses_stream_send_headers (responses_stream_init ''resp-stream'' model gzip script))"
  shows "text_open (open_live_stream now model gzip script) []"
proof -
  let ?s = "responses_stream_init ''resp-stream'' model gzip script"
  have "ss_terminal ?s = STREAM_ACTIVE" "ss_items ?s = []" by (simp_all add: responses_stream_init_def)
  from run_text_open_ok [OF assms this, of now] obtain s where "run_text_open now ?s = (True, s)" "text_open s []"
    by blast
  then show ?thesis
    by (auto simp: run_text_open_def open_live_stream_def Let_def split: prod.splits bool.splits)
qed

text \<open>A concrete answer.\<close>

lemma other_members:
  "\<not> ci_eq ''tool_intent'' ''type''" "\<not> ci_eq ''tool_intent'' ''id''" "\<not> ci_eq ''tool_intent'' ''status''"
  "\<not> ci_eq ''tool_intent'' ''text''" "\<not> ci_eq ''text'' ''type''" "\<not> ci_eq ''text'' ''id''" "\<not> ci_eq ''text'' ''status''"
  "\<not> ci_eq ''id'' ''type''" "\<not> ci_eq ''status'' ''type''" "\<not> ci_eq ''status'' ''id''"
  "ci_eq ''type'' ''type''" "ci_eq ''id'' ''id''" "ci_eq ''status'' ''status''" "ci_eq ''text'' ''text''"
  by (code_simp)+

definition ack_json :: string where
  \<open>ack_json = ''{"type":"ack","id":"req-7","status":"accepted"}''\<close>

definition delta_json :: string where
  \<open>delta_json = ''{"type":"text_delta","id":"req-7","text":"Hel"}''\<close>

definition done_json :: string where
  \<open>done_json = ''{"type":"response","id":"req-7","status":"completed","text":"Hello"}''\<close>

definition answer_parse :: "string \<Rightarrow> json option" where
  "answer_parse s =
     (if s = ack_json then Some (JObj [(''type'', JStr ''ack''), (''id'', JStr ''req-7''), (''status'', JStr ''accepted'')])
      else if s = delta_json then Some (JObj [(''type'', JStr ''text_delta''), (''id'', JStr ''req-7''), (''text'', JStr ''Hel'')])
      else if s = done_json then
        Some (JObj [(''type'', JStr ''response''), (''id'', JStr ''req-7''), (''status'', JStr ''completed''), (''text'', JStr ''Hello'')])
      else None)"

definition answer_env :: turn_env where
  "answer_env = plain_env\<lparr>tv_parse := answer_parse\<rparr>"

definition answer_turn :: turn where
  "answer_turn =
     (plain_turn [agent_says ack_json, agent_says delta_json, agent_says done_json])
       \<lparr>tc_stream := Some (open_live_stream 0 ''m'' False [Wrote 400])\<rparr>"

lemmas answer_json_defs = ack_json_def delta_json_def done_json_def

lemma answer_frames:
  "sayable ack_json" "sayable delta_json" "sayable done_json"
  "contains ack_json ''req-7''" "contains delta_json ''req-7''" "contains done_json ''req-7''"
  by (simp_all add: answer_json_defs sayable_def FRAME_MAX_PAYLOAD_def contains_def)

lemma answer_distinct: "delta_json \<noteq> ack_json" "done_json \<noteq> ack_json" "done_json \<noteq> delta_json"
  by (code_simp)+

lemmas answer_simps = answer_distinct answer_frames c_str_sayable

lemma answer_parsed:
  "answer_parse ack_json = Some (JObj [(''type'', JStr ''ack''), (''id'', JStr ''req-7''), (''status'', JStr ''accepted'')])"
  "answer_parse delta_json = Some (JObj [(''type'', JStr ''text_delta''), (''id'', JStr ''req-7''), (''text'', JStr ''Hel'')])"
  "answer_parse done_json =
     Some (JObj [(''type'', JStr ''response''), (''id'', JStr ''req-7''), (''status'', JStr ''completed''), (''text'', JStr ''Hello'')])"
  by (simp_all add: answer_parse_def answer_distinct)

lemma answer_event:
  "event_of answer_env f =
     (case native_parse_frame answer_parse (\<lambda>_. []) [] f of None \<Rightarrow> no_event | Some ev \<Rightarrow> ev)"
  by (simp add: event_of_def answer_env_def plain_env_def)

lemmas answer_event_simps = answer_event native_parse_frame_def answer_parsed c_str_sayable answer_frames
  parse_event_data_def native_event_type_from_string_def get_into_def json_get_string_def cstr_copy_fits Let_def

lemma answer_events:
  "ne_type (event_of answer_env ack_json) = NATIVE_EVENT_ACK"
  "ev_status (ne_data (event_of answer_env ack_json)) = ''accepted''"
  "ne_type (event_of answer_env delta_json) = NATIVE_EVENT_TEXT_DELTA"
  "ev_text (ne_data (event_of answer_env delta_json)) = ''Hel''"
  "ne_type (event_of answer_env done_json) = NATIVE_EVENT_RESPONSE"
  "ev_text (ne_data (event_of answer_env done_json)) = ''Hello''"
  by (simp_all add: answer_event_simps parse_response_text_def or_else_def other_members)

lemma answer_ack: "ack_verdict answer_env ''req-7'' ack_json = Ack_Accepted"
  by (simp add: ack_verdict_def Let_def answer_events c_str_sayable answer_frames is_lifecycle_type_def
      native_event_is_lifecycle_def) (simp add: ack_json_def contains_def)

lemma answer_says:
  "list_all2 (delta_says answer_env ''req-7'') [delta_json] [''Hel'']"
  "response_says answer_env ''req-7'' done_json ''Hello''"
  by (simp_all add: delta_says_def response_says_def own_frame_def answer_frames answer_events)

lemma answer_turn_sel [simp]:
  "tc_request_number answer_turn = 7" "tc_reset_session answer_turn = False"
  "tc_previous_response_id answer_turn = []" "tc_history answer_turn = tool_history_init"
  "tc_server answer_turn = False" "tc_out_max answer_turn = 1000" "tc_input_text answer_turn = ''hi''"
  "tc_reasoning_effort answer_turn = []"
  "tc_stream answer_turn = Some (open_live_stream 0 ''m'' False [Wrote 400])"
  "tc_eng answer_turn = socket_engine [agent_says ack_json, agent_says delta_json, agent_says done_json]"
  by (simp_all add: answer_turn_def plain_turn_def turn_context_init_def)

text \<open>The request of that turn.\<close>

definition answer_request :: "string option" where
  "answer_request = frame_build_request ''req-7'' ''hi'' [] [] [] [] False 100000 False []"

lemma answer_request_built: "\<exists>req. answer_request = Some req \<and> req \<noteq> [] \<and> length req < 4096"
  using request_fits [of 100000 "''req-7''" "''hi''" "[]" "[]" False False "[]"]
    request_pieces_length [of 100000 "''req-7''" "''hi''" "[]" "[]" False False "[]"]
  by (simp add: answer_request_def request_nonempty)

lemma request_id_7: "request_id_of 7 = ''req-7''"
  by code_simp

text \<open>The beginning of the concrete turn, whatever the agent will say.\<close>

definition answer_turn_in :: "io list \<Rightarrow> turn" where
  "answer_turn_in es = on_eng (\<lambda>e. e\<lparr>en_in := es\<rparr>) answer_turn"

lemma answer_begins:
  "\<exists>tc1. turn_begin answer_env (on_eng (engine_set_turn_active True) (answer_turn_in es)) = (True, tc1)
    \<and> link_up (tc_eng tc1) \<and> turn_cfg tc1 = some_config \<and> turn_in tc1 = es \<and> tc_request_id tc1 = ''req-7''
    \<and> tc_server tc1 = False \<and> tc_stream tc1 = tc_stream answer_turn \<and> tc_out_max tc1 = 1000"
proof -
  obtain req where req: "answer_request = Some req" "req \<noteq> []" "length req < 4096"
    using answer_request_built by blast
  let ?e = "(engine_set_turn_active True (socket_engine es))\<lparr>en_cancelled := False, en_current_request_id := ''req-7''\<rparr>"
  have up: "link_up ?e" using link_up_socket by (simp add: engine_set_turn_active_def)
  have hist: "history_arg some_config tool_history_init = []"
    by (auto simp: history_arg_def split: option.splits)
  have eng: "tc_eng (answer_turn_in es) = socket_engine es"
    by (simp add: answer_turn_in_def socket_engine_def)
  let ?tc1 = "(answer_turn_in es)\<lparr>tc_active := True, tc_request_id := ''req-7'', tc_eng := sent req ?e\<rparr>"
  have "turn_begin answer_env (on_eng (engine_set_turn_active True) (answer_turn_in es)) = (True, ?tc1)"
    using req hist engine_write_connected [OF up, of req] eng
    by (simp add: turn_begin_def request_id_7 on_eng_def Let_def choose_session_def request_of_def can_load_def
        answer_request_def engine_set_turn_active_def socket_engine_def FRAME_MAX_PAYLOAD_def
        answer_turn_in_def)
  then show ?thesis
    using up by (intro exI [of _ ?tc1])
      (simp add: answer_turn_in_def on_eng_def engine_set_turn_active_def socket_engine_def)
qed


section \<open>Turns that go wrong\<close>

text \<open>The first frame a turn reads that is neither its acknowledgement nor a heartbeat
  frame, for instance a piece of text left over from a turn that was cut at its event limit,
  ends the turn with a failure; everything behind that frame stays unread for the next turn
  to stumble over.\<close>

theorem stale_frame_refuses:
  assumes "turn_begin env (on_eng (engine_set_turn_active True) tc) = (True, tc1)"
    and "link_up (tc_eng tc1)" and "0 < cf_response_timeout_ms (turn_cfg tc1)"
    and "en_in (tc_eng tc1) = agent_says f # es" and "sayable f"
    and "ne_type (event_of env f) \<noteq> NATIVE_EVENT_ACK" and "\<not> is_lifecycle_type (event_of env f) f"
  shows "\<exists>tc'. framed_turn env tc = Some (Ret (False, tc'))
    \<and> tc_out_buf tc' = cstr_copy (tc_out_max tc1) ''native agent ack invalid or rejected'' \<and> turn_in tc' = es"
proof -
  have v: "ack_verdict env (tc_request_id tc1) f = Ack_Refused ''native agent ack invalid or rejected'' None"
    using assms(6,7) by (simp add: ack_verdict_def Let_def c_str_sayable [OF assms(5)])
  let ?tc2 = "on_eng (send_opt_error None) (set_out ''native agent ack invalid or rejected''
      (tc1\<lparr>tc_eng := (tc_eng tc1)\<lparr>en_in := es\<rparr>\<rparr>))"
  have "turn_await_ack env tc1 = Some (False, ?tc2)"
    using engine_read_says [OF assms(2,3,5,4)] v by (simp add: turn_await_ack_def eval_nat_numeral)
  then have "framed_turn env tc = Some (Ret (False, finish_turn False ?tc2))"
    using assms(1) by (simp add: framed_turn_def run_phases_def)
  moreover have "turn_in (finish_turn False ?tc2) = es"
    by (simp add: finish_turn_eng engine_set_turn_active_def turn_cleanup_def send_opt_error_def)
  ultimately show ?thesis by (simp add: finish_turn_out) (simp add: set_out_def on_eng_def)
qed

theorem stale_frame_refuses_witness:
  "\<exists>tc'. framed_turn answer_env (answer_turn_in [agent_says delta_json, agent_says ack_json]) = Some (Ret (False, tc'))
    \<and> tc_out_buf tc' = ''native agent ack invalid or rejected'' \<and> turn_in tc' = [agent_says ack_json]"
proof -
  obtain tc1 where b: "turn_begin answer_env (on_eng (engine_set_turn_active True)
      (answer_turn_in [agent_says delta_json, agent_says ack_json])) = (True, tc1)"
    and t: "link_up (tc_eng tc1)" "turn_cfg tc1 = some_config" "tc_out_max tc1 = 1000"
      "turn_in tc1 = [agent_says delta_json, agent_says ack_json]"
    using answer_begins [of "[agent_says delta_json, agent_says ack_json]"] by blast
  have "0 < cf_response_timeout_ms (turn_cfg tc1)" by (simp add: t)
  moreover have "\<not> is_lifecycle_type (event_of answer_env delta_json) delta_json"
    by (simp add: is_lifecycle_type_def native_event_is_lifecycle_def answer_events)
      (simp add: delta_json_def contains_def)
  ultimately show ?thesis
    using stale_frame_refuses [OF b t(1) _ t(4)] answer_events answer_frames
    by (simp add: t cstr_copy_fits)
qed

text \<open>A default session that is newly created is recorded in the index under its key,
  but what the engine remembers as its session id is that key instead of \<open>default\<close>; the key
  computed from it for the next turn is another one, so the next turn does not find the state
  it has just created.\<close>

theorem default_session_detached:
  assumes "current_key (use_session ''default'' e) = key" and "key \<noteq> []"
    and "session_index_lookup (en_sessions (load_index env (use_session ''default'' e))) key = None"
    and "create_state env key (load_index env (use_session ''default'' e)) = (True, e1)"
  shows "en_last_session_id (begin_default env e) = key
    \<and> session_key_text (en_workspace e) (en_last_session_id (begin_default env e)) \<noteq> key"
proof -
  have k: "key = session_key_text (en_workspace e) ''default''"
    using assms(1) by (simp add: current_key_def use_session_def on_sessions_def compute_session_key_def
        set_session_id_def get_session_key_def)
  then have len: "length key < 256" by (simp add: session_key_text_def Let_def)
  have "begin_default env e = set_last_session key e1"
    using assms by (simp add: begin_default_def Let_def default_create_def)
  then have last: "en_last_session_id (begin_default env e) = key"
    using len by (simp add: set_last_session_def cstr_copy_fits)
  have "length (session_key_text (en_workspace e) key) \<noteq> length key"
    using assms(2) by (auto simp: session_key_text_def Let_def)
  then show ?thesis unfolding last by auto
qed


definition created_ack :: string where
  \<open>created_ack = ''{"type":"ack","status":"accepted","state_id":"s1"}''\<close>

lemma created_ack_ok: "sayable created_ack" "ack_accepted created_ack"
  by (simp_all add: created_ack_def sayable_def FRAME_MAX_PAYLOAD_def ack_accepted_def contains_def)

lemma session_key_nonempty:
  assumes "length sid < 239"
  shows "session_key_text ws sid \<noteq> []"
proof -
  have "unat (workspace_hash ws) < 2 ^ 64"
    using unsigned_less [of "workspace_hash ws", where ?'a = nat] by simp
  then have "unat (workspace_hash ws) < 16 ^ 16" by simp
  then have "length (show_hex (unat (workspace_hash ws))) \<le> 16"
    by (simp add: show_hex_def show_base_length)
  then show ?thesis using assms by (simp add: session_key_text_def Let_def)
qed

lemma metadata_short:
  assumes "tv_git env = ([], [], [])" and "cf_kv_cache_dir (en_cfg e) = []" and "en_workspace e = ''/w''"
    and "en_time e = 7" and "en_nsec e = 0" and "cf_codex_model (en_cfg e) = ''m''"
  shows "length (build_session_metadata_json env e []) \<le> 300"
  using assms by (simp add: build_session_metadata_json_def cstr_copy_def Let_def show_int_def show_nat_def
      show_base.simps [of _ 7] show_base.simps [of _ 0])

lemma length_session_default: "length ''default'' < 239"
  by simp

theorem default_session_detached_witness:
  "en_last_session_id (begin_default plain_env (socket_engine [agent_says created_ack]))
      = session_key_text ''/w'' ''default''
    \<and> session_key_text ''/w'' (en_last_session_id (begin_default plain_env (socket_engine [agent_says created_ack])))
      \<noteq> session_key_text ''/w'' ''default''"
proof -
  let ?e = "socket_engine [agent_says created_ack]"
  let ?k = "session_key_text ''/w'' ''default''"
  let ?e1 = "load_index plain_env (use_session ''default'' ?e)"
  have e1: "link_up ?e1" "en_in ?e1 = [agent_says created_ack]" "en_workspace ?e1 = ''/w''"
    "en_cfg ?e1 = some_config" "en_time ?e1 = 7" "en_nsec ?e1 = 0"
    using link_up_socket
    by (simp_all add: load_index_def use_session_def) (simp_all add: on_sessions_def socket_engine_def)
  have e_ws: "en_workspace ?e = ''/w''" "en_cfg ?e = some_config" by (simp_all add: socket_engine_def)
  have k: "current_key (use_session ''default'' ?e) = ?k"
    by (simp add: current_key_def use_session_def on_sessions_def compute_session_key_def
        set_session_id_def get_session_key_def socket_engine_def)
  have none: "session_index_lookup (en_sessions ?e1) ?k = None"
    by (simp add: load_index_def use_session_def on_sessions_def load_session_index_def sessions_init_def
        session_index_lookup_def index_entries_def compute_session_key_def set_session_id_def Let_def)
  let ?md = "build_session_metadata_json plain_env ?e1 []"
  have "length ?md \<le> 300"
    by (rule metadata_short) (simp_all add: e1, simp_all add: plain_env_def socket_engine_def)
  then have fits: "length (create_state_json ?k ''/w'' ''m'' 100000 ?md) < 1536"
    using json_escape_bound [of 256 ?k] json_escape_bound [of 512 "''/w''"] json_escape_bound [of 256 "''m''"]
    by (simp add: create_state_json_def show_int_def show_nat_def show_base.simps)
  have ne: "create_state_json ?k ''/w'' ''m'' 100000 ?md \<noteq> []" by (simp add: create_state_json_def)
  obtain e2 where "create_state plain_env ?k ?e1 = (True, e2)"
    using state_request_says [OF e1(1) created_ack_ok(1) e1(2) ne fits] created_ack_ok(2)
    by (simp add: create_state_def engine_create_session_state_def e1 e_ws FRAME_MAX_PAYLOAD_def)
  from default_session_detached [OF k _ none this] session_key_nonempty [of "''default''" "''/w''"]
  show ?thesis by (metis (no_types, lifting) e_ws(1) length_session_default)
qed

end
