(* ===== verification/Http_Request.thy ===== *)
theory Http_Request
  imports Bridge_Config Frame_Protocol
begin

text \<open>
  Reading an HTTP request (\<^verbatim>\<open>src/server.c\<close>): header lookup, Content-Length, the two body
  encodings, and the loop that reads from the client until the request is complete.

  The bytes received are a list; functions that treat the buffer as a C string see it up to its
  first NUL. A pointer into the buffer is the suffix it points to. The client is a script of
  outcomes of \<^verbatim>\<open>read\<close>. \<open>alloc\<close> says which sizes the allocator grants.
\<close>

section \<open>Headers\<close>

definition crlf2 :: string where "crlf2 = crlf @ crlf"

definition is_tab_blank :: "char \<Rightarrow> bool" where
  "is_tab_blank c = (c = CHR '' '' \<or> c = CHR 0x09)"

definition is_crlf_char :: "char \<Rightarrow> bool" where
  "is_crlf_char c = (c = CHR 0x0D \<or> c = CHR 0x0A)"

text \<open>The number of bytes before the empty line.\<close>

definition header_end :: "string \<Rightarrow> nat option" where
  "header_end raw = map_option (\<lambda>r. length raw - length r) (strstr raw crlf2)"

text \<open>The search from a line on; \<open>n\<close> bytes are left before the empty line.\<close>

function header_scan :: "string \<Rightarrow> string \<Rightarrow> nat \<Rightarrow> string option" where
  "header_scan name line n =
     (if n = 0 then None
      else
        let line_len = (case strstr line crlf of None \<Rightarrow> n | Some r \<Rightarrow> min n (length line - length r))
        in if line_len > length name \<and> ci_eq (take (length name) line) name \<and> line ! length name = CHR '':''
           then let v = drop (length name + 1) line
                in Some (drop (length (takeWhile is_tab_blank (take (line_len - length name - 1) v))) v)
           else if line_len \<ge> n then None
           else header_scan name (drop (line_len + 2) line) (n - line_len - 2))"
  by pat_completeness auto
termination by (relation "measure (\<lambda>(name, line, n). n)") auto

declare header_scan.simps [simp del]

definition find_header_value :: "string \<Rightarrow> string \<Rightarrow> string option" where
  "find_header_value raw name =
     (case header_end raw of None \<Rightarrow> None | Some n \<Rightarrow> header_scan name raw n)"

text \<open>The value up to the end of its line, and not beyond the empty line.\<close>

definition value_text :: "string \<Rightarrow> string \<Rightarrow> string" where
  "value_text raw v =
     (case header_end raw of None \<Rightarrow> []
      | Some n \<Rightarrow> takeWhile (\<lambda>c. \<not> is_crlf_char c) (take (n - (length raw - length v)) v))"

definition copy_header_value :: "string \<Rightarrow> string \<Rightarrow> nat \<Rightarrow> string \<Rightarrow> string" where
  "copy_header_value raw name dest_len fallback =
     (case find_header_value raw name of
        None \<Rightarrow> cstr_copy dest_len fallback
      | Some v \<Rightarrow> cstr_copy dest_len (value_text raw v))"

fun has_infix_ci :: "string \<Rightarrow> string \<Rightarrow> bool" where
  "has_infix_ci s [] = True"
| "has_infix_ci [] (c # p) = False"
| "has_infix_ci (d # s) (c # p) = (ci_eq (take (Suc (length p)) (d # s)) (c # p) \<or> has_infix_ci s (c # p))"

definition is_chunked_request :: "string \<Rightarrow> bool" where
  "is_chunked_request raw =
     (case find_header_value raw ''Transfer-Encoding'' of
        None \<Rightarrow> False
      | Some v \<Rightarrow> has_infix_ci (value_text raw v) ''chunked'')"

section \<open>Content-Length\<close>

definition LONG_MAX :: int where "LONG_MAX = 2 ^ 63 - 1"

fun length_digits :: "int \<Rightarrow> string \<Rightarrow> (int \<times> string) option" where
  "length_digits acc [] = Some (acc, [])"
| "length_digits acc (c # s) =
     (if \<not> is_digit c then Some (acc, c # s)
      else if acc > LONG_MAX div 10 then None
      else if acc * 10 > LONG_MAX - (int (cval c) - 48) then None
      else length_digits (acc * 10 + (int (cval c) - 48)) s)"

definition parse_content_length_safe :: "string \<Rightarrow> int" where
  "parse_content_length_safe val =
     (let s = dropWhile is_tab_blank val
      in if s = [] \<or> \<not> is_digit (hd s) then -1
         else case length_digits 0 s of
                None \<Rightarrow> -1
              | Some (n, r) \<Rightarrow>
                  (case dropWhile is_tab_blank r of [] \<Rightarrow> n | c # _ \<Rightarrow> if is_crlf_char c then n else -1))"

definition http_expected_request_len :: "string \<Rightarrow> nat" where
  "http_expected_request_len raw =
     (case header_end raw of
        None \<Rightarrow> 0
      | Some n \<Rightarrow>
          if is_chunked_request raw then 0
          else case find_header_value raw ''Content-Length'' of
                 None \<Rightarrow> n + 4
               | Some v \<Rightarrow> n + 4 + nat (parse_content_length_safe v))"

section \<open>The body\<close>

text \<open>The terminating chunk is searched for anywhere in the body: a line break before it is required.\<close>

definition last_chunk_mark :: string where "last_chunk_mark = crlf @ ''0'' @ crlf"

definition chunked_body_complete :: "bytes \<Rightarrow> bool" where
  "chunked_body_complete raw =
     (case header_end (c_str raw) of
        None \<Rightarrow> False
      | Some n \<Rightarrow> contains (drop (n + 4) raw) last_chunk_mark)"

text \<open>\<open>strtol\<close> with base 16: blanks, a sign, a prefix, and a result clamped to \<open>long\<close>.\<close>

definition hex_value :: "char \<Rightarrow> nat option" where
  "hex_value c =
     (let n = cval (to_lower c)
      in if is_digit c then Some (n - 48) else if 97 \<le> n \<and> n \<le> 102 then Some (n - 87) else None)"

fun hex_digits :: "nat \<Rightarrow> string \<Rightarrow> nat" where
  "hex_digits acc [] = acc"
| "hex_digits acc (c # s) = (case hex_value c of None \<Rightarrow> acc | Some d \<Rightarrow> hex_digits (acc * 16 + d) s)"

definition strtol16 :: "string \<Rightarrow> int" where
  "strtol16 s =
     (let s1 = dropWhile is_space s;
          neg = (s1 \<noteq> [] \<and> hd s1 = CHR ''-'');
          s2 = (if s1 \<noteq> [] \<and> (hd s1 = CHR ''-'' \<or> hd s1 = CHR ''+'') then tl s1 else s1);
          s3 = (if ci_eq (take 2 s2) ''0x'' \<and> length s2 > 2 \<and> hex_value (s2 ! 2) \<noteq> None then drop 2 s2 else s2);
          n = int (hex_digits 0 s3)
      in if neg then max (- n) (- LONG_MAX - 1) else min n LONG_MAX)"

text \<open>Doubling in 64 bits until the capacity is enough: beyond \<open>2\<^sup>6\<^sup>3\<close> it wraps to zero and never ends.\<close>

partial_function (option) grow_cap :: "u64 \<Rightarrow> u64 \<Rightarrow> u64 option" where
  "grow_cap next_cap need = (if next_cap < need then grow_cap (next_cap * 2) need else Some next_cap)"

text \<open>\<open>No_Body\<close>: the result NULL; \<open>Too_Large\<close>: NULL with a length of -1; \<open>Never\<close>: no return.\<close>

datatype http_body = Body string nat | No_Body | Too_Large | Never

definition skip_char :: "char \<Rightarrow> bytes \<Rightarrow> bytes" where
  "skip_char c p = (if p \<noteq> [] \<and> hd p = c then tl p else p)"

lemma length_skip_char: "length (skip_char c p) \<le> length p"
  by (simp add: skip_char_def)

text \<open>The next chunk: its size and what follows the size line.\<close>

datatype chunk_line = Last | Bad | Chunk nat bytes

definition next_chunk :: "bytes \<Rightarrow> chunk_line" where
  "next_chunk p =
     (let p1 = dropWhile is_crlf_char p;
          hex = takeWhile (\<lambda>c. \<not> is_crlf_char c) p1;
          p2 = drop (length hex) p1;
          p3 = (if p2 ! 1 = CHR 0x0A then drop 2 p2 else drop 1 p2);
          chunk_size = strtol16 (c_str (take 31 hex))
      in if p1 = [] then Last
         else if p2 = [] \<or> hd p2 \<noteq> CHR 0x0D \<or> tl p2 = [] then Bad
         else if chunk_size < 0 then Bad
         else if chunk_size = 0 then Last
         else Chunk (nat chunk_size) p3)"

text \<open>\<open>None\<close>: the doubling does not end; \<open>Some None\<close>: no memory.\<close>

definition chunk_capacity :: "(nat \<Rightarrow> bool) \<Rightarrow> nat \<Rightarrow> nat \<Rightarrow> nat option option" where
  "chunk_capacity alloc cap need =
     (if need \<le> cap then Some (Some cap)
      else case grow_cap (of_nat (cap * 2)) (of_nat need) of
             None \<Rightarrow> None
           | Some w \<Rightarrow>
               (let next_cap = min (unat w) 16777216
                in if alloc (next_cap + 1) then Some (Some next_cap) else Some None))"

definition after_chunk :: "nat \<Rightarrow> bytes \<Rightarrow> bytes" where
  "after_chunk copy_len p =
     (if copy_len > 0 then skip_char (CHR 0x0A) (skip_char (CHR 0x0D) (drop copy_len p)) else p)"

lemma length_after_chunk: "length (after_chunk k p) \<le> length p"
  unfolding after_chunk_def
  by (simp del: length_drop)
    (metis length_skip_char le_trans length_drop diff_le_self)

lemma next_chunk_shorter:
  assumes "next_chunk p = Chunk n q"
  shows "length q < length p"
proof -
  let ?p1 = "dropWhile is_crlf_char p"
  let ?p2 = "drop (length (takeWhile (\<lambda>c. \<not> is_crlf_char c) ?p1)) ?p1"
  have "?p2 \<noteq> []" and q: "q = (if ?p2 ! 1 = CHR 0x0A then drop 2 ?p2 else drop 1 ?p2)"
    using assms by (simp_all add: next_chunk_def Let_def split: if_splits)
  then have "length q < length ?p2" by (cases ?p2) (auto simp: q)
  also have "\<dots> \<le> length ?p1" by simp
  also have "\<dots> \<le> length p" by (rule length_dropWhile_le)
  finally show ?thesis .
qed

function decode_chunks :: "(nat \<Rightarrow> bool) \<Rightarrow> nat \<Rightarrow> bytes \<Rightarrow> nat \<Rightarrow> bytes \<Rightarrow> http_body" where
  "decode_chunks alloc max_body decoded cap p =
     (case next_chunk p of
        Last \<Rightarrow> Body (c_str decoded) (length decoded)
      | Bad \<Rightarrow> No_Body
      | Chunk chunk_size p3 \<Rightarrow>
          (case chunk_capacity alloc cap (length decoded + chunk_size) of
             None \<Rightarrow> Never
           | Some None \<Rightarrow> No_Body
           | Some (Some cap1) \<Rightarrow>
               let copy_len = min chunk_size (length p3);
                   decoded1 = decoded @ take copy_len p3
               in if length decoded1 > max_body then Too_Large
                  else decode_chunks alloc max_body decoded1 cap1 (after_chunk copy_len p3)))"
  by pat_completeness auto
termination
  by (relation "measure (\<lambda>(alloc, max_body, decoded, cap, p). length p)")
    (auto intro: le_less_trans [OF length_after_chunk next_chunk_shorter])

declare decode_chunks.simps [simp del]

definition size_of_int :: "int \<Rightarrow> nat" where
  "size_of_int i = nat (i mod 2 ^ 64)"

definition read_http_body :: "(nat \<Rightarrow> bool) \<Rightarrow> bridge_config \<Rightarrow> bytes \<Rightarrow> http_body" where
  "read_http_body alloc cfg raw =
     (case header_end (c_str raw) of
        None \<Rightarrow> No_Body
      | Some n \<Rightarrow>
          let body = drop (n + 4) raw
          in if is_chunked_request (c_str raw) then
               (if \<not> alloc 65537 then No_Body
                else decode_chunks alloc (size_of_int (cf_max_request_size cfg)) [] 65536 body)
             else case find_header_value (c_str raw) ''Content-Length'' of
               None \<Rightarrow> if body = [] then No_Body else Body (c_str body) (length body)
             | Some v \<Rightarrow>
                 let cl = parse_content_length_safe v
                 in if cl < 0 then No_Body
                    else if cl = 0 then Body [] 0
                    else Body (c_str (take (nat cl) body)) (min (nat cl) (length body)))"

section \<open>Reading from the client\<close>

function grow_request :: "nat \<Rightarrow> nat \<Rightarrow> nat" where
  "grow_request next_cap expected =
     (if 0 < next_cap \<and> next_cap < expected \<and> next_cap < 16777216 then grow_request (next_cap * 2) expected else next_cap)"
  by pat_completeness auto
termination by (relation "measure (\<lambda>(next_cap, expected). 16777216 - next_cap)") auto

declare grow_request.simps [simp del]

definition too_large_reply :: string where
  \<open>too_large_reply =
     ''HTTP/1.1 413 Request Entity Too Large'' @ crlf @ ''Content-Type: application/json'' @ crlf
     @ ''Content-Length: 36'' @ crlf @ ''Connection: close'' @ crlf @ crlf @ ''{"error":"request too large"}''\<close>

text \<open>What comes of it: a request, no request after an answer to the client, or a client that is silent.\<close>

datatype http_in = Got bytes | Refused "string option" | Waits

text \<open>After each read: enough, too much, or the capacity with which to go on.\<close>

datatype after_read = Enough | Too_Much | No_Memory | More nat

definition after_read :: "(nat \<Rightarrow> bool) \<Rightarrow> nat \<Rightarrow> nat \<Rightarrow> bytes \<Rightarrow> after_read" where
  "after_read alloc max_req cap raw =
     (let expected = http_expected_request_len (c_str raw);
          next_cap = min (min (grow_request (cap * 2) expected) 16777216) max_req;
          grows = (expected > cap \<and> cap < 16777216);
          cap1 = (if grows then next_cap else cap)
      in if expected > max_req then Too_Much
         else if grows \<and> \<not> alloc (next_cap + 1) then No_Memory
         else if expected > 0 \<and> length raw \<ge> expected then Enough
         else if expected = 0 \<and> length raw \<ge> 4 \<and> is_chunked_request (c_str raw) \<and> chunked_body_complete raw then Enough
         else More cap1)"

function read_request :: "(nat \<Rightarrow> bool) \<Rightarrow> nat \<Rightarrow> nat \<Rightarrow> bytes \<Rightarrow> io list \<Rightarrow> http_in" where
  "read_request alloc max_req cap raw [] = (if length raw < cap then Waits else Got raw)"
| "read_request alloc max_req cap raw (e # es) =
     (if \<not> length raw < cap then Got raw
      else case e of
        Read_Data bs \<Rightarrow>
          (if bs = [] then Got raw
           else
             let n = cap - length raw;
                 raw1 = raw @ take n bs
             in case after_read alloc max_req cap raw1 of
                  Enough \<Rightarrow> Got raw1
                | Too_Much \<Rightarrow> Refused (Some too_large_reply)
                | No_Memory \<Rightarrow> Refused None
                | More cap1 \<Rightarrow>
                    read_request alloc max_req cap1 raw1
                      (if length bs \<le> n then es else Read_Data (drop n bs) # es))
      | Read_Eof \<Rightarrow> Got raw
      | Read_Err \<Rightarrow> Refused None
      | _ \<Rightarrow> read_request alloc max_req cap raw es)"
  by pat_completeness auto
termination by (relation "measure (\<lambda>(alloc, max_req, cap, raw, es). io_size es)") auto

declare read_request.simps [simp del]

definition read_http_request :: "(nat \<Rightarrow> bool) \<Rightarrow> bridge_config \<Rightarrow> io list \<Rightarrow> http_in" where
  "read_http_request alloc cfg es =
     (if \<not> alloc 1048577 then Refused None
      else read_request alloc (size_of_int (cf_max_request_size cfg)) 1048576 [] es)"

end
