(* ===== verification/Request_Parser.thy ===== *)
theory Request_Parser
  imports Bridge_Config
begin

text \<open>
  The parser of a Responses request (\<^verbatim>\<open>src/codex_request_parser.c\<close>): the schema check, the
  typed input items, and the text they are normalised to.

  The records have the fields of \<^verbatim>\<open>HarnessRequest\<close> and \<^verbatim>\<open>InputItem\<close>. A string buffer is a
  string, a \<open>char *\<close> that may be NULL an option. \<open>print\<close> is cJSON's printer, \<open>parse\<close> its
  parser, and \<open>alloc\<close> says which sizes the allocator grants. A parse ends in an error record or
  a request. The growing text is a pair of its content and its capacity.
\<close>

section \<open>Data\<close>

datatype input_item_type =
    INPUT_ITEM_TYPE_TEXT | INPUT_ITEM_TYPE_MESSAGE | INPUT_ITEM_TYPE_TOOL_CALL | INPUT_ITEM_TYPE_TOOL_OUTPUT
  | INPUT_ITEM_TYPE_IMAGE | INPUT_ITEM_TYPE_COMPUTER | INPUT_ITEM_TYPE_REASONING

record input_item =
  ii_type :: input_item_type
  ii_role :: string
  ii_name :: string
  ii_call_id :: string
  ii_arguments :: "string option"
  ii_output :: "string option"
  ii_text :: "string option"
  ii_image_url :: string
  ii_image_data :: "string option"

record harness_request =
  hr_harness :: string
  hr_model :: string
  hr_normalized_input :: "string option"
  hr_instructions :: "string option"
  hr_metadata_json :: string
  hr_previous_response_id :: string
  hr_reasoning_effort :: string
  hr_stream :: bool
  hr_reset_session :: bool
  hr_has_tools :: bool
  hr_explicit_tool_call :: bool
  hr_tool_name :: string
  hr_tool_argument :: string
  hr_input_items :: "input_item list"
  hr_input_item_capacity :: nat
  hr_tool_count :: nat
  hr_tool_defs_json :: string
  hr_tool_choice_json :: string

record harness_error =
  he_code :: string
  he_message :: string

definition error_zero :: harness_error where
  "error_zero = \<lparr>he_code = [], he_message = []\<rparr>"

definition item_zero :: input_item where
  "item_zero = \<lparr>ii_type = INPUT_ITEM_TYPE_TEXT, ii_role = [], ii_name = [], ii_call_id = [], ii_arguments = None,
     ii_output = None, ii_text = None, ii_image_url = [], ii_image_data = None\<rparr>"

definition request_zero :: harness_request where
  "request_zero = \<lparr>hr_harness = ''codex.responses'', hr_model = ''star-bridge-ds4'', hr_normalized_input = None,
     hr_instructions = None, hr_metadata_json = [], hr_previous_response_id = [], hr_reasoning_effort = [],
     hr_stream = False, hr_reset_session = False, hr_has_tools = False, hr_explicit_tool_call = False,
     hr_tool_name = [], hr_tool_argument = [], hr_input_items = [], hr_input_item_capacity = 0, hr_tool_count = 0,
     hr_tool_defs_json = [], hr_tool_choice_json = []\<rparr>"

definition set_error :: "string \<Rightarrow> string \<Rightarrow> harness_error" where
  "set_error code message = \<lparr>he_code = cstr_copy 64 code, he_message = cstr_copy 512 message\<rparr>"

section \<open>Appending\<close>

type_synonym growing = "string \<times> nat"

definition input_limit :: "bridge_config \<Rightarrow> nat" where
  "input_limit cfg =
     (if cf_max_request_input_bytes cfg > 0 then nat (cf_max_request_input_bytes cfg) else 8 * 1024 * 1024)"

text \<open>A capacity is never zero here.\<close>

function grow_input :: "nat \<Rightarrow> nat \<Rightarrow> nat \<Rightarrow> nat" where
  "grow_input limit next_cap need =
     (if 0 < next_cap \<and> next_cap < need then
        (if next_cap > limit div 2 then limit + 1 else grow_input limit (next_cap * 2) need)
      else next_cap)"
  by pat_completeness auto
termination by (relation "measure (\<lambda>(limit, next_cap, need). need - next_cap)") auto

declare grow_input.simps [simp del]

definition too_large_error :: harness_error where
  "too_large_error =
     set_error ''request_input_too_large'' ''request input too large: exceeds max_request_input_bytes''"

definition append_owned ::
    "(nat \<Rightarrow> bool) \<Rightarrow> bridge_config \<Rightarrow> string \<Rightarrow> growing \<Rightarrow> harness_error + growing" where
  "append_owned alloc cfg txt acc =
     (case acc of (dest, cap) \<Rightarrow>
        let limit = input_limit cfg; need = length dest + length txt + 1
        in if length dest + length txt > limit then Inl too_large_error
           else if need > cap then
             let next_cap = grow_input limit (if cap = 0 then 1024 else cap) need
             in if alloc next_cap then Inr (dest @ txt, next_cap)
                else Inl (set_error ''out_of_memory'' ''out of memory while parsing request input'')
           else Inr (dest @ txt, cap))"

text \<open>Calls one after the other, each only when the one before succeeded.\<close>

fun append_all ::
    "(nat \<Rightarrow> bool) \<Rightarrow> bridge_config \<Rightarrow> string list \<Rightarrow> growing \<Rightarrow> harness_error + growing" where
  "append_all alloc cfg [] acc = Inr acc"
| "append_all alloc cfg (t # ts) acc =
     (case append_owned alloc cfg t acc of Inl e \<Rightarrow> Inl e | Inr acc' \<Rightarrow> append_all alloc cfg ts acc')"

definition strdup :: "(nat \<Rightarrow> bool) \<Rightarrow> string \<Rightarrow> string option" where
  "strdup alloc s = (if alloc (length s + 1) then Some s else None)"

definition dup_json_string :: "(nat \<Rightarrow> bool) \<Rightarrow> json \<Rightarrow> string \<Rightarrow> string option" where
  "dup_json_string alloc obj key = Option.bind (json_get_string_ptr (Some obj) key) (strdup alloc)"

definition or_empty :: "string option \<Rightarrow> string" where
  "or_empty s = (case s of None \<Rightarrow> [] | Some t \<Rightarrow> t)"

definition item_append :: "(nat \<Rightarrow> bool) \<Rightarrow> string \<Rightarrow> string option \<Rightarrow> string option" where
  "item_append alloc txt dest =
     (if alloc (length (or_empty dest) + length txt + 1) then Some (or_empty dest @ txt) else dest)"

section \<open>One input item\<close>

text \<open>The arguments of a call: a string as it is, an object printed; what is there stays otherwise.\<close>

definition call_arguments ::
    "(nat \<Rightarrow> bool) \<Rightarrow> (json \<Rightarrow> string option) \<Rightarrow> json \<Rightarrow> string option \<Rightarrow> string option" where
  "call_arguments alloc print obj old =
     (case cJSON_GetObjectItem obj ''arguments'' of
        Some (JStr s) \<Rightarrow> strdup alloc s
      | Some (JObj kvs) \<Rightarrow> (case print (JObj kvs) of None \<Rightarrow> old | Some raw \<Rightarrow> strdup alloc raw)
      | _ \<Rightarrow> old)"

definition set_from :: "string option \<Rightarrow> nat \<Rightarrow> string \<Rightarrow> string" where
  "set_from v n old = (case v of None \<Rightarrow> old | Some s \<Rightarrow> cstr_copy n s)"

definition parse_content_block ::
    "(nat \<Rightarrow> bool) \<Rightarrow> (json \<Rightarrow> string option) \<Rightarrow> json \<Rightarrow> input_item \<Rightarrow> input_item" where
  "parse_content_block alloc print block item =
     (let block_type = json_get_string_ptr (Some block) ''type'';
          text_val = json_get_string_ptr (Some block) ''text''
      in if block_type = None then item
         else if json_string_matches block_type [''text'', ''input_text''] then
           (case text_val of
              None \<Rightarrow> item
            | Some t \<Rightarrow>
                let cur = or_empty (ii_text item);
                    item1 = (if cur \<noteq> [] \<and> last cur \<noteq> CHR 0x0A
                             then item\<lparr>ii_text := item_append alloc [CHR 0x0A] (ii_text item)\<rparr> else item)
                in item1\<lparr>ii_text := item_append alloc t (ii_text item1)\<rparr>)
         else if json_string_matches block_type [''tool_call'', ''function_call''] then
           item\<lparr>ii_name := set_from (json_get_string_ptr (Some block) ''name'') 64 (ii_name item),
                ii_call_id := set_from (json_get_string_ptr (Some block) ''call_id'') 128 (ii_call_id item),
                ii_arguments := call_arguments alloc print block (ii_arguments item),
                ii_type := INPUT_ITEM_TYPE_TOOL_CALL\<rparr>
         else if json_string_matches block_type [''reasoning_summary'', ''reasoning''] then
           item\<lparr>ii_text := (case text_val of None \<Rightarrow> ii_text item | Some t \<Rightarrow> item_append alloc t (ii_text item)),
                ii_type := INPUT_ITEM_TYPE_REASONING\<rparr>
         else item)"

definition item_type_of :: "json \<Rightarrow> string" where
  "item_type_of obj =
     (case json_get_string_ptr (Some obj) ''type'' of
        Some t \<Rightarrow> t
      | None \<Rightarrow>
          if cJSON_GetObjectItem obj ''role'' \<noteq> None \<or> cJSON_GetObjectItem obj ''content'' \<noteq> None
          then ''message'' else ''text'')"

definition parse_message ::
    "(nat \<Rightarrow> bool) \<Rightarrow> (json \<Rightarrow> string option) \<Rightarrow> json \<Rightarrow> input_item" where
  "parse_message alloc print obj =
     (let item = item_zero\<lparr>ii_type := INPUT_ITEM_TYPE_MESSAGE,
                           ii_role := set_from (json_get_string_ptr (Some obj) ''role'') 16 []\<rparr>
      in case cJSON_GetObjectItem obj ''content'' of
           Some (JArr blocks) \<Rightarrow> fold (parse_content_block alloc print) blocks item
         | _ \<Rightarrow> item)"

definition parse_input_item ::
    "(nat \<Rightarrow> bool) \<Rightarrow> (json \<Rightarrow> string option) \<Rightarrow> json \<Rightarrow> input_item" where
  "parse_input_item alloc print obj =
     (let item_type = item_type_of obj;
          str = json_get_string_ptr (Some obj)
      in if item_type = ''message'' then parse_message alloc print obj
         else if item_type \<in> {''input_text'', ''text''} then
           item_zero\<lparr>ii_text := Option.bind (str ''text'') (strdup alloc)\<rparr>
         else if item_type \<in> {''input_image'', ''image''} then
           item_zero\<lparr>ii_type := INPUT_ITEM_TYPE_IMAGE, ii_image_url := set_from (str ''image_url'') 2048 [],
                     ii_image_data := Option.bind (str ''data'') (strdup alloc)\<rparr>
         else if item_type \<in> {''tool_call'', ''function_call''} then
           item_zero\<lparr>ii_type := INPUT_ITEM_TYPE_TOOL_CALL, ii_name := get_into (Some obj) ''name'' 64 [],
                     ii_call_id := get_into (Some obj) ''call_id'' 128 [],
                     ii_arguments := call_arguments alloc print obj None\<rparr>
         else if item_type \<in> {''tool_call_output'', ''function_call_output''} then
           item_zero\<lparr>ii_type := INPUT_ITEM_TYPE_TOOL_OUTPUT, ii_call_id := get_into (Some obj) ''call_id'' 128 [],
                     ii_output := dup_json_string alloc obj ''output''\<rparr>
         else if item_type = ''computer_call'' then
           item_zero\<lparr>ii_type := INPUT_ITEM_TYPE_COMPUTER,
                     ii_text := Option.bind (Option.bind (cJSON_GetObjectItem obj ''action'') print)
                       (\<lambda>raw. if alloc (length raw + 18) then Some (''[computer_call: '' @ raw @ '']'') else None)\<rparr>
         else if item_type \<in> {''reasoning'', ''reasoning_summary''} then
           item_zero\<lparr>ii_type := INPUT_ITEM_TYPE_REASONING, ii_text := Option.bind (str ''text'') (strdup alloc)\<rparr>
         else item_zero\<lparr>ii_text := Option.bind (print obj) (strdup alloc)\<rparr>)"

section \<open>The text of an item\<close>

definition call_id_pieces :: "string \<Rightarrow> string list" where
  "call_id_pieces i = (if i = [] then [] else [CHR '' '' # ''[call_id: '', i, '']''])"

text \<open>What is appended for it, call by call.\<close>

definition item_pieces :: "input_item \<Rightarrow> string list" where
  "item_pieces item =
     (case ii_type item of
        INPUT_ITEM_TYPE_TEXT \<Rightarrow> [or_empty (ii_text item)]
      | INPUT_ITEM_TYPE_MESSAGE \<Rightarrow>
          [if ii_role item \<noteq> [] then ii_role item else ''user'', '': '', or_empty (ii_text item)]
      | INPUT_ITEM_TYPE_TOOL_CALL \<Rightarrow>
          [''tool_call: ''] @
          (if ii_name item = [] then []
           else [ii_name item, ''(''] @
             (if or_empty (ii_arguments item) = [] then [] else [or_empty (ii_arguments item)]) @ ['')'']) @
          call_id_pieces (ii_call_id item)
      | INPUT_ITEM_TYPE_TOOL_OUTPUT \<Rightarrow>
          [''tool_output: ''] @
          (if or_empty (ii_output item) = [] then [] else [or_empty (ii_output item)]) @
          call_id_pieces (ii_call_id item)
      | INPUT_ITEM_TYPE_IMAGE \<Rightarrow>
          [''[image: ''] @
          (if ii_image_url item \<noteq> [] then [ii_image_url item]
           else if or_empty (ii_image_data item) \<noteq> [] then [''base64_data '', or_empty (ii_image_data item), ''...'']
           else [''unknown'']) @ ['']'']
      | INPUT_ITEM_TYPE_COMPUTER \<Rightarrow> [''computer_call: '', or_empty (ii_text item)]
      | INPUT_ITEM_TYPE_REASONING \<Rightarrow> [''reasoning: '', or_empty (ii_text item)])"

definition line_break :: "string \<Rightarrow> string list" where
  "line_break dest = (if dest \<noteq> [] \<and> last dest \<noteq> CHR 0x0A then [[CHR 0x0A]] else [])"

definition normalize_text_item ::
    "(nat \<Rightarrow> bool) \<Rightarrow> bridge_config \<Rightarrow> input_item \<Rightarrow> growing \<Rightarrow> harness_error + growing" where
  "normalize_text_item alloc cfg item acc =
     (if ii_type item = INPUT_ITEM_TYPE_TEXT \<and> or_empty (ii_text item) = [] then Inr acc
      else append_all alloc cfg (line_break (fst acc) @ item_pieces item) acc)"

section \<open>The input array\<close>

definition INPUT_ITEM_SIZE :: nat where "INPUT_ITEM_SIZE = 2296"

text \<open>One step of doubling is always enough here, since items are added one at a time.\<close>

function grow_items :: "nat \<Rightarrow> nat \<Rightarrow> nat" where
  "grow_items next_cap needed = (if 0 < next_cap \<and> next_cap < needed then grow_items (next_cap * 2) needed else next_cap)"
  by pat_completeness auto
termination by (relation "measure (\<lambda>(next_cap, needed). needed - next_cap)") auto

declare grow_items.simps [simp del]

definition ensure_input_item_capacity :: "(nat \<Rightarrow> bool) \<Rightarrow> nat \<Rightarrow> nat \<Rightarrow> harness_error + nat" where
  "ensure_input_item_capacity alloc needed cap =
     (if needed \<le> cap then Inr cap
      else
        let next_cap = grow_items (if cap > 0 then cap * 2 else 16) needed
        in if alloc (next_cap * INPUT_ITEM_SIZE) then Inr next_cap
           else Inl (set_error ''out_of_memory'' ''out of memory while parsing request items''))"

fun parse_items ::
    "(nat \<Rightarrow> bool) \<Rightarrow> (json \<Rightarrow> string option) \<Rightarrow> bridge_config \<Rightarrow> json list \<Rightarrow> input_item list \<times> nat \<Rightarrow> growing
     \<Rightarrow> harness_error + (input_item list \<times> nat) \<times> growing" where
  "parse_items alloc print cfg [] st acc = Inr (st, acc)"
| "parse_items alloc print cfg (obj # objs) (items, cap) acc =
     (case ensure_input_item_capacity alloc (length items + 1) cap of
        Inl e \<Rightarrow> Inl e
      | Inr cap' \<Rightarrow>
          let item = parse_input_item alloc print obj
          in case normalize_text_item alloc cfg item acc of
               Inl e \<Rightarrow> Inl e
             | Inr acc' \<Rightarrow> parse_items alloc print cfg objs (items @ [item], cap') acc')"

section \<open>The normalised text\<close>

definition labelled :: "string \<Rightarrow> string \<Rightarrow> string list" where
  "labelled label v = (if v = [] then [] else [label, v, [CHR 0x0A]])"

definition preamble :: "harness_request \<Rightarrow> string list" where
  "preamble req =
     (if or_empty (hr_instructions req) = [] then [] else [or_empty (hr_instructions req), [CHR 0x0A]])
     @ labelled ''previous_response_id: '' (hr_previous_response_id req)
     @ labelled ''metadata: '' (hr_metadata_json req)"

text \<open>A text that stays empty is a failure that leaves the error record as it is.\<close>

definition if_some_text :: "harness_request \<Rightarrow> harness_error + harness_request" where
  "if_some_text req = (if or_empty (hr_normalized_input req) = [] then Inl error_zero else Inr req)"

definition normalize_request_text ::
    "(nat \<Rightarrow> bool) \<Rightarrow> (json \<Rightarrow> string option) \<Rightarrow> bridge_config \<Rightarrow> json \<Rightarrow> harness_request
     \<Rightarrow> harness_error + harness_request" where
  "normalize_request_text alloc print cfg body req =
     (case append_all alloc cfg ([] # preamble req) ([], 0) of
        Inl e \<Rightarrow> Inl e
      | Inr (dest, cap) \<Rightarrow>
          (case cJSON_GetObjectItem body ''input'' of
             Some (JStr s) \<Rightarrow>
               (case append_owned alloc cfg s (dest, cap) of
                  Inl e \<Rightarrow> Inl e
                | Inr (t, _) \<Rightarrow> if_some_text (req\<lparr>hr_normalized_input := Some t\<rparr>))
           | Some (JArr objs) \<Rightarrow>
               (case parse_items alloc print cfg objs ([], 0) (dest, cap) of
                  Inl e \<Rightarrow> Inl e
                | Inr ((items, icap), (t, _)) \<Rightarrow>
                    if_some_text (req\<lparr>hr_normalized_input := Some t, hr_input_items := items,
                                      hr_input_item_capacity := icap\<rparr>))
           | _ \<Rightarrow> if_some_text (req\<lparr>hr_normalized_input := Some dest\<rparr>)))"

section \<open>The request\<close>

definition effort_of :: "bridge_config \<Rightarrow> json \<Rightarrow> string" where
  "effort_of cfg obj =
     (let e1 = get_into (Some obj) ''reasoning_effort'' 32 [];
          e2 = (if e1 \<noteq> [] then e1
                else case cJSON_GetObjectItem obj ''reasoning'' of
                       Some (JObj kvs) \<Rightarrow> get_into (Some (JObj kvs)) ''effort'' 32 []
                     | _ \<Rightarrow> []);
          d = cf_model_reasoning_effort cfg
      in if e2 \<noteq> [] then e2
         else if d = ''extra high'' then ''high'' else cstr_copy 32 d)"

definition bool_member :: "json \<Rightarrow> string \<Rightarrow> bool" where
  "bool_member obj key = (case cJSON_GetObjectItem obj key of Some (JBool b) \<Rightarrow> b | _ \<Rightarrow> False)"

definition printed_into :: "(json \<Rightarrow> string option) \<Rightarrow> json option \<Rightarrow> nat \<Rightarrow> string" where
  "printed_into print j n = set_from (Option.bind j print) n []"

text \<open>A bare call of one of two tools, only without a \<open>tools\<close> member.\<close>

definition explicit_call :: "json \<Rightarrow> string option" where
  "explicit_call obj =
     (let nm = get_into (Some obj) ''name'' 128 []
      in if cJSON_GetObjectItem obj ''tools'' = None \<and> nm \<in> {''google_search'', ''browse_url''} then Some nm else None)"

definition object_member :: "json \<Rightarrow> string \<Rightarrow> json option" where
  "object_member obj key = (case cJSON_GetObjectItem obj key of Some (JObj kvs) \<Rightarrow> Some (JObj kvs) | _ \<Rightarrow> None)"

definition tool_list :: "(json \<Rightarrow> string option) \<Rightarrow> json \<Rightarrow> string \<times> nat" where
  "tool_list print obj =
     (case cJSON_GetObjectItem obj ''tools'' of
        Some (JArr ts) \<Rightarrow>
          (case print (JArr ts) of None \<Rightarrow> ([], 0) | Some raw \<Rightarrow> (cstr_copy 65536 raw, length ts))
      | _ \<Rightarrow> ([], 0))"

definition request_fields ::
    "(nat \<Rightarrow> bool) \<Rightarrow> (json \<Rightarrow> string option) \<Rightarrow> bridge_config \<Rightarrow> json \<Rightarrow> harness_request" where
  "request_fields alloc print cfg obj =
     request_zero\<lparr>hr_model := get_into (Some obj) ''model'' 128 ''star-bridge-ds4'',
       hr_instructions := dup_json_string alloc obj ''instructions'',
       hr_previous_response_id := get_into (Some obj) ''previous_response_id'' 256 [],
       hr_reasoning_effort := effort_of cfg obj,
       hr_stream := bool_member obj ''stream'',
       hr_reset_session := bool_member obj ''reset_session'',
       hr_metadata_json := printed_into print (object_member obj ''metadata'') 8192,
       hr_has_tools := (cJSON_GetObjectItem obj ''tools'' \<noteq> None),
       hr_explicit_tool_call := (explicit_call obj \<noteq> None),
       hr_tool_name := or_empty (explicit_call obj),
       hr_tool_argument :=
         (if explicit_call obj \<noteq> None then printed_into print (object_member obj ''arguments'') 2048 else []),
       hr_tool_defs_json := fst (tool_list print obj),
       hr_tool_count := snd (tool_list print obj),
       hr_tool_choice_json := printed_into print (cJSON_GetObjectItem obj ''tool_choice'') 2048\<rparr>"

definition codex_parse_request ::
    "(string \<Rightarrow> json option) \<Rightarrow> (nat \<Rightarrow> bool) \<Rightarrow> (json \<Rightarrow> string option) \<Rightarrow> bridge_config \<Rightarrow> string
     \<Rightarrow> harness_error + harness_request" where
  "codex_parse_request parse alloc print cfg body =
     (case parse body of
        Some (JObj kvs) \<Rightarrow>
          let obj = JObj kvs; req = request_fields alloc print cfg obj
          in if hr_explicit_tool_call req \<and> cJSON_GetObjectItem obj ''input'' = None then
               (case append_owned alloc cfg [] ([], 0) of
                  Inl e \<Rightarrow> Inl e
                | Inr (t, _) \<Rightarrow> Inr (req\<lparr>hr_normalized_input := Some t\<rparr>))
             else normalize_request_text alloc print cfg obj req
      | _ \<Rightarrow> Inl (set_error ''invalid_json'' ''Request body must be a JSON object''))"

section \<open>The schema\<close>

definition codex_validate_request_schema :: "(string \<Rightarrow> json option) \<Rightarrow> string \<Rightarrow> nat \<Rightarrow> string option" where
  "codex_validate_request_schema parse body error_max =
     map_option (cstr_copy error_max)
      (if body = [] then Some ''empty request body''
       else case parse body of
         Some (JObj kvs) \<Rightarrow>
           (let obj = JObj kvs in
            case cJSON_GetObjectItem obj ''input'' of
              None \<Rightarrow> Some (''missing required field '' @ quoted ''input'')
            | Some input \<Rightarrow>
                if \<not> cJSON_IsString input \<and> \<not> cJSON_IsArray input then
                  Some (''field '' @ quoted ''input'' @ '' must be a string or array'')
                else if (case cJSON_GetObjectItem obj ''stream'' of None \<Rightarrow> False | Some j \<Rightarrow> \<not> cJSON_IsBool j) then
                  Some (''field '' @ quoted ''stream'' @ '' must be a boolean'')
                else if (case cJSON_GetObjectItem obj ''reset_session'' of None \<Rightarrow> False | Some j \<Rightarrow> \<not> cJSON_IsBool j) then
                  Some (''field '' @ quoted ''reset_session'' @ '' must be a boolean'')
                else None)
       | _ \<Rightarrow> Some ''body must be a JSON object'')"

section \<open>The text a request stands for\<close>

text \<open>The reference: no buffers, no limits on the way, only the text.\<close>

definition render :: "string \<Rightarrow> input_item \<Rightarrow> string" where
  "render acc item =
     (if ii_type item = INPUT_ITEM_TYPE_TEXT \<and> or_empty (ii_text item) = [] then acc
      else acc @ concat (line_break acc) @ concat (item_pieces item))"

definition request_items :: "(json \<Rightarrow> string option) \<Rightarrow> json \<Rightarrow> input_item list" where
  "request_items print obj =
     (case cJSON_GetObjectItem obj ''input'' of
        Some (JArr objs) \<Rightarrow> map (parse_input_item (\<lambda>_. True) print) objs | _ \<Rightarrow> [])"

definition reference_text :: "(json \<Rightarrow> string option) \<Rightarrow> bridge_config \<Rightarrow> json \<Rightarrow> string" where
  "reference_text print cfg obj =
     foldl render
       (concat (preamble (request_fields (\<lambda>_. True) print cfg obj))
        @ (case cJSON_GetObjectItem obj ''input'' of Some (JStr s) \<Rightarrow> s | _ \<Rightarrow> []))
       (request_items print obj)"

definition parsed_as :: "harness_error + harness_request \<Rightarrow> harness_error + harness_request" where
  "parsed_as = map_sum id (\<lambda>r. r\<lparr>hr_input_item_capacity := 0\<rparr>)"

lemma parsed_as_simps [simp]:
  "parsed_as (Inl e) = Inl e" "parsed_as (Inr r) = Inr (r\<lparr>hr_input_item_capacity := 0\<rparr>)"
  by (simp_all add: parsed_as_def)

text \<open>A step that yields the text, or the error when it is beyond the limit.\<close>

definition gives :: "bridge_config \<Rightarrow> harness_error + growing \<Rightarrow> string \<Rightarrow> bool" where
  "gives cfg r t =
     (if input_limit cfg < length t then r = Inl too_large_error else \<exists>cap. r = Inr (t, cap))"

lemma append_owned_granted: "gives cfg (append_owned (\<lambda>_. True) cfg t acc) (fst acc @ t)"
  by (cases acc) (simp add: append_owned_def gives_def Let_def)

lemma append_all_granted:
  "length (fst acc) \<le> input_limit cfg \<Longrightarrow> gives cfg (append_all (\<lambda>_. True) cfg ts acc) (fst acc @ concat ts)"
proof (induction ts arbitrary: acc)
  case (Cons t ts)
  show ?case
  proof (cases "length (fst acc @ t) > input_limit cfg")
    case True
    then show ?thesis using append_owned_granted [of cfg t acc] by (simp add: gives_def)
  next
    case False
    then obtain cap where "append_owned (\<lambda>_. True) cfg t acc = Inr (fst acc @ t, cap)"
      using append_owned_granted [of cfg t acc] by (auto simp: gives_def)
    then show ?thesis using False Cons.IH [of "(fst acc @ t, cap)"] by simp
  qed
qed (auto simp: gives_def prod_eq_iff intro: exI [of _ "snd acc"])

lemma normalize_granted:
  assumes "length (fst acc) \<le> input_limit cfg"
  shows "gives cfg (normalize_text_item (\<lambda>_. True) cfg item acc) (render (fst acc) item)"
proof (cases "ii_type item = INPUT_ITEM_TYPE_TEXT \<and> or_empty (ii_text item) = []")
  case True
  then show ?thesis
    using assms by (auto simp: normalize_text_item_def render_def gives_def prod_eq_iff intro: exI [of _ "snd acc"])
next
  case False
  then show ?thesis
    using append_all_granted [OF assms, of "line_break (fst acc) @ item_pieces item"]
    by (auto simp: normalize_text_item_def render_def)
qed

lemma ensure_granted: "\<exists>cap'. ensure_input_item_capacity (\<lambda>_. True) n cap = Inr cap'"
  by (simp add: ensure_input_item_capacity_def Let_def)

lemma length_render: "length acc \<le> length (render acc item)"
  by (simp add: render_def)

lemma length_render_all: "length acc \<le> length (foldl render acc items)"
  by (induction items arbitrary: acc) (simp_all, meson length_render order_trans)

lemma parse_items_granted:
  assumes "length (fst acc) \<le> input_limit cfg" and "parsed = map (parse_input_item (\<lambda>_. True) print) objs"
  shows "if input_limit cfg < length (foldl render (fst acc) parsed)
    then parse_items (\<lambda>_. True) print cfg objs (items, icap) acc = Inl too_large_error
    else \<exists>icap' cap. parse_items (\<lambda>_. True) print cfg objs (items, icap) acc
      = Inr ((items @ parsed, icap'), (foldl render (fst acc) parsed, cap))"
  using assms
proof (induction objs arbitrary: items icap acc parsed)
  case Nil
  then show ?case by (cases acc) simp
next
  case (Cons obj objs)
  let ?item = "parse_input_item (\<lambda>_. True) print obj" and ?rest = "map (parse_input_item (\<lambda>_. True) print) objs"
  obtain icap1 where e: "ensure_input_item_capacity (\<lambda>_. True) (Suc (length items)) icap = Inr icap1"
    using ensure_granted by blast
  note n = normalize_granted [OF Cons.prems(1), of ?item]
  show ?case
  proof (cases "input_limit cfg < length (render (fst acc) ?item)")
    case True
    then show ?thesis
      using e n length_render_all [of "render (fst acc) ?item" ?rest] Cons.prems(2) by (simp add: gives_def Let_def)
  next
    case False
    then obtain cap where "normalize_text_item (\<lambda>_. True) cfg ?item acc = Inr (render (fst acc) ?item, cap)"
      using n by (auto simp: gives_def)
    then show ?thesis
      using e False Cons.IH [of "(render (fst acc) ?item, cap)" ?rest "items @ [?item]" icap1] Cons.prems(2)
      by (auto simp: Let_def split: if_splits)
  qed
qed

lemma keep_items:
  "hr_input_items r = xs \<Longrightarrow> hr_input_item_capacity r = n
    \<Longrightarrow> r\<lparr>hr_normalized_input := t, hr_input_items := xs\<rparr> = r\<lparr>hr_normalized_input := t\<rparr>
      \<and> r\<lparr>hr_normalized_input := t, hr_input_item_capacity := n\<rparr> = r\<lparr>hr_normalized_input := t\<rparr>
      \<and> r\<lparr>hr_normalized_input := t, hr_input_items := ys, hr_input_item_capacity := n\<rparr>
        = r\<lparr>hr_normalized_input := t, hr_input_items := ys\<rparr>"
  by (cases r) simp

lemma if_some_text_parsed:
  "parsed_as (if_some_text r) =
    (if or_empty (hr_normalized_input r) = [] then Inl error_zero else Inr (r\<lparr>hr_input_item_capacity := 0\<rparr>))"
  by (simp add: if_some_text_def)

lemma normalize_request_granted:
  assumes "req = request_fields (\<lambda>_. True) print cfg obj"
  shows "parsed_as (normalize_request_text (\<lambda>_. True) print cfg obj req) =
    (let t = reference_text print cfg obj
     in if input_limit cfg < length t then Inl too_large_error
        else if t = [] then Inl error_zero
        else Inr (req\<lparr>hr_normalized_input := Some t, hr_input_items := request_items print obj\<rparr>))"
proof -
  let ?pre = "concat (preamble req)"
  have plain: "hr_input_items req = []" "hr_input_item_capacity req = 0"
    by (simp_all add: assms request_fields_def request_zero_def)
  have p: "gives cfg (append_all (\<lambda>_. True) cfg ([] # preamble req) ([], 0)) ?pre"
    using append_all_granted [of "([], 0)" cfg "[] # preamble req"] by simp
  show ?thesis
  proof (cases "input_limit cfg < length ?pre")
    case True
    then have "input_limit cfg < length (reference_text print cfg obj)"
      using length_render_all [of "?pre @ (case cJSON_GetObjectItem obj ''input'' of Some (JStr s) \<Rightarrow> s | _ \<Rightarrow> [])"
          "request_items print obj"]
      by (simp add: reference_text_def assms)
    then show ?thesis using True p by (simp add: normalize_request_text_def gives_def)
  next
    case False
    then obtain cap where pre: "append_all (\<lambda>_. True) cfg ([] # preamble req) ([], 0) = Inr (?pre, cap)"
      using p by (auto simp: gives_def)
    note o = append_owned_granted [of cfg _ "(?pre, cap)"]
    note keep = keep_items [OF plain]
    have ref: "reference_text print cfg obj =
        foldl render (?pre @ (case cJSON_GetObjectItem obj ''input'' of Some (JStr s) \<Rightarrow> s | _ \<Rightarrow> [])) (request_items print obj)"
      by (simp add: reference_text_def assms)
    note i = parse_items_granted [of "(?pre, cap)" cfg _ print _ "[]" 0, OF _ refl]
    consider (str) s where "cJSON_GetObjectItem obj ''input'' = Some (JStr s)"
      | (arr) objs where "cJSON_GetObjectItem obj ''input'' = Some (JArr objs)"
      | (other) "\<forall>s. cJSON_GetObjectItem obj ''input'' \<noteq> Some (JStr s)"
        "\<forall>objs. cJSON_GetObjectItem obj ''input'' \<noteq> Some (JArr objs)" by blast
    then show ?thesis
    proof cases
      case str
      then have "reference_text print cfg obj = ?pre @ s" "request_items print obj = []"
        by (simp_all add: ref request_items_def)
      moreover have "normalize_request_text (\<lambda>_. True) print cfg obj req =
          (case append_owned (\<lambda>_. True) cfg s (?pre, cap) of Inl e \<Rightarrow> Inl e
           | Inr (t, _) \<Rightarrow> if_some_text (req\<lparr>hr_normalized_input := Some t\<rparr>))"
        using str by (simp add: normalize_request_text_def pre [simplified])
      ultimately show ?thesis
        using o [of s] keep by (auto simp: gives_def if_some_text_parsed or_empty_def Let_def split: if_splits)
    next
      case arr
      let ?t = "foldl render ?pre (request_items print obj)"
      have ref_t: "reference_text print cfg obj = ?t" using arr by (simp add: ref)
      have run: "normalize_request_text (\<lambda>_. True) print cfg obj req =
          (case parse_items (\<lambda>_. True) print cfg objs ([], 0) (?pre, cap) of Inl e \<Rightarrow> Inl e
           | Inr ((items, icap), (t, _)) \<Rightarrow>
               if_some_text (req\<lparr>hr_normalized_input := Some t, hr_input_items := items, hr_input_item_capacity := icap\<rparr>))"
        using arr by (simp add: normalize_request_text_def pre [simplified])
      have items: "map (parse_input_item (\<lambda>_. True) print) objs = request_items print obj"
        using arr by (simp add: request_items_def)
      show ?thesis
      proof (cases "input_limit cfg < length ?t")
        case True
        then show ?thesis using i [of objs] False by (simp add: run ref_t items Let_def)
      next
        case fits: False
        then obtain icap cap' where "parse_items (\<lambda>_. True) print cfg objs ([], 0) (?pre, cap) =
            Inr ((request_items print obj, icap), (?t, cap'))"
          using i [of objs] False by (auto simp: items)
        then show ?thesis using fits keep by (simp add: run ref_t if_some_text_parsed or_empty_def Let_def)
      qed
    next
      case other
      then have "reference_text print cfg obj = ?pre" "request_items print obj = []"
        by (auto simp: reference_text_def request_items_def assms split: option.split json.split)
      moreover have "normalize_request_text (\<lambda>_. True) print cfg obj req = if_some_text (req\<lparr>hr_normalized_input := Some ?pre\<rparr>)"
        using other by (auto simp: normalize_request_text_def pre [simplified] split: option.split json.split)
      ultimately show ?thesis using keep False by (auto simp: if_some_text_parsed or_empty_def Let_def)
    qed
  qed
qed

section \<open>Properties\<close>

lemma parse_object:
  assumes "parse body = Some (JObj kvs)"
  shows "parsed_as (codex_parse_request parse (\<lambda>_. True) print cfg body) =
    (let obj = JObj kvs; req = request_fields (\<lambda>_. True) print cfg obj; t = reference_text print cfg obj
     in if hr_explicit_tool_call req \<and> cJSON_GetObjectItem obj ''input'' = None
        then Inr (req\<lparr>hr_normalized_input := Some []\<rparr>)
        else if input_limit cfg < length t then Inl too_large_error
        else if t = [] then Inl error_zero
        else Inr (req\<lparr>hr_normalized_input := Some t, hr_input_items := request_items print obj\<rparr>))"
proof -
  let ?req = "request_fields (\<lambda>_. True) print cfg (JObj kvs)"
  have plain: "hr_input_items ?req = []" "hr_input_item_capacity ?req = 0"
    by (simp_all add: request_fields_def request_zero_def)
  obtain cap where "append_owned (\<lambda>_. True) cfg [] ([], 0) = Inr ([], cap)"
    using append_owned_granted [of cfg "[]" "([], 0)"] by (auto simp: gives_def)
  then show ?thesis
    using assms normalize_request_granted [OF refl, of print cfg "JObj kvs"] keep_items [OF plain]
    by (simp add: codex_parse_request_def Let_def)
qed

text \<open>Property C8: parsing a request is the reference: the text is the preamble and the input items
  rendered one after the other, and the only failures are a body that is no object, a text beyond
  the limit and an empty text (memory granted, the capacity of the item array left out).\<close>

theorem parse_request_reference:
  "parsed_as (codex_parse_request parse (\<lambda>_. True) print cfg body) =
    (case parse body of
       Some (JObj kvs) \<Rightarrow>
         (let obj = JObj kvs; req = request_fields (\<lambda>_. True) print cfg obj; t = reference_text print cfg obj
          in if hr_explicit_tool_call req \<and> cJSON_GetObjectItem obj ''input'' = None
             then Inr (req\<lparr>hr_normalized_input := Some []\<rparr>)
             else if input_limit cfg < length t then Inl too_large_error
             else if t = [] then Inl error_zero
             else Inr (req\<lparr>hr_normalized_input := Some t, hr_input_items := request_items print obj\<rparr>))
     | _ \<Rightarrow> Inl (set_error ''invalid_json'' ''Request body must be a JSON object''))"
proof (cases "\<exists>kvs. parse body = Some (JObj kvs)")
  case True
  then show ?thesis using parse_object [of parse body _ print cfg] by (elim exE) simp
next
  case False
  then show ?thesis by (auto simp: codex_parse_request_def split: option.split json.split)
qed

text \<open>What the schema check lets through: an object with an input of the right shape.\<close>

definition schema_shape :: "json \<Rightarrow> bool" where
  "schema_shape obj =
     ((case cJSON_GetObjectItem obj ''input'' of None \<Rightarrow> False | Some j \<Rightarrow> cJSON_IsString j \<or> cJSON_IsArray j)
      \<and> (\<forall>key \<in> {''stream'', ''reset_session''}.
           case cJSON_GetObjectItem obj key of None \<Rightarrow> True | Some j \<Rightarrow> cJSON_IsBool j))"

lemma schema_passes:
  "codex_validate_request_schema parse body n = None \<longleftrightarrow>
    body \<noteq> [] \<and> (\<exists>kvs. parse body = Some (JObj kvs) \<and> schema_shape (JObj kvs))"
proof -
  have "codex_validate_request_schema parse body n = None \<longleftrightarrow> body \<noteq> [] \<and> schema_shape (JObj kvs)"
    if "parse body = Some (JObj kvs)" for kvs
    using that by (simp add: codex_validate_request_schema_def schema_shape_def Let_def
        del: cJSON_GetObjectItem.simps split: option.split)
  then show ?thesis
    by (cases "parse body"; cases "the (parse body)") (auto simp: codex_validate_request_schema_def)
qed

text \<open>Property C37: once a request has passed the schema check, parsing it fails only because its text is
  beyond the limit, or because its text is empty; the second failure comes without any message.\<close>

theorem checked_request_errors:
  assumes "codex_validate_request_schema parse body n = None"
  shows "case codex_parse_request parse (\<lambda>_. True) print cfg body of
      Inl e \<Rightarrow> (e = too_large_error \<and> input_limit cfg < length (reference_text print cfg (the (parse body))))
        \<or> (e = error_zero \<and> he_message e = [] \<and> reference_text print cfg (the (parse body)) = [])
    | Inr r \<Rightarrow> or_empty (hr_normalized_input r) = reference_text print cfg (the (parse body))"
proof -
  obtain kvs where kvs: "parse body = Some (JObj kvs)" "schema_shape (JObj kvs)"
    using assms by (auto simp: schema_passes)
  then have "cJSON_GetObjectItem (JObj kvs) ''input'' \<noteq> None"
    by (auto simp: schema_shape_def simp del: cJSON_GetObjectItem.simps split: option.splits)
  then show ?thesis
    using parse_object [of parse body, OF kvs(1), of print cfg] kvs(1)
    by (cases "codex_parse_request parse (\<lambda>_. True) print cfg body")
      (auto simp: Let_def error_zero_def or_empty_def parsed_as_def split: if_splits
        dest!: arg_cong [where f = hr_normalized_input])
qed

theorem checked_request_errors_witness:
  "case codex_parse_request (\<lambda>_. Some (JObj [(''input'', JStr [])])) (\<lambda>_. True) (\<lambda>_. None) (init_global_config 8080) ''x'' of
      Inl e \<Rightarrow> e = too_large_error \<or> e = error_zero
    | Inr r \<Rightarrow> or_empty (hr_normalized_input r)
        = reference_text (\<lambda>_. None) (init_global_config 8080) (JObj [(''input'', JStr [])])"
proof -
  have "codex_validate_request_schema (\<lambda>_. Some (JObj [(''input'', JStr [])])) ''x'' 256 = None"
    by (simp add: schema_passes schema_shape_def ci_eq_def to_lower_def cval_def)
  from checked_request_errors [OF this, where print = "\<lambda>_. None" and cfg = "init_global_config 8080"]
  show ?thesis by (simp split: sum.splits) blast
qed

section \<open>What a message loses\<close>

text \<open>A message whose content is a plain string, or anything but an array of blocks, reaches
  the agent as its role alone: what it says is dropped.\<close>

theorem string_content_lost:
  assumes "item_type_of obj = ''message''" and "\<forall>blocks. cJSON_GetObjectItem obj ''content'' \<noteq> Some (JArr blocks)"
  shows "concat (item_pieces (parse_input_item alloc print obj)) =
    (let r = cstr_copy 16 (or_empty (json_get_string_ptr (Some obj) ''role'')) in if r = [] then ''user'' else r) @ '': ''"
  using assms
  by (auto simp: parse_input_item_def parse_message_def item_pieces_def item_zero_def or_empty_def set_from_def Let_def
      split: option.split json.split)

theorem string_content_lost_witness:
  "concat (item_pieces (parse_input_item (\<lambda>_. True) (\<lambda>_. None)
     (JObj [(''role'', JStr ''user''), (''content'', JStr ''hello'')]))) = ''user: ''"
  by (subst string_content_lost)
    (simp_all add: item_type_of_def json_get_string_ptr_def ci_eq_def to_lower_def cval_def char_of_def or_empty_def cstr_copy_def)

section \<open>Fields within their buffers\<close>

definition item_fits :: "input_item \<Rightarrow> bool" where
  "item_fits i = (length (ii_role i) < 16 \<and> length (ii_name i) < 64 \<and> length (ii_call_id i) < 128
     \<and> length (ii_image_url i) < 2048)"

definition request_fits :: "bridge_config \<Rightarrow> harness_request \<Rightarrow> bool" where
  "request_fits cfg r =
     (length (hr_model r) < 128 \<and> length (hr_metadata_json r) < 8192 \<and> length (hr_previous_response_id r) < 256
      \<and> length (hr_reasoning_effort r) < 32 \<and> length (hr_tool_name r) < 128 \<and> length (hr_tool_argument r) < 2048
      \<and> length (hr_tool_defs_json r) < 65536 \<and> length (hr_tool_choice_json r) < 2048
      \<and> length (or_empty (hr_normalized_input r)) \<le> input_limit cfg
      \<and> (\<forall>i \<in> set (hr_input_items r). item_fits i) \<and> length (hr_input_items r) \<le> hr_input_item_capacity r)"

lemma set_from_less: "length d < n \<Longrightarrow> length (set_from v n d) < n"
  by (auto simp: set_from_def length_cstr_copy split: option.split)

lemma block_fits: "item_fits i \<Longrightarrow> item_fits (parse_content_block alloc print b i)"
  by (auto simp: parse_content_block_def item_fits_def Let_def set_from_less split: option.split)

lemma blocks_fit: "item_fits i \<Longrightarrow> item_fits (fold (parse_content_block alloc print) bs i)"
  by (induction bs arbitrary: i) (simp_all add: block_fits)

lemma zero_fits [simp]: "item_fits item_zero"
  by (simp add: item_fits_def item_zero_def)

lemma message_fits: "item_fits (parse_message alloc print obj)"
proof -
  let ?i = "item_zero\<lparr>ii_type := INPUT_ITEM_TYPE_MESSAGE,
      ii_role := set_from (json_get_string_ptr (Some obj) ''role'') 16 []\<rparr>"
  have "item_fits ?i" by (simp add: item_fits_def item_zero_def set_from_less)
  then show ?thesis
    using blocks_fit [of ?i alloc print] by (simp add: parse_message_def Let_def split: option.split json.split)
qed

lemma parsed_item_fits: "item_fits (parse_input_item alloc print obj)"
  by (auto simp: parse_input_item_def Let_def message_fits)
    (auto simp: item_fits_def item_zero_def set_from_less get_into_bound)

lemma append_owned_limit: "append_owned alloc cfg t acc = Inr r \<Longrightarrow> length (fst r) \<le> input_limit cfg"
  by (cases acc) (auto simp: append_owned_def Let_def split: if_splits)

lemma append_all_limit:
  "append_all alloc cfg ts acc = Inr r \<Longrightarrow> length (fst acc) \<le> input_limit cfg \<Longrightarrow> length (fst r) \<le> input_limit cfg"
  by (induction ts arbitrary: acc) (auto dest: append_owned_limit split: sum.splits)

lemma ensure_enough: "ensure_input_item_capacity alloc n cap = Inr cap' \<Longrightarrow> n \<le> cap'"
proof -
  have "0 < c \<Longrightarrow> n \<le> grow_items c n" for c
    by (induction c n rule: grow_items.induct) (subst grow_items.simps, auto)
  then show "ensure_input_item_capacity alloc n cap = Inr cap' \<Longrightarrow> n \<le> cap'"
    by (auto simp: ensure_input_item_capacity_def Let_def split: if_splits)
qed

lemma parse_items_fit:
  "parse_items alloc print cfg objs (items, cap) acc = Inr ((items', cap'), acc')
    \<Longrightarrow> \<forall>i \<in> set items. item_fits i \<Longrightarrow> length items \<le> cap \<Longrightarrow> length (fst acc) \<le> input_limit cfg
    \<Longrightarrow> (\<forall>i \<in> set items'. item_fits i) \<and> length items' \<le> cap' \<and> length (fst acc') \<le> input_limit cfg"
proof (induction objs arbitrary: items cap acc)
  case (Cons obj objs)
  from Cons.prems(1) obtain cap1 acc1 where
    c: "ensure_input_item_capacity alloc (Suc (length items)) cap = Inr cap1"
    and n: "normalize_text_item alloc cfg (parse_input_item alloc print obj) acc = Inr acc1"
    and r: "parse_items alloc print cfg objs (items @ [parse_input_item alloc print obj], cap1) acc1 = Inr ((items', cap'), acc')"
    by (auto simp: Let_def split: sum.splits)
  have "length (fst acc1) \<le> input_limit cfg"
    using n Cons.prems(4) by (auto simp: normalize_text_item_def dest: append_all_limit split: if_splits)
  then show ?case
    using Cons.IH [OF r] Cons.prems(2) ensure_enough [OF c] parsed_item_fits by auto
qed auto

lemma field_bounds:
  "length (printed_into print j 8192) < 8192" "length (printed_into print j 2048) < 2048"
  "length (effort_of cfg obj) < 32" "length (fst (tool_list print obj)) < 65536"
  "length (or_empty (explicit_call obj)) < 128"
  by (auto simp: printed_into_def set_from_less effort_of_def get_into_bound tool_list_def explicit_call_def or_empty_def
      length_cstr_copy Let_def split: option.split json.split)

lemma fields_fit: "request_fits cfg (request_fields alloc print cfg obj)"
  unfolding request_fits_def request_fields_def request_zero_def
  by (simp add: field_bounds get_into_bound or_empty_def [of None])

lemma text_fits:
  assumes "length t \<le> input_limit cfg"
  shows "request_fits cfg (request_fields alloc print cfg obj\<lparr>hr_normalized_input := Some t\<rparr>)"
  using fields_fit [of cfg alloc print obj] assms by (simp add: request_fits_def or_empty_def)

lemma normalized_fits:
  assumes n: "normalize_request_text alloc print cfg obj (request_fields alloc print cfg obj) = Inr r"
  shows "request_fits cfg r"
proof -
  let ?req = "request_fields alloc print cfg obj"
  obtain dest cap where p: "append_all alloc cfg ([] # preamble ?req) ([], 0) = Inr (dest, cap)"
    using n by (auto simp: normalize_request_text_def simp del: append_all.simps split: sum.splits)
  then have d: "length dest \<le> input_limit cfg" using append_all_limit [OF p] by simp
  show ?thesis
  proof (cases "cJSON_GetObjectItem obj ''input''")
    case None
    then show ?thesis using n p d text_fits by (auto simp: normalize_request_text_def if_some_text_def
        simp del: append_all.simps cJSON_GetObjectItem.simps split: if_splits)
  next
    case (Some j)
    show ?thesis
    proof (cases "\<exists>objs. j = JArr objs")
      case True
      then obtain objs items icap t cap' where i: "j = JArr objs"
        "parse_items alloc print cfg objs ([], 0) (dest, cap) = Inr ((items, icap), (t, cap'))"
        "r = ?req\<lparr>hr_normalized_input := Some t, hr_input_items := items, hr_input_item_capacity := icap\<rparr>"
        using n p Some by (auto simp: normalize_request_text_def if_some_text_def
            simp del: append_all.simps cJSON_GetObjectItem.simps split: if_splits sum.splits)
      then show ?thesis
        using parse_items_fit [OF i(2)] d fields_fit [of cfg alloc print obj]
        by (simp add: request_fits_def or_empty_def)
    next
      case False
      then show ?thesis using n p d Some
        by (cases j) (auto simp: normalize_request_text_def if_some_text_def intro!: text_fits dest!: append_owned_limit
            simp del: append_all.simps cJSON_GetObjectItem.simps split: if_splits sum.splits)
    qed
  qed
qed

text \<open>Property C32: in a parsed request every field fits its buffer, every item fits, the items fit their
  array, and the text is within the limit, whatever the allocator grants.\<close>

theorem parsed_request_fits:
  assumes "codex_parse_request parse alloc print cfg body = Inr r"
  shows "request_fits cfg r"
proof -
  obtain kvs where kvs: "parse body = Some (JObj kvs)"
    using assms by (auto simp: codex_parse_request_def split: option.splits json.splits)
  let ?req = "request_fields alloc print cfg (JObj kvs)"
  show ?thesis
  proof (cases "hr_explicit_tool_call ?req \<and> cJSON_GetObjectItem (JObj kvs) ''input'' = None")
    case True
    then show ?thesis
      using assms kvs text_fits
      by (auto simp: codex_parse_request_def Let_def dest: append_owned_limit split: sum.splits)
  next
    case False
    then have "normalize_request_text alloc print cfg (JObj kvs) ?req = Inr r"
      using assms kvs by (simp only: codex_parse_request_def option.case json.case Let_def if_False)
    then show ?thesis by (rule normalized_fits)
  qed
qed

theorem parsed_request_fits_witness:
  "\<exists>r. codex_parse_request (\<lambda>_. Some (JObj [(''input'', JStr ''hi'')])) (\<lambda>_. True) (\<lambda>_. None) (init_global_config 8080) ''x''
      = Inr r \<and> request_fits (init_global_config 8080) r"
proof -
  let ?parse = "\<lambda>_ :: string. Some (JObj [(''input'', JStr ''hi'')])" and ?cfg = "init_global_config 8080"
  have "\<exists>r. codex_parse_request ?parse (\<lambda>_. True) (\<lambda>_. None) ?cfg ''x'' = Inr r"
    by (simp add: codex_parse_request_def request_fields_def request_zero_def explicit_call_def get_into_def
        json_get_string_def ci_eq_vals Let_def normalize_request_text_def preamble_def dup_json_string_def
        json_get_string_ptr_def or_empty_def labelled_def printed_into_def object_member_def effort_of_def
        init_global_config_def append_owned_def grow_input.simps input_limit_def if_some_text_def bool_member_def
        tool_list_def set_from_def)
  then show ?thesis using parsed_request_fits by blast
qed

end
