(* ===== verification/Native_Input.thy ===== *)
theory Native_Input
  imports Request_Parser Http_Request Capability_Router Tool_History Tool_Normalizer
begin

text \<open>
  The text the agent is given for a request: the first part of \<open>handle_response_native\<close> in
  \<^verbatim>\<open>src/server.c\<close>.

  The text and the capacity of its block are a pair; \<open>None\<close> is the jump to \<open>oom\<close>. The parts
  are appended in the order of the source. What a part appends depends on the text before it
  only through its last character, so a part is a function from that text to the strings that
  are appended.
\<close>

section \<open>The growing block\<close>

text \<open>The capacity is at least 4096, so the doubling ends.\<close>

function grow_block :: "nat \<Rightarrow> nat \<Rightarrow> nat" where
  "grow_block next_cap need = (if 0 < next_cap \<and> next_cap < need then grow_block (next_cap * 2) need else next_cap)"
  by pat_completeness auto
termination by (relation "measure (\<lambda>(next_cap, need). need - next_cap)") auto

declare grow_block.simps [simp del]

definition dyn_append :: "(nat \<Rightarrow> bool) \<Rightarrow> string \<Rightarrow> string \<times> nat \<Rightarrow> (string \<times> nat) option" where
  "dyn_append alloc t acc =
     (case acc of (buf, cap) \<Rightarrow>
        if t = [] then Some (buf, cap)
        else if length buf + length t + 1 > cap then
          let next_cap = grow_block (cap * 2) (length buf + length t + 1)
          in if alloc next_cap then Some (buf @ t, next_cap) else None
        else Some (buf @ t, cap))"

fun dyn_all :: "(nat \<Rightarrow> bool) \<Rightarrow> string list \<Rightarrow> string \<times> nat \<Rightarrow> (string \<times> nat) option" where
  "dyn_all alloc [] acc = Some acc"
| "dyn_all alloc (t # ts) acc = Option.bind (dyn_append alloc t acc) (dyn_all alloc ts)"

fun dyn_parts :: "(nat \<Rightarrow> bool) \<Rightarrow> (string \<Rightarrow> string list) list \<Rightarrow> string \<times> nat \<Rightarrow> (string \<times> nat) option" where
  "dyn_parts alloc [] acc = Some acc"
| "dyn_parts alloc (p # ps) acc = Option.bind (dyn_all alloc (p (fst acc)) acc) (dyn_parts alloc ps)"

section \<open>The parts\<close>

definition newline :: string where "newline = [CHR 0x0A]"

text \<open>\<open>off\<close>: the environment variable that switches the workspace directives off is set.\<close>

definition has_workspace :: "bool \<Rightarrow> string \<Rightarrow> bool" where
  "has_workspace off workspace = (workspace \<noteq> [] \<and> \<not> off)"

definition workspace_part :: "bool \<Rightarrow> string \<Rightarrow> string \<Rightarrow> string list" where
  "workspace_part off workspace cur =
     (if has_workspace off workspace then line_break cur @ [''workspace_root: '', workspace, newline] else [])"

definition history_part :: "bridge_config \<Rightarrow> tool_history \<Rightarrow> string \<Rightarrow> string list" where
  "history_part cfg h cur =
     (if \<not> cf_hide_tool_transcripts cfg \<and> tool_history_count h > 0
      then case tool_history_build_json h of None \<Rightarrow> [] | Some hj \<Rightarrow> [''tool_history:'', hj, newline]
      else [])"

definition resume_part :: "bridge_config \<Rightarrow> harness_request \<Rightarrow> string \<Rightarrow> string list" where
  "resume_part cfg req cur =
     (if hr_previous_response_id req = [] then []
      else line_break cur @ [''auto_load_resume_session: '', show_bool (cf_auto_load_resume_session cfg), newline])"

definition MAX_TOOL_DEFS :: int where "MAX_TOOL_DEFS = 64"

definition tools_body :: "(string \<Rightarrow> json option) \<Rightarrow> harness_request \<Rightarrow> json option" where
  "tools_body parse req =
     (if hr_tool_defs_json req = [] then None
      else case parse (hr_tool_defs_json req) of
        Some (JArr ts) \<Rightarrow>
          Some (JObj ([(''tools'', JArr ts)]
            @ (case (if hr_tool_choice_json req = [] then None else parse (hr_tool_choice_json req)) of
                 None \<Rightarrow> [] | Some tc \<Rightarrow> [(''tool_choice'', tc)])))
      | _ \<Rightarrow> None)"

definition choice_line :: "tool_choice_spec \<Rightarrow> string list" where
  "choice_line tc =
     (case tc_mode tc of
        TOOL_CHOICE_NONE \<Rightarrow> [''tool_choice: none'' @ newline]
      | TOOL_CHOICE_REQUIRED \<Rightarrow> [''tool_choice: required'' @ newline]
      | TOOL_CHOICE_NAMED \<Rightarrow> [''tool_choice: '', tc_named_tool tc, newline]
      | TOOL_CHOICE_AUTO \<Rightarrow> [])"

definition tool_parts ::
    "(string \<Rightarrow> json option) \<Rightarrow> (json \<Rightarrow> string) \<Rightarrow> harness_request \<Rightarrow> (string \<Rightarrow> string list) list" where
  "tool_parts parse print req =
     (case tools_body parse req of
        None \<Rightarrow> []
      | Some body \<Rightarrow>
          let norm_tools = codex_normalize_tools print (Some body) MAX_TOOL_DEFS;
              tc = codex_resolve_tool_choice (Some body);
              prompt = codex_build_tool_prompt 8192 norm_tools;
              summary = capability_decision_summary 1024
                (capability_route_tools norm_tools (Some tc) (or_empty (hr_normalized_input req)))
          in [\<lambda>cur. if prompt = [] then [] else line_break cur @ [''available_tools:'', prompt],
              \<lambda>cur. choice_line tc,
              \<lambda>cur. if summary = [] then [] else line_break cur @ [''capability_routing: '', summary, newline]])"

definition context_part :: "bridge_config \<Rightarrow> string \<Rightarrow> string list" where
  "context_part cfg cur = line_break cur @ [''context_tokens: '', show_int (cf_context_tokens cfg), newline]"

definition review_words :: "string list" where
  "review_words = [''review'', ''explore'', ''analyze'', ''analyse'', ''audit'', ''intent'', ''current state'',
     ''improvement'', ''score'']"

definition directive_part :: "bool \<Rightarrow> string \<Rightarrow> harness_request \<Rightarrow> string \<Rightarrow> string list" where
  "directive_part off workspace req cur =
     (if has_workspace off workspace \<and> \<not> has_infix_ci cur ''reply exactly'' then
        [''workspace_root: '', workspace, newline,
         ''DIRECTIVE: All file operations, list, find, read, edit must be performed under the above workspace_root. ''
         @ ''Ignore paths from history or other projects.'' @ newline]
        @ (if list_ex (has_infix_ci (or_empty (hr_normalized_input req))) review_words then
             [''After exploration or tool results, always continue to a full structured final answer for the original ''
              @ ''user request (e.g. review summary with intent, state, scored improvements). ''
              @ ''Do not end after raw listings.'' @ newline]
           else [])
      else [])"

definition input_parts ::
    "(string \<Rightarrow> json option) \<Rightarrow> (json \<Rightarrow> string) \<Rightarrow> bool \<Rightarrow> bridge_config \<Rightarrow> string \<Rightarrow> tool_history
     \<Rightarrow> harness_request \<Rightarrow> (string \<Rightarrow> string list) list" where
  "input_parts parse print off cfg workspace h req =
     [workspace_part off workspace, history_part cfg h, resume_part cfg req]
     @ tool_parts parse print req
     @ [context_part cfg, directive_part off workspace req]"

definition native_input ::
    "(nat \<Rightarrow> bool) \<Rightarrow> (string \<Rightarrow> json option) \<Rightarrow> (json \<Rightarrow> string) \<Rightarrow> bool \<Rightarrow> bridge_config \<Rightarrow> string
     \<Rightarrow> tool_history \<Rightarrow> harness_request \<Rightarrow> string option" where
  "native_input alloc parse print off cfg workspace h req =
     (let txt = or_empty (hr_normalized_input req); cap = length txt + 4096
      in if \<not> alloc cap then None
         else map_option fst (dyn_parts alloc (input_parts parse print off cfg workspace h req) (txt, cap)))"

section \<open>Properties\<close>

text \<open>The reference: parts written one after the other.\<close>

definition write_part :: "string \<Rightarrow> (string \<Rightarrow> string list) \<Rightarrow> string" where
  "write_part cur p = cur @ concat (p cur)"

lemma dyn_append_granted: "\<exists>cap. dyn_append (\<lambda>_. True) t acc = Some (fst acc @ t, cap)"
  by (cases acc) (simp add: dyn_append_def Let_def)

lemma dyn_all_granted: "map_option fst (dyn_all (\<lambda>_. True) ts acc) = Some (fst acc @ concat ts)"
proof (induction ts arbitrary: acc)
  case (Cons t ts)
  obtain cap where "dyn_append (\<lambda>_. True) t acc = Some (fst acc @ t, cap)" using dyn_append_granted by blast
  then show ?case using Cons.IH [of "(fst acc @ t, cap)"] by simp
qed simp

lemma dyn_parts_granted: "map_option fst (dyn_parts (\<lambda>_. True) ps acc) = Some (foldl write_part (fst acc) ps)"
proof (induction ps arbitrary: acc)
  case (Cons p ps)
  obtain acc' where "dyn_all (\<lambda>_. True) (p (fst acc)) acc = Some acc'" "fst acc' = write_part (fst acc) p"
    using dyn_all_granted [of "p (fst acc)" acc] by (auto simp: write_part_def)
  then show ?case using Cons.IH [of acc'] by simp
qed simp

lemma foldl_write_prefix: "prefix cur (foldl write_part cur ps)"
proof (induction ps arbitrary: cur)
  case (Cons p ps)
  show ?case using Cons.IH [of "write_part cur p"] prefix_order.trans [of cur "write_part cur p"]
    by (auto simp: write_part_def)
qed simp


end
