(* ===== verification/Responses_Api.thy ===== *)
theory Responses_Api
  imports Bridge_Config Frame_Builders Tool_Runner
begin

text \<open>
  The response object and its JSON text (\<^verbatim>\<open>src/responses_api.c\<close>), the serialisers on top of it and
  the check of outgoing responses (\<^verbatim>\<open>src/codex_response_formatter.c\<close>).

  The text is built with the cursor of \<^verbatim>\<open>native_frame.c\<close>; the position is kept beside the buffer,
  and \<open>None\<close> is a write outside of it. \<open>Fmt\<close> is \<open>off += snprintf (buf + off, max_len - off, ...)\<close>,
  \<open>Put\<close> is \<open>json_escape_into\<close> after the escaping, \<open>Copy\<close> the \<open>memcpy\<close> of the usage object.
  Counts are integers; the source's \<open>int\<close> sums are not checked for overflow.
\<close>

section \<open>The response object\<close>

definition MAX_TEXT_OUTPUT :: nat where "MAX_TEXT_OUTPUT = 65536"
definition MAX_OUTPUT_ITEMS :: nat where "MAX_OUTPUT_ITEMS = 64"
definition MAX_ERROR_MSG :: nat where "MAX_ERROR_MSG = 512"

datatype response_status = RESP_STATUS_COMPLETED | RESP_STATUS_FAILED | RESP_STATUS_IN_PROGRESS | RESP_STATUS_INCOMPLETE

record tool_call_info =
  ti_call_id :: string
  ti_type :: string
  ti_name :: string
  ti_arguments :: string

datatype response_item = OUTPUT_TYPE_TEXT string | OUTPUT_TYPE_TOOL_CALL tool_call_info | OUTPUT_TYPE_REFUSAL | OUTPUT_TYPE_ERROR

record response_object =
  ro_id :: string
  ro_object :: string
  ro_created_at :: int
  ro_status :: response_status
  ro_model :: string
  ro_output :: "response_item list"
  ro_error_msg :: string
  ro_prompt_tokens :: int
  ro_completion_tokens :: int
  ro_total_tokens :: int
  ro_input_text_tokens :: int
  ro_input_cached_tokens :: int
  ro_input_audio_tokens :: int
  ro_output_text_tokens :: int
  ro_output_reasoning_tokens :: int
  ro_finish_reason :: string
  ro_incomplete_details :: string

definition resp_init :: "int \<Rightarrow> string option \<Rightarrow> response_object" where
  "resp_init now model =
     \<lparr>ro_id = [], ro_object = ''response'', ro_created_at = now, ro_status = RESP_STATUS_COMPLETED,
      ro_model = cstr_copy 128 (case model of None \<Rightarrow> ''star-bridge-ds4'' | Some m \<Rightarrow> m), ro_output = [],
      ro_error_msg = [], ro_prompt_tokens = 0, ro_completion_tokens = 0, ro_total_tokens = 0,
      ro_input_text_tokens = 0, ro_input_cached_tokens = 0, ro_input_audio_tokens = 0,
      ro_output_text_tokens = 0, ro_output_reasoning_tokens = 0, ro_finish_reason = ''stop'',
      ro_incomplete_details = []\<rparr>"

definition resp_set_id :: "string \<Rightarrow> response_object \<Rightarrow> response_object" where
  "resp_set_id i r = r\<lparr>ro_id := cstr_copy 64 i\<rparr>"

definition resp_add_item :: "response_item \<Rightarrow> response_object \<Rightarrow> response_object" where
  "resp_add_item it r =
     (if length (ro_output r) \<ge> MAX_OUTPUT_ITEMS then r else r\<lparr>ro_output := ro_output r @ [it]\<rparr>)"

definition resp_add_text :: "string \<Rightarrow> response_object \<Rightarrow> response_object" where
  "resp_add_text t = resp_add_item (OUTPUT_TYPE_TEXT (cstr_copy MAX_TEXT_OUTPUT t))"

definition resp_add_tool_call :: "string \<Rightarrow> string \<Rightarrow> string \<Rightarrow> response_object \<Rightarrow> response_object" where
  "resp_add_tool_call call_id name arguments =
     resp_add_item (OUTPUT_TYPE_TOOL_CALL
       \<lparr>ti_call_id = cstr_copy 64 call_id, ti_type = ''function'', ti_name = cstr_copy 128 name,
        ti_arguments = cstr_copy 4096 arguments\<rparr>)"

definition resp_set_error :: "string \<Rightarrow> response_object \<Rightarrow> response_object" where
  "resp_set_error msg r = r\<lparr>ro_error_msg := cstr_copy MAX_ERROR_MSG msg, ro_status := RESP_STATUS_FAILED\<rparr>"

definition resp_set_finish_reason :: "string \<Rightarrow> response_object \<Rightarrow> response_object" where
  "resp_set_finish_reason reason r = r\<lparr>ro_finish_reason := cstr_copy 64 reason\<rparr>"

section \<open>Usage\<close>

definition number_member :: "json \<Rightarrow> string \<Rightarrow> int option" where
  "number_member obj key = (case cJSON_GetObjectItem obj key of Some (JNum q) \<Rightarrow> Some (c_trunc q) | _ \<Rightarrow> None)"

definition resp_set_usage ::
    "int \<Rightarrow> int \<Rightarrow> int \<Rightarrow> int \<Rightarrow> int \<Rightarrow> int \<Rightarrow> int \<Rightarrow> response_object \<Rightarrow> response_object" where
  "resp_set_usage input_tokens output_tokens input_text input_cached input_audio output_text output_reasoning r =
     r\<lparr>ro_prompt_tokens := input_tokens, ro_completion_tokens := output_tokens,
       ro_total_tokens := input_tokens + output_tokens, ro_input_text_tokens := input_text,
       ro_input_cached_tokens := input_cached, ro_input_audio_tokens := input_audio,
       ro_output_text_tokens := output_text, ro_output_reasoning_tokens := output_reasoning\<rparr>"

text \<open>A missing usage text and an empty one have the same effect.\<close>

definition resp_normalize_usage ::
    "(string \<Rightarrow> json option) \<Rightarrow> int \<Rightarrow> int \<Rightarrow> string \<Rightarrow> response_object \<Rightarrow> response_object" where
  "resp_normalize_usage parse prompt completion usage_json r =
     (let r0 = resp_set_usage prompt completion prompt 0 0 completion 0 r
      in if usage_json = [] then r0
         else case parse usage_json of
                None \<Rightarrow> r0
              | Some u \<Rightarrow>
                  let or_zero = (\<lambda>n. case n of None \<Rightarrow> 0 | Some k \<Rightarrow> k);
                      r1 = r0\<lparr>ro_input_cached_tokens :=
                             or_zero (number_member u ''cache_hit'') + or_zero (number_member u ''cache_create'')\<rparr>
                  in case number_member u ''reasoning_tokens'' of
                       None \<Rightarrow> r1
                     | Some k \<Rightarrow>
                         let reasoning = min k completion
                         in r1\<lparr>ro_output_reasoning_tokens := reasoning, ro_output_text_tokens := completion - reasoning\<rparr>)"

text \<open>With no counts at all nothing is written. The buffer of its caller is large enough for any counts.\<close>

definition resp_usage_text :: "response_object \<Rightarrow> string" where
  \<open>resp_usage_text r =
     (let pt0 = ro_prompt_tokens r; ct0 = ro_completion_tokens r; tt0 = ro_total_tokens r;
          pt = (if pt0 = 0 then (if tt0 > ct0 then tt0 - ct0 else 0) else pt0);
          ct = (if ct0 = 0 then (if tt0 > pt then tt0 - pt else 0) else ct0);
          tt = (if tt0 = 0 then pt + ct else tt0);
          ic = ro_input_cached_tokens r; ia = ro_input_audio_tokens r; ort = ro_output_reasoning_tokens r
      in if tt0 = 0 \<and> pt0 = 0 \<and> ct0 = 0 then []
         else ''"usage":{"input_tokens":'' @ show_int pt @ '',"output_tokens":'' @ show_int ct
           @ '',"total_tokens":'' @ show_int tt
           @ '',"input_tokens_details":{"text_tokens":'' @ show_int (ro_input_text_tokens r)
           @ (if ic > 0 then '',"cached_tokens":'' @ show_int ic else [])
           @ (if ia > 0 then '',"audio_tokens":'' @ show_int ia else []) @ ''}''
           @ '',"output_tokens_details":{"text_tokens":'' @ show_int (ro_output_text_tokens r)
           @ (if ort > 0 then '',"reasoning_tokens":'' @ show_int ort else []) @ ''}}'')\<close>

definition resp_usage_to_json :: "response_object \<Rightarrow> nat \<Rightarrow> cursor" where
  "resp_usage_to_json r max_len =
     (if max_len = 0 then Some ([], 0) else cursor_step max_len (Some ([], 0)) (Lit (resp_usage_text r)))"

section \<open>The text of a response\<close>

datatype resp_piece = Fmt string | Put string | Copy string

fun resp_step :: "nat \<Rightarrow> cursor \<Rightarrow> resp_piece \<Rightarrow> cursor" where
  "resp_step n None p = None"
| "resp_step n (Some (buf, off)) (Fmt s) = cursor_step n (Some (buf, off)) (Lit s)"
| "resp_step n (Some (buf, off)) (Put s) =
     (let e = json_escape s MAX_TEXT_OUTPUT
      in if off \<ge> n then None else Some (take off buf @ take (n - off - 1) e, off + min (length e) (n - off - 1)))"
| "resp_step n (Some (buf, off)) (Copy s) =
     (if off > n then None else Some (take off buf @ take (n - off) s, off + min (length s) (n - off)))"

definition run_resp :: "nat \<Rightarrow> resp_piece list \<Rightarrow> cursor" where
  "run_resp n ps = foldl (resp_step n) (Some ([], 0)) ps"

definition nl :: string where "nl = [CHR 0x0A]"

fun status_text :: "response_status \<Rightarrow> string" where
  "status_text RESP_STATUS_COMPLETED = ''completed''"
| "status_text RESP_STATUS_FAILED = ''failed''"
| "status_text RESP_STATUS_IN_PROGRESS = ''in_progress''"
| "status_text RESP_STATUS_INCOMPLETE = ''incomplete''"

fun item_json :: "response_item \<Rightarrow> resp_piece list" where
  \<open>item_json (OUTPUT_TYPE_TEXT t) = [Fmt ''"text","text":"'', Put t, Fmt ''","annotations":[]'']\<close>
| \<open>item_json (OUTPUT_TYPE_TOOL_CALL i) =
     [Fmt (''"tool_call","tool_call":{"id":"'' @ ti_call_id i @ ''","type":"'' @ ti_type i
        @ ''","function":{"name":"'' @ ti_name i @ ''","arguments":"''),
      Put (ti_arguments i), Fmt ''"}}}'']\<close>
| \<open>item_json _ = [Fmt ''"error","error":"unknown_output_type"'']\<close>

fun items_json :: "bool \<Rightarrow> response_item list \<Rightarrow> resp_piece list" where
  "items_json first [] = []"
| \<open>items_json first (it # its) =
     (if first then [] else [Fmt ('','' @ nl)]) @ [Fmt ''{"type":''] @ item_json it @ [Fmt ''}''] @ items_json False its\<close>

definition resp_pieces :: "response_object \<Rightarrow> resp_piece list" where
  \<open>resp_pieces r =
     [Fmt (''{'' @ nl),
      Fmt (''"id":"'' @ (if ro_id r = [] then ''resp-unknown'' else ro_id r) @ ''",'' @ nl),
      Fmt (''"object":"'' @ ro_object r @ ''",'' @ nl),
      Fmt (''"created_at":'' @ show_int (ro_created_at r) @ '','' @ nl),
      Fmt (''"status":"'' @ status_text (ro_status r) @ ''",'' @ nl),
      Fmt (''"model":"'' @ ro_model r @ ''",'' @ nl),
      Fmt (''"output":['' @ nl)]
     @ items_json True (ro_output r)
     @ [Fmt ('']'' @ '','' @ nl)]
     @ (if ro_error_msg r \<noteq> [] then [Fmt ''"error":{"message":"'', Put (ro_error_msg r), Fmt (''"},'' @ nl)]
        else [Fmt (''"error":null,'' @ nl)])
     @ [Fmt (''"finish_reason":"'' @ ro_finish_reason r @ ''"'')]
     @ (if ro_incomplete_details r = [] then []
        else [Fmt ('','' @ nl @ ''"incomplete_details":"'' @ json_escape (ro_incomplete_details r) 256 @ ''"'')])
     @ (if ro_total_tokens r > 0 \<or> ro_prompt_tokens r > 0 \<or> ro_completion_tokens r > 0
        then [Fmt ('','' @ nl), Copy (cstr_copy 2048 (resp_usage_text r))] else [])
     @ [Fmt (nl @ ''}'' @ nl)]\<close>

definition resp_to_json :: "response_object \<Rightarrow> nat \<Rightarrow> cursor" where
  "resp_to_json r max_len = (if max_len = 0 then Some ([], 0) else run_resp max_len (resp_pieces r))"

definition resp_item_to_json :: "response_item \<Rightarrow> nat \<Rightarrow> cursor" where
  \<open>resp_item_to_json it max_len =
     (if max_len = 0 then Some ([], 0)
      else run_resp max_len
        ([Fmt ''{"type":''] @
         (case it of
            OUTPUT_TYPE_TEXT t \<Rightarrow> [Fmt ''"text","text":"'', Put t, Fmt ''","annotations":[]}'']
          | OUTPUT_TYPE_TOOL_CALL i \<Rightarrow>
              [Fmt (''"tool_call","tool_call":{"id":"'' @ ti_call_id i
                 @ ''","type":"function","function":{"name":"'' @ ti_name i @ ''","arguments":"''),
               Put (ti_arguments i), Fmt ''"}}}'']
          | _ \<Rightarrow> [Fmt ''"error","error":"unknown"}''])))\<close>

definition resp_stream_delta :: "response_object \<Rightarrow> string \<Rightarrow> nat \<Rightarrow> cursor" where
  \<open>resp_stream_delta r delta max_len =
     (if max_len = 0 then Some ([], 0)
      else run_resp max_len
        [Fmt (''{"id":"'' @ (if ro_id r = [] then ''resp-stream'' else ro_id r)
           @ ''","object":"response","type":"response.output_item.delta","status":"in_progress","model":"''
           @ (if ro_model r = [] then ''star-bridge-ds4'' else ro_model r) @ ''","delta":"''),
         Put delta, Fmt (''"}'' @ nl)])\<close>

definition resp_error_to_json :: "string \<Rightarrow> nat \<Rightarrow> string" where
  \<open>resp_error_to_json msg max_len =
     cstr_copy max_len (''{"id":"resp-error","object":"response","status":"failed","error":{"message":"''
       @ json_escape msg MAX_ERROR_MSG @ ''"}}'' @ nl)\<close>

section \<open>Serialisers\<close>

definition codex_serialize_text_response :: "int \<Rightarrow> string \<Rightarrow> string option \<Rightarrow> string \<Rightarrow> nat \<Rightarrow> cursor" where
  "codex_serialize_text_response now i model t max_len =
     resp_to_json (resp_add_text t (resp_set_id (if i = [] then ''resp-block'' else i) (resp_init now model))) max_len"

definition codex_serialize_text_response_with_details ::
    "int \<Rightarrow> string \<Rightarrow> string option \<Rightarrow> string \<Rightarrow> string \<Rightarrow> nat \<Rightarrow> cursor" where
  "codex_serialize_text_response_with_details now i model t details max_len =
     resp_to_json ((resp_add_text t (resp_set_id (if i = [] then ''resp-block'' else i) (resp_init now model)))
       \<lparr>ro_incomplete_details := cstr_copy 128 details\<rparr>) max_len"

definition codex_serialize_tool_response ::
    "int \<Rightarrow> string \<Rightarrow> string option \<Rightarrow> string \<Rightarrow> string option \<Rightarrow> string \<Rightarrow> nat \<Rightarrow> cursor" where
  "codex_serialize_tool_response now i model name args display max_len =
     resp_to_json
       (resp_add_tool_call ''call_tool'' name (case args of None \<Rightarrow> ''{}'' | Some a \<Rightarrow> a)
         (resp_add_text display (resp_set_id (if i = [] then ''resp-tool'' else i) (resp_init now model)))) max_len"

definition codex_serialize_error :: "string option \<Rightarrow> nat \<Rightarrow> string" where
  "codex_serialize_error message max_len =
     resp_error_to_json (case message of None \<Rightarrow> ''Unknown error'' | Some m \<Rightarrow> m) max_len"

section \<open>The summary of a tool run\<close>

definition run_state :: "tool_run_result \<Rightarrow> string" where
  "run_state run =
     (if tr_denied run then ''denied'' else if tr_timed_out run then ''timeout''
      else if tr_exit_code run \<noteq> 0 then ''error'' else if tr_ok run then ''success'' else ''unknown'')"

definition run_score :: "tool_run_result \<Rightarrow> int" where
  "run_score run =
     (if tr_ok run then
        (if tr_result_json run \<noteq> [] then (if length (tr_result_json run) > 20 then 90 else 70) else 50)
      else if tr_timed_out run then 20 else if tr_denied run then 10 else 5)"

definition suggestion :: "int \<Rightarrow> string" where
  "suggestion score =
     (if score \<ge> 90 then ''Tool executed successfully with meaningful result.''
      else if score \<ge> 70 then ''Tool succeeded but result may be minimal; consider refining arguments.''
      else if score \<ge> 50 then ''Tool returned no output; verify tool configuration or input.''
      else if score \<ge> 20 then ''Tool timed out; reduce execution scope or increase timeout.''
      else if score \<ge> 10 then ''Tool call was denied by policy; review allowed tools list.''
      else ''Tool execution failed; check error details.'')"

text \<open>\<open>print_into\<close> is cJSON's printer into a buffer of that size; without room the buffer is emptied.\<close>

definition summary_tree :: "string \<Rightarrow> string \<Rightarrow> tool_run_result \<Rightarrow> json" where
  "summary_tree name args run =
     JObj ([(''intent'', JStr name), (''tool_args'', JStr (if args = [] then ''{}'' else args)),
            (''state'', JStr (run_state run)), (''exit_code'', JNum (of_int (tr_exit_code run))),
            (''quality_score'', JNum (of_int (run_score run)))]
       @ (if tr_timed_out run then [(''timed_out'', JBool True)] else [])
       @ (if tr_denied run then [(''denied'', JBool True)] else [])
       @ (if tr_truncated run then [(''truncated'', JBool True)] else [])
       @ [(''suggestion'', JStr (suggestion (run_score run)))])"

definition codex_synthesize_tool_summary ::
    "(json \<Rightarrow> nat \<Rightarrow> string option) \<Rightarrow> string \<Rightarrow> string \<Rightarrow> tool_run_result option \<Rightarrow> nat \<Rightarrow> string" where
  "codex_synthesize_tool_summary print_into name args run max_len =
     (case run of
        None \<Rightarrow> []
      | Some r \<Rightarrow>
          if max_len = 0 \<or> name = [] then []
          else case print_into (summary_tree name args r) max_len of None \<Rightarrow> [] | Some s \<Rightarrow> s)"

section \<open>The check of an outgoing response\<close>

definition required_fields :: "string list" where
  "required_fields = [''id'', ''object'', ''created_at'', ''status'', ''model'', ''output'']"

definition codex_validate_response_json :: "(string \<Rightarrow> json option) \<Rightarrow> string \<Rightarrow> nat \<Rightarrow> string option" where
  "codex_validate_response_json parse json error_max =
     map_option (cstr_copy error_max)
      (if json = [] then Some ''empty response body''
       else case parse json of
         Some (JObj kvs) \<Rightarrow>
           (case List.find (\<lambda>f. cJSON_GetObjectItem (JObj kvs) f = None) required_fields of
              Some f \<Rightarrow> Some (''missing required field '' @ quoted f)
            | None \<Rightarrow>
                if \<not> cJSON_IsArray (the (cJSON_GetObjectItem (JObj kvs) ''output''))
                then Some (''field '' @ quoted ''output'' @ '' must be an array'') else None)
       | _ \<Rightarrow> Some ''response must be a JSON object'')"

section \<open>When everything fits\<close>

fun resp_piece_text :: "resp_piece \<Rightarrow> string" where
  "resp_piece_text (Fmt s) = s"
| "resp_piece_text (Put s) = json_escape s MAX_TEXT_OUTPUT"
| "resp_piece_text (Copy s) = s"

definition resp_text :: "resp_piece list \<Rightarrow> string" where
  "resp_text ps = concat (map resp_piece_text ps)"

lemma resp_text_simps [simp]:
  "resp_text [] = []" "resp_text (p # ps) = resp_piece_text p @ resp_text ps"
  "resp_text (ps @ qs) = resp_text ps @ resp_text qs"
  by (simp_all add: resp_text_def)

lemma resp_step_fits:
  "length buf + length (resp_piece_text p) < n
    \<Longrightarrow> resp_step n (Some (buf, length buf)) p = Some (buf @ resp_piece_text p, length (buf @ resp_piece_text p))"
  by (cases p) (simp_all add: Let_def)

lemma run_resp_fits_from:
  "length buf + length (resp_text ps) < n
    \<Longrightarrow> foldl (resp_step n) (Some (buf, length buf)) ps = Some (buf @ resp_text ps, length buf + length (resp_text ps))"
proof (induction ps arbitrary: buf)
  case (Cons p ps)
  then show ?case
    using resp_step_fits [of buf p n] Cons.IH [of "buf @ resp_piece_text p"] by simp
qed simp

lemma run_resp_fits: "length (resp_text ps) < n \<Longrightarrow> run_resp n ps = Some (resp_text ps, length (resp_text ps))"
  using run_resp_fits_from [of "[]" ps n] by (simp add: run_resp_def)

section \<open>The nesting of a JSON text\<close>

text \<open>A scanner: inside a string, just after a backslash there, and the braces open so far.\<close>

datatype json_scan = Outside int | In_String int | Escaped int

fun scan_char :: "json_scan \<Rightarrow> char \<Rightarrow> json_scan" where
  "scan_char (Outside d) c =
     (if c = dquote then In_String d else if c = CHR ''{'' then Outside (d + 1)
      else if c = CHR ''}'' then Outside (d - 1) else Outside d)"
| "scan_char (In_String d) c =
     (if c = bslash then Escaped d else if c = dquote then Outside d else In_String d)"
| "scan_char (Escaped d) c = In_String d"

definition json_scan :: "json_scan \<Rightarrow> string \<Rightarrow> json_scan" where
  "json_scan st s = foldl scan_char st s"

lemma json_scan_append [simp]: "json_scan st (s @ t) = json_scan (json_scan st s) t"
  by (simp add: json_scan_def)

lemma json_scan_simps [simp]: "json_scan st [] = st" "json_scan st (c # s) = json_scan (scan_char st c) s"
  by (simp_all add: json_scan_def)

definition inert :: "string \<Rightarrow> bool" where
  "inert s = (\<forall>c \<in> set s. c \<noteq> dquote \<and> c \<noteq> bslash)"

lemma scan_inert: "inert s \<Longrightarrow> json_scan (In_String d) s = In_String d"
  by (induction s) (auto simp: inert_def)

lemma hex4_inert: "inert (hex4 n)"
proof -
  have "cval dquote = 34" "cval bslash = 92" by (simp_all add: cval_def)
  then show ?thesis using hex4_printable [of _ n] by (force simp: inert_def)
qed

lemma scan_esc_char: "json_scan (In_String d) (esc_char c) = In_String d"
proof (cases c rule: esc_char_cases)
  case (unicode h1 h2 h3 h4)
  then show ?thesis using scan_inert [OF hex4_inert, of d "cval c"] by simp
qed simp_all

lemma scan_esc_all: "json_scan (In_String d) (esc_all s) = In_String d"
  by (induction s) (simp_all add: esc_all_def scan_esc_char)

lemma scan_escape: "json_scan (In_String d) (json_escape s n) = In_String d"
  using escape_loop_prefix [of s n 0] scan_esc_all by (auto simp: json_escape_def)

section \<open>Properties\<close>

lemma scan_show_int: "json_scan (Outside d) (show_int i) = Outside d"
proof -
  have scan: "json_scan (Outside d) s = Outside d"
    if "\<forall>c \<in> set s. c \<noteq> dquote \<and> c \<noteq> CHR ''{'' \<and> c \<noteq> CHR ''}''" for s
    using that by (induction s) auto
  have "\<forall>c \<in> set (show_nat n). c \<noteq> dquote \<and> c \<noteq> CHR ''{'' \<and> c \<noteq> CHR ''}''" for n
    using show_base_digit [of _ n] by (force simp: show_nat_def is_digit_def cval_def)
  then show ?thesis using scan by (simp add: show_int_def)
qed

definition call_count :: "response_item list \<Rightarrow> int" where
  "call_count its = int (length (filter (\<lambda>it. \<exists>i. it = OUTPUT_TYPE_TOOL_CALL i) its))"

fun item_inert :: "response_item \<Rightarrow> bool" where
  "item_inert (OUTPUT_TYPE_TOOL_CALL i) = (inert (ti_call_id i) \<and> inert (ti_type i) \<and> inert (ti_name i))"
| "item_inert _ = True"

lemma scan_item:
  "item_inert it \<Longrightarrow> json_scan (Outside d) (resp_text (item_json it))
    = Outside (d - (if \<exists>i. it = OUTPUT_TYPE_TOOL_CALL i then 1 else 0))"
  by (cases it) (simp_all add: scan_escape scan_inert)

lemma scan_items:
  "\<forall>it \<in> set its. item_inert it
    \<Longrightarrow> json_scan (Outside d) (resp_text (items_json first its)) = Outside (d - call_count its)"
proof (induction its arbitrary: d first)
  case (Cons it its)
  have "json_scan (Outside d) (resp_text (items_json first (it # its))) =
    json_scan (Outside (d - (if \<exists>i. it = OUTPUT_TYPE_TOOL_CALL i then 1 else 0))) (resp_text (items_json False its))"
    using Cons.prems scan_item [of it "d + 1"] by (simp add: nl_def)
  then show ?case using Cons by (simp add: call_count_def)
qed (simp add: call_count_def)

definition response_inert :: "response_object \<Rightarrow> bool" where
  "response_inert r =
     (inert (ro_id r) \<and> inert (ro_object r) \<and> inert (ro_model r) \<and> inert (ro_finish_reason r)
      \<and> (\<forall>it \<in> set (ro_output r). item_inert it)
      \<and> ro_prompt_tokens r = 0 \<and> ro_completion_tokens r = 0 \<and> ro_total_tokens r = 0)"

lemma status_inert: "inert (status_text st)"
  by (cases st) (simp_all add: inert_def)

lemma scan_response:
  assumes "response_inert r"
  shows "json_scan (Outside 0) (resp_text (resp_pieces r)) = Outside (- call_count (ro_output r))"
  using assms scan_items [of "ro_output r" 1 True] status_inert [of "ro_status r"]
  by (simp add: response_inert_def resp_pieces_def nl_def scan_inert scan_escape scan_show_int)

text \<open>The braces of a response close exactly, except that every tool call closes one too
  many; ids, names and the model are taken without quotes and backslashes, texts are arbitrary.\<close>

theorem response_braces:
  assumes "response_inert r" and "length (resp_text (resp_pieces r)) < max_len"
  shows "\<exists>json. resp_to_json r max_len = Some (json, length json)
    \<and> json_scan (Outside 0) json = Outside (- call_count (ro_output r))"
  using scan_response [OF assms(1)] run_resp_fits [OF assms(2)] assms(2) by (simp add: resp_to_json_def)

definition sample_call :: response_object where
  "sample_call = resp_add_tool_call ''call_tool'' ''shell_command'' ''{}'' (resp_set_id ''r'' (resp_init 7 (Some ''m'')))"

theorem response_braces_witness:
  "\<exists>json. resp_to_json sample_call 4096 = Some (json, length json) \<and> json_scan (Outside 0) json = Outside (-1)"
proof -
  have len: "length (json_escape s MAX_TEXT_OUTPUT) \<le> 6 * length s" for s
    using escape_loop_prefix [of s MAX_TEXT_OUTPUT 0] length_esc_all_le by (fastforce simp: json_escape_def intro: order_trans)
  have "response_inert sample_call" "call_count (ro_output sample_call) = 1"
    by (simp_all add: response_inert_def sample_call_def resp_add_tool_call_def resp_add_item_def resp_set_id_def
        resp_init_def MAX_OUTPUT_ITEMS_def cstr_copy_def inert_def call_count_def)
  moreover have "length (resp_text (resp_pieces sample_call)) < 4096"
    using len [of "''{}''"] length_show_int [of 7]
    by (simp add: resp_pieces_def sample_call_def resp_add_tool_call_def resp_add_item_def resp_set_id_def
        resp_init_def MAX_OUTPUT_ITEMS_def cstr_copy_def nl_def)
  ultimately show ?thesis using response_braces [of sample_call 4096] by simp
qed

lemma length_json_escape: "length (json_escape s n) \<le> n"
proof (cases "n = 0")
  case True
  then show ?thesis by (cases s) (simp_all add: json_escape_def)
qed (use json_escape_bound [of n s] in simp)



end
