(* ===== verification/Debug_Trace.thy ===== *)
theory Debug_Trace
  imports Bridge_Config Frame_Builders
begin

text \<open>
  Tracing (\<^verbatim>\<open>src/debug_trace.c\<close>) and the JSON form of its lines (\<^verbatim>\<open>src/json_log.c\<close>).

  The trace file is the text appended so far. The time stamp is a parameter, empty when
  \<open>localtime_r\<close> fails, and so is the formatted message. Redaction works in place: \<open>None\<close>
  is a text that outgrows the buffer it stands in.
\<close>

section \<open>Redaction\<close>

definition line_rest :: "string \<Rightarrow> string" where
  "line_rest s = dropWhile (\<lambda>c. c \<noteq> CHR 0x0D \<and> c \<noteq> CHR 0x0A) s"

text \<open>
  \<open>done\<close> is the part before the search position. No needle starts with a line break, so the end
  of the line lies behind the first character of a match.
\<close>

function redact_from :: "nat \<Rightarrow> string \<Rightarrow> string \<Rightarrow> string \<Rightarrow> string option" where
  "redact_from size_max needle before s =
     (case strstr s needle of
        Some (c # r) \<Rightarrow>
          let before1 = before @ take (length s - length (c # r)) s @ ''[redacted]'';
              tail = line_rest r
          in if length before1 + length tail \<ge> size_max then None else redact_from size_max needle before1 tail
      | _ \<Rightarrow> Some (before @ s))"
  by pat_completeness auto
termination
proof (relation "measure (\<lambda>(size_max, needle, before, s). length s)", goal_cases)
  case (2 size_max needle before s c_r c r before1 tail)
  then obtain pre post where "s = pre @ c # r" using strstr_Some_split [of s needle "c # r"] by blast
  moreover have "length tail \<le> length r" unfolding 2 line_rest_def by (rule length_dropWhile_le)
  ultimately show ?case by simp
qed simp

declare redact_from.simps [simp del]

definition redact_line_value :: "nat \<Rightarrow> string \<Rightarrow> string \<Rightarrow> string option" where
  "redact_line_value size_max needle s = redact_from size_max needle [] s"

definition needles :: "string list" where
  "needles = [''Authorization:'', ''authorization:'', ''Cookie:'', ''cookie:'', ''Set-Cookie:'', ''set-cookie:'',
     ''OPENAI_API_KEY'', ''GOOGLE_SEARCH_API_KEY'', ''GOOGLE_SEARCH_CX'', ''api_key'', ''access_token'', ''refresh_token'']"

definition debug_trace_redact_text :: "nat \<Rightarrow> string \<Rightarrow> string option" where
  "debug_trace_redact_text size_max s =
     foldl (\<lambda>acc n. Option.bind acc (redact_line_value size_max n)) (Some s) needles"

definition compact_char :: "char \<Rightarrow> char" where
  "compact_char c =
     (if c = CHR 0x0D \<or> c = CHR 0x0A \<or> c = CHR 0x09 then CHR '' ''
      else if cval c < 32 \<or> cval c > 126 then CHR ''.'' else c)"

definition debug_trace_compact_text :: "string \<Rightarrow> nat \<Rightarrow> string option" where
  "debug_trace_compact_text src max_len =
     (if max_len = 0 then Some [] else debug_trace_redact_text max_len (map compact_char (take (max_len - 1) src)))"

section \<open>JSON lines\<close>

datatype log_level = LOG_LEVEL_INFO | LOG_LEVEL_WARN | LOG_LEVEL_ERROR | LOG_LEVEL_DEBUG

fun level_text :: "log_level \<Rightarrow> string" where
  "level_text LOG_LEVEL_INFO = ''info''"
| "level_text LOG_LEVEL_WARN = ''warn''"
| "level_text LOG_LEVEL_ERROR = ''error''"
| "level_text LOG_LEVEL_DEBUG = ''debug''"

definition log_char :: "nat \<Rightarrow> nat \<Rightarrow> char \<Rightarrow> string" where
  "log_char max_len off c =
     (if c = dquote then [bslash, dquote] else if c = bslash then [bslash, bslash]
      else if c = CHR 0x0A then [bslash, CHR ''n''] else if c = CHR 0x0D then [bslash, CHR ''r'']
      else if c = CHR 0x09 then [bslash, CHR ''t'']
      else if cval c < 32 \<or> cval c > 126 then
        (if off + 7 < max_len then [bslash, CHR ''u''] @ hex4 (cval c) else ''.'')
      else [c])"

fun log_chars :: "nat \<Rightarrow> nat \<Rightarrow> string \<Rightarrow> string" where
  "log_chars max_len off [] = []"
| "log_chars max_len off (c # s) =
     (if off + 6 < max_len then log_char max_len off c @ log_chars max_len (off + length (log_char max_len off c)) s
      else [])"

definition json_escape_to_buf :: "nat \<Rightarrow> string \<Rightarrow> string" where
  "json_escape_to_buf max_len s =
     (if max_len = 0 then [] else if max_len < 3 then [dquote]
      else [dquote] @ log_chars max_len 1 s @ [dquote])"

datatype log_piece = Log_Fmt string | Log_Str string

fun log_step :: "cursor \<Rightarrow> log_piece \<Rightarrow> cursor" where
  "log_step None p = None"
| "log_step (Some (buf, off)) (Log_Fmt s) = cursor_step 8192 (Some (buf, off)) (Lit s)"
| "log_step (Some (buf, off)) (Log_Str s) =
     (let e = json_escape_to_buf (8192 - off) s
      in if off > 8192 then None else Some (take off buf @ e, off + length e))"

definition json_log_line :: "string \<Rightarrow> log_level \<Rightarrow> string \<Rightarrow> string \<Rightarrow> string option" where
  \<open>json_log_line ts level event msg =
     map_option fst
      (foldl log_step (Some ([], 0))
        [Log_Fmt (''{"ts":"'' @ ts @ ''","level":"'' @ level_text level @ ''","event":''), Log_Str event,
         Log_Fmt '',"request_id":null'', Log_Fmt '',"duration_ms":null'', Log_Fmt '',"msg":'',
         Log_Str (cstr_copy 4096 msg), Log_Fmt (''}'' @ [CHR 0x0A])])\<close>

section \<open>The trace file\<close>

record trace_log =
  tl_json_mode :: bool
  tl_file :: string
  tl_stderr :: string

definition debug_trace_set_json_mode :: "bool \<Rightarrow> trace_log \<Rightarrow> trace_log" where
  "debug_trace_set_json_mode b lg = lg\<lparr>tl_json_mode := b\<rparr>"

text \<open>\<open>opens\<close>: the file can be opened. Without a path only stderr is written.\<close>

definition json_log :: "bool \<Rightarrow> string \<Rightarrow> bridge_config \<Rightarrow> log_level \<Rightarrow> string \<Rightarrow> string \<Rightarrow> trace_log \<Rightarrow> trace_log option" where
  "json_log opens ts cfg level event msg lg =
     map_option (\<lambda>line. lg\<lparr>tl_stderr := tl_stderr lg @ line,
         tl_file := tl_file lg @ (if cf_debug_log_path cfg \<noteq> [] \<and> opens then line else [])\<rparr>)
       (json_log_line ts level event msg)"

definition stamp :: "string \<Rightarrow> string" where
  "stamp ts = (if ts = [] then [] else ''ts='' @ ts @ '' '')"

definition debug_trace_append :: "bool \<Rightarrow> string \<Rightarrow> bridge_config \<Rightarrow> string \<Rightarrow> trace_log \<Rightarrow> trace_log option" where
  "debug_trace_append opens ts cfg msg lg =
     (if \<not> cf_debug_log_enabled cfg \<or> cf_debug_log_path cfg = [] then Some lg
      else if tl_json_mode lg then json_log opens ts cfg LOG_LEVEL_DEBUG ''trace'' (cstr_copy 4096 msg) lg
      else if \<not> opens then Some lg
      else Some (lg\<lparr>tl_file := tl_file lg @ stamp ts @ msg @ [CHR 0x0A]\<rparr>))"

definition fixture_char :: "char \<Rightarrow> string" where
  "fixture_char c =
     (if c = CHR 0x0D then [bslash, CHR ''r''] else if c = CHR 0x0A then [bslash, CHR ''n'']
      else if c = dquote then [bslash, dquote]
      else if cval c < 32 \<or> cval c > 126 then
        [bslash, CHR ''x'', digit_char (cval c div 16), digit_char (cval c mod 16)]
      else [c])"

definition fixture_text :: "nat \<Rightarrow> bytes \<Rightarrow> string" where
  "fixture_text n bs = concat (map fixture_char (take n bs))"

text \<open>
  The body is a block of memory with its terminating NUL; the length comes from elsewhere. Reading
  past the block is \<open>None\<close>.
\<close>

definition debug_trace_fixture_capture ::
    "bool \<Rightarrow> string \<Rightarrow> bridge_config \<Rightarrow> nat \<Rightarrow> bytes \<Rightarrow> bytes \<Rightarrow> nat \<Rightarrow> trace_log \<Rightarrow> trace_log option" where
  "debug_trace_fixture_capture opens ts cfg n raw block body_len lg =
     (if \<not> cf_debug_log_enabled cfg \<or> cf_debug_log_path cfg = [] \<or> \<not> opens then Some lg
      else if min body_len 2048 > length block then None
      else Some (lg\<lparr>tl_file := tl_file lg @ stamp ts @ ''fixture=1 request='' @ show_nat n
        @ '' raw_bytes='' @ show_nat (length raw) @ '' body_bytes='' @ show_nat body_len @ '' headers='' @ [dquote]
        @ fixture_text (min 4096 (length raw)) raw @ [dquote] @ '' body='' @ [dquote] @ fixture_text (min 2048 body_len) block
        @ (if body_len > 2048 then ''...'' else []) @ [dquote, CHR 0x0A]\<rparr>))"

definition body_probe_text :: "nat \<Rightarrow> bytes \<Rightarrow> nat \<Rightarrow> string" where
  "body_probe_text n block body_len =
     (let head = ''request='' @ show_nat n @ '' body_len='' @ show_nat body_len @ '' body_first_non_ws=''
      in case dropWhile is_blank (take body_len block) of
           [] \<Rightarrow> head @ ''(none)''
         | c # _ \<Rightarrow> head @ ''0x'' @ [digit_char (cval c div 16), digit_char (cval c mod 16)] @ '' body_first_printable=''
             @ [if 32 \<le> cval c \<and> cval c \<le> 126 then c else CHR ''.''])"

definition debug_trace_body_probe ::
    "bool \<Rightarrow> string \<Rightarrow> bridge_config \<Rightarrow> nat \<Rightarrow> bytes \<Rightarrow> nat \<Rightarrow> trace_log \<Rightarrow> trace_log option" where
  "debug_trace_body_probe opens ts cfg n block body_len lg =
     debug_trace_append opens ts cfg (body_probe_text n block body_len) lg"

section \<open>Nothing secret is left\<close>

definition needle_ok :: "string \<Rightarrow> bool" where
  "needle_ok n = (n \<noteq> [] \<and> (\<forall>c \<in> set n. c \<noteq> CHR ''['' \<and> c \<noteq> CHR '']'' \<and> c \<noteq> CHR 0x0D \<and> c \<noteq> CHR 0x0A))"

lemma needles_ok: "n \<in> set needles \<Longrightarrow> needle_ok n"
  by (auto simp: needles_def needle_ok_def)

text \<open>A text that starts or ends at a character foreign to the needle adds no occurrence.\<close>

lemma contains_cut:
  assumes "contains (u @ c # v) n" and "c \<notin> set n" and "n \<noteq> []"
  shows "contains u n \<or> contains v n"
proof -
  obtain pre post where eq: "u @ c # v = pre @ n @ post"
    using assms(1) by (auto simp: contains_iff sublist_def)
  then consider (left) ys where "u = pre @ n @ ys"
    | (right) ys where "pre = u @ c # ys" "v = ys @ n @ post"
    | (mid) ys zs where "n = ys @ c # zs"
  proof -
    from eq have "(\<exists>us. u = pre @ us \<and> us @ c # v = n @ post) \<or> (\<exists>us. u @ us = pre \<and> c # v = us @ n @ post)"
      by (auto simp: append_eq_append_conv2)
    then show ?thesis
    proof (elim disjE exE conjE)
      fix us assume "u = pre @ us" "us @ c # v = n @ post"
      then have "(\<exists>vs. us = n @ vs) \<or> (\<exists>vs. us @ vs = n \<and> c # v = vs @ post)"
        by (auto simp: append_eq_append_conv2)
      then show ?thesis using left mid assms(2) \<open>u = pre @ us\<close> \<open>us @ c # v = n @ post\<close>
        by (elim disjE exE conjE) (auto simp: Cons_eq_append_conv)
    next
      fix us assume "u @ us = pre" "c # v = us @ n @ post"
      then show ?thesis using right mid assms(2,3) by (cases us) (auto simp: Cons_eq_append_conv)
    qed
  qed
  then show ?thesis using assms(2) by cases (auto simp: contains_iff sublist_def)
qed

lemma contains_part: "contains u n \<Longrightarrow> contains (p @ u @ q) n"
  unfolding contains_iff by (meson sublist_appendI sublist_order.order_trans)

lemma contains_Cons: "contains (c # s) n \<longleftrightarrow> prefix n (c # s) \<or> contains s n"
  unfolding contains_iff by (simp add: sublist_Cons_right)

lemma strstr_first:
  "strstr s n = Some r \<Longrightarrow> n \<noteq> [] \<Longrightarrow> \<exists>pre. s = pre @ r \<and> \<not> contains pre n"
proof (induction s)
  case (Cons c s)
  show ?case
  proof (cases "prefix n (c # s)")
    case True
    then show ?thesis using Cons.prems by (intro exI [of _ "[]"]) (auto simp: contains_iff)
  next
    case False
    then obtain pre where pre: "s = pre @ r" "\<not> contains pre n" using Cons by auto
    have "\<not> prefix n (c # pre)" using False pre(1) prefix_order.trans [of n "c # pre" "c # s"] by auto
    then show ?thesis using pre by (intro exI [of _ "c # pre"]) (auto simp: contains_Cons)
  qed
qed simp

definition closed_before :: "string \<Rightarrow> bool" where
  "closed_before b = (b = [] \<or> last b = CHR '']'')"

definition redactable :: "string \<Rightarrow> bool" where
  "redactable n = (needle_ok n \<and> \<not> contains ''redacted'' n)"

lemma needles_redactable: "n \<in> set needles \<Longrightarrow> redactable n"
  by (auto simp: redactable_def needles_ok) (auto simp: needles_def contains_def)

lemma redacted_join:
  assumes "redactable n" and "\<not> contains p n" and "\<not> contains tail n"
  shows "\<not> contains (p @ ''[redacted]'' @ tail) n"
proof
  assume "contains (p @ ''[redacted]'' @ tail) n"
  then have "contains p n \<or> contains (''redacted'' @ CHR '']'' # tail) n"
    using assms(1) contains_cut [of p "CHR ''[''" "''redacted]'' @ tail" n]
    by (auto simp: redactable_def needle_ok_def)
  then show False
    using assms contains_cut [of "''redacted''" "CHR '']''" tail n] by (auto simp: redactable_def needle_ok_def)
qed

lemma closed_join:
  assumes "redactable n" and "closed_before b" and "\<not> contains b n" and "\<not> contains s n"
  shows "\<not> contains (b @ s) n"
proof (cases "b = []")
  case False
  then have b: "b = butlast b @ [CHR '']'']" using assms(2) by (metis append_butlast_last_id closed_before_def)
  then have "\<not> contains (butlast b) n" using assms(3) contains_part [of "butlast b" n "[]" "[CHR '']'']"] by auto
  then show ?thesis
    using contains_cut [of "butlast b" "CHR '']''" s n] assms(1,4) b
    by (metis append.assoc append_Cons append_Nil needle_ok_def redactable_def)
qed (use assms in simp)

lemma line_rest_suffix: "suffix (line_rest s) s"
  unfolding line_rest_def by (rule suffix_dropWhile)

lemma redact_from_clean:
  "redact_from k n before s = Some u \<Longrightarrow> redactable n \<Longrightarrow> closed_before before \<Longrightarrow> \<not> contains before n
    \<Longrightarrow> \<not> contains u n"
proof (induction k n before s rule: redact_from.induct)
  case (1 k n before s)
  have n: "n \<noteq> []" using "1.prems" by (simp add: redactable_def needle_ok_def)
  show ?case
  proof (cases "strstr s n")
    case None
    then show ?thesis
      using "1.prems" closed_join [of n before s] by (simp add: redact_from.simps [of k n] contains_def)
  next
    case (Some m)
    then obtain pre where pre: "s = pre @ m" "\<not> contains pre n" using strstr_first [OF Some n] by blast
    obtain c r where m: "m = c # r" using Some strstr_Some_split [of s n m] n by (cases m) auto
    let ?before = "before @ pre @ ''[redacted]''"
    have "\<not> contains ?before n"
      using redacted_join [of n "before @ pre" "[]"] closed_join [of n before pre] "1.prems" pre n
      by (simp add: contains_def)
    moreover have "closed_before ?before" by (simp add: closed_before_def)
    ultimately show ?thesis
      using "1.IH" [OF Some [unfolded m] refl refl] "1.prems" Some m pre
      by (auto simp: redact_from.simps [of k n] Let_def split: if_splits)
  qed
qed

lemma redact_from_keeps:
  "redact_from k n before s = Some u \<Longrightarrow> redactable n \<Longrightarrow> redactable m \<Longrightarrow> \<not> contains (before @ s) m
    \<Longrightarrow> \<not> contains u m"
proof (induction k n before s rule: redact_from.induct)
  case (1 k n before s)
  have n: "n \<noteq> []" using "1.prems" by (simp add: redactable_def needle_ok_def)
  show ?case
  proof (cases "strstr s n")
    case None
    then show ?thesis using "1.prems" by (simp add: redact_from.simps [of k n])
  next
    case (Some x)
    then obtain pre where pre: "s = pre @ x" using strstr_first [OF Some n] by blast
    obtain c r where x: "x = c # r" using Some strstr_Some_split [of s n x] n by (cases x) auto
    obtain w where w: "r = w @ line_rest r" using line_rest_suffix [of r] by (auto simp: suffix_def)
    have "\<not> contains (before @ pre) m"
      using "1.prems"(4) contains_part [of "before @ pre" m "[]" x] pre by auto
    moreover have "\<not> contains (line_rest r) m"
      using "1.prems"(4) contains_part [of "line_rest r" m "before @ pre @ c # w" "[]"] pre x w by auto
    ultimately have "\<not> contains ((before @ pre @ ''[redacted]'') @ line_rest r) m"
      using redacted_join [of m "before @ pre" "line_rest r"] "1.prems"(3) by simp
    then show ?thesis
      using "1.IH" [OF Some [unfolded x] refl refl] "1.prems" Some x pre
      by (auto simp: redact_from.simps [of k n] Let_def split: if_splits)
  qed
qed

lemma redact_fold_clean:
  assumes "\<forall>n \<in> set ns. redactable n"
    and "foldl (\<lambda>acc n. Option.bind acc (redact_line_value k n)) (Some s) ns = Some u"
  shows "(\<forall>n \<in> set ns. \<not> contains u n) \<and> (\<forall>m. redactable m \<longrightarrow> \<not> contains s m \<longrightarrow> \<not> contains u m)"
  using assms
proof (induction ns arbitrary: s)
  case (Cons n ns)
  have none: "foldl (\<lambda>acc n. Option.bind acc (redact_line_value k n)) None xs = None" for xs
    by (induction xs) simp_all
  obtain t where t: "redact_line_value k n s = Some t"
    using Cons.prems(2) none by (cases "redact_line_value k n s") auto
  have n: "redactable n" using Cons.prems by simp
  have "\<not> contains [] n" using n by (auto simp: redactable_def needle_ok_def contains_iff)
  then have clean: "\<not> contains t n"
    using redact_from_clean [OF t [unfolded redact_line_value_def] n] by (simp add: closed_before_def)
  have keep: "redactable m \<Longrightarrow> \<not> contains s m \<Longrightarrow> \<not> contains t m" for m
    using redact_from_keeps [OF t [unfolded redact_line_value_def] n, of m] by simp
  show ?case using Cons.IH [of t] Cons.prems t clean keep n by simp
qed simp



section \<open>A redaction that overruns its buffer\<close>

lemma redact_absent: "\<not> contains s n \<Longrightarrow> redact_line_value k n s = Some s"
  by (simp add: redact_line_value_def redact_from.simps contains_def)

lemma strstr_last:
  assumes "n \<noteq> []" and "\<not> contains (p @ butlast n) n"
  shows "strstr (p @ n) n = Some n"
proof -
  have "contains (p @ n) n" by (auto simp: contains_iff)
  then obtain r where r: "strstr (p @ n) n = Some r" by (auto simp: contains_def)
  obtain pre post where split: "p @ n = pre @ r" "r = n @ post" using strstr_Some_split [OF r] by blast
  have "post = []"
  proof (rule ccontr)
    assume "post \<noteq> []"
    then have "butlast (p @ n) = pre @ n @ butlast post" unfolding split by (simp add: butlast_append)
    then have "contains (p @ butlast n) n" using assms(1) by (auto simp: contains_iff butlast_append)
    then show False using assms(2) by simp
  qed
  then show ?thesis using r split by simp
qed

text \<open>A text of 511 printable bytes that ends in a short mark such as \<open>api_key\<close> is
  redacted to more than its buffer of 512 holds: the sample of a request that the server takes for its
  trace is overrun by three bytes on the stack.\<close>

theorem compact_overrun:
  assumes "length p = 504" and "\<forall>c \<in> set p. 32 \<le> cval c \<and> cval c \<le> 126"
    and "\<forall>n \<in> set needles. n \<noteq> ''api_key'' \<longrightarrow> \<not> contains (p @ ''api_key'') n"
    and "\<not> contains (p @ ''api_ke'') ''api_key''"
  shows "debug_trace_compact_text (p @ ''api_key'' @ rest) 512 = None"
proof -
  have "map compact_char p = p" using assms(2)
    by (induction p) (auto simp: compact_char_def cval_def)
  then have kept: "map compact_char (take (512 - 1) (p @ ''api_key'' @ rest)) = p @ ''api_key''"
    using assms(1) by (simp add: compact_char_def cval_def)
  have "strstr (p @ ''api_key'') ''api_key'' = Some ''api_key''"
    using strstr_last [of "''api_key''" p] assms(4) by simp
  then have "redact_line_value 512 ''api_key'' (p @ ''api_key'') = None"
    using assms(1) by (simp add: redact_line_value_def redact_from.simps line_rest_def)
  moreover have "\<forall>n \<in> set needles. n \<noteq> ''api_key'' \<longrightarrow> redact_line_value 512 n (p @ ''api_key'') = Some (p @ ''api_key'')"
    using assms(3) redact_absent by blast
  ultimately have "debug_trace_redact_text 512 (p @ ''api_key'') = None"
    by (simp add: debug_trace_redact_text_def needles_def)
  then show ?thesis unfolding debug_trace_compact_text_def kept by simp
qed

theorem compact_overrun_witness:
  "debug_trace_compact_text (replicate 504 (CHR ''x'') @ ''api_key'') 512 = None"
proof -
  let ?p = "replicate 504 (CHR ''x'')"
  have cut: "\<not> contains (?p @ s) n" if "\<not> contains s n" "n \<noteq> []" "CHR ''x'' \<notin> set n" for s n
  proof -
    have "\<not> contains (replicate k (CHR ''x'') @ s) n" for k
      using that by (induction k) (auto simp: contains_Cons prefix_Cons)
    then show ?thesis .
  qed
  show ?thesis
  proof (rule compact_overrun [of ?p "[]", simplified append_Nil2])
    show "\<forall>n \<in> set needles. n \<noteq> ''api_key'' \<longrightarrow> \<not> contains (?p @ ''api_key'') n"
    proof -
      have "\<forall>n \<in> set needles. n \<noteq> ''api_key'' \<longrightarrow> \<not> contains ''api_key'' n \<and> n \<noteq> [] \<and> CHR ''x'' \<notin> set n"
        by (simp add: needles_def contains_def)
      then show ?thesis using cut by blast
    qed
    show "\<not> contains (?p @ ''api_ke'') ''api_key''"
      by (rule cut) (simp_all add: contains_def)
  qed (simp_all add: cval_def)
qed

end
