(* ===== verification/Debug_Session.thy ===== *)
theory Debug_Session
  imports Debug_Trace Bridge_Engine
begin

text \<open>
  The record of the last request kept for tracing, and the body of the debug route built from it
  (\<^verbatim>\<open>src/server.c\<close>, \<^verbatim>\<open>TraceSession\<close> in \<^verbatim>\<open>server.h\<close>).

  Storing a text redacts it in its buffer; \<open>None\<close> is a redaction that outgrows it.
\<close>

record trace_session =
  ts_request_number :: nat
  ts_method :: string
  ts_path :: string
  ts_http_headers :: string
  ts_http_body :: string
  ts_normalized_input :: string
  ts_native_request :: string
  ts_native_response :: string
  ts_error :: string

definition trace_store_text :: "bridge_config \<Rightarrow> string \<Rightarrow> nat \<Rightarrow> string \<Rightarrow> string option" where
  "trace_store_text cfg dest max_len src =
     (if cf_trace cfg then debug_trace_redact_text max_len (cstr_copy max_len src) else Some dest)"

definition trace_store_headers :: "bridge_config \<Rightarrow> string \<Rightarrow> trace_session \<Rightarrow> trace_session option" where
  "trace_store_headers cfg raw ts =
     (if \<not> cf_trace cfg then Some ts
      else map_option (\<lambda>h. ts\<lparr>ts_http_headers := h\<rparr>)
             (debug_trace_redact_text 4096
               (take 4095 (case strstr raw (crlf @ crlf) of None \<Rightarrow> raw | Some r \<Rightarrow> take (length raw - length r) raw))))"

text \<open>The session named in the body, and the engine after the index has been read again.\<close>

definition debug_ids :: "(string \<Rightarrow> json option) \<Rightarrow> engine \<Rightarrow> (string \<times> string \<times> string) \<times> engine" where
  "debug_ids parse e =
     (if en_last_session_id e = [] then (([], [], []), e)
      else
        let sx = en_sessions e; key = get_session_key sx;
            e1 = on_sessions (\<lambda>s. snd (load_session_index parse s)) e
        in ((cstr_copy 64 (sx_session_id sx), cstr_copy 256 key,
             case session_index_lookup (en_sessions e1) key of None \<Rightarrow> [] | Some i \<Rightarrow> cstr_copy 128 i), e1))"

definition debug_member :: "string \<Rightarrow> string \<Rightarrow> nat \<Rightarrow> string" where
  "debug_member key v size_max = [dquote] @ key @ [dquote, CHR '':'', dquote] @ json_escape v size_max @ [dquote]"

definition build_debug_session_json ::
    "(string \<Rightarrow> json option) \<Rightarrow> trace_session \<Rightarrow> nat \<Rightarrow> engine \<Rightarrow> string \<times> engine" where
  \<open>build_debug_session_json parse ts body_max e =
     (case debug_ids parse e of
        ((session_id, session_key, state_id), e1) \<Rightarrow>
          (cstr_copy body_max
             (''{"trace":'' @ show_bool (cf_trace (en_cfg e)) @ '',"session":{''
              @ debug_member ''session_id'' session_id 256 @ '',''
              @ debug_member ''session_key'' session_key 256 @ '',''
              @ debug_member ''state_id'' state_id 256
              @ ''},"last_request":{"request_number":'' @ show_nat (ts_request_number ts) @ '',''
              @ debug_member ''method'' (ts_method ts) 64 @ '',''
              @ debug_member ''path'' (ts_path ts) 256 @ '',''
              @ debug_member ''http_headers'' (ts_http_headers ts) 8192 @ '',''
              @ debug_member ''http_body'' (ts_http_body ts) 16384 @ '',''
              @ debug_member ''normalized_input'' (ts_normalized_input ts) 16384 @ '',''
              @ debug_member ''native_request'' (ts_native_request ts) 16384 @ '',''
              @ debug_member ''native_response'' (ts_native_response ts) 16384 @ '',''
              @ debug_member ''error'' (ts_error ts) 1024 @ ''}}''), e1))\<close>

lemma debug_session_keeps:
  "\<exists>sx. snd (build_debug_session_json parse ts body_max e) = e\<lparr>en_sessions := sx\<rparr>"
proof (cases "en_last_session_id e = []")
  case True
  then show ?thesis by (intro exI [of _ "en_sessions e"]) (simp add: build_debug_session_json_def debug_ids_def)
qed (auto simp: build_debug_session_json_def debug_ids_def on_sessions_def Let_def)

end
