(* ===== verification/Http_Server.thy ===== *)
theory Http_Server
  imports Http_Request Native_Input Responses_Api Debug_Session Turn_Events
begin

text \<open>
  The HTTP server (\<^verbatim>\<open>src/server.c\<close>): the guards, the routes, the handlers, and the loop over the
  connections.

  A connection is a script of what \<open>read\<close> delivers and one of what \<open>write\<close> takes; \<open>cn_out\<close> are the
  bytes that went out, one element for each call of \<open>write_all\<close> or of the stream's \<open>write\<close>; what a turn
  writes to the descriptor beside its stream (heartbeats) is in \<open>cn_live\<close>, its place among the others is not
  recorded. The server's state is the engine, the request counter, the flag taken from Accept-Encoding, the
  tool history, the clients that will knock during turns and what they were answered, the connection being
  served and the ones that were closed. Trace output is left out here (see \<open>Debug_Trace\<close>); the
  trace record that the debug route shows is a parameter. In pipe mode \<open>sv_arrives\<close> is the text the reader threads have put
  into the buffer by the time the waiting ends, and \<open>sv_writable\<close> the answers of \<open>poll\<close>.
\<close>

section \<open>State\<close>

record server_env =
  sv_turn :: turn_env
  sv_disable_workspace :: bool
  sv_trace :: trace_session
  sv_stream_size :: nat
  sv_request_size :: nat
  sv_arrives :: string
  sv_writable :: "nat \<Rightarrow> bool"

record conn =
  cn_script :: "wr list"
  cn_out :: "bytes list"
  cn_live :: "string list"

record server =
  sv_eng :: engine
  sv_counter :: u64
  sv_gzip :: bool
  sv_history :: tool_history
  sv_clients :: "string option list list"
  sv_replies :: "string list"
  sv_conn :: conn
  sv_closed :: "conn list"

definition on_engine :: "(engine \<Rightarrow> engine) \<Rightarrow> server \<Rightarrow> server" where
  "on_engine f sv = sv\<lparr>sv_eng := f (sv_eng sv)\<rparr>"

abbreviation sv_cfg :: "server \<Rightarrow> bridge_config" where
  "sv_cfg sv \<equiv> en_cfg (sv_eng sv)"

section \<open>Writing to the client\<close>

fun write_all_loop :: "wr list \<Rightarrow> bytes \<Rightarrow> bytes \<times> wr list" where
  "write_all_loop [] data = (data, [])"
| "write_all_loop (w # ws) data =
     (if data = [] then ([], w # ws)
      else case w of
        Wrote n \<Rightarrow>
          (if n = 0 then ([], ws)
           else case write_all_loop ws (drop n data) of (out, ws') \<Rightarrow> (take n data @ out, ws'))
      | Write_Intr \<Rightarrow> write_all_loop ws data
      | Write_Err \<Rightarrow> ([], ws))"

definition write_all :: "bytes \<Rightarrow> server \<Rightarrow> server" where
  "write_all data sv =
     (case write_all_loop (cn_script (sv_conn sv)) data of
        (out, ws) \<Rightarrow> sv\<lparr>sv_conn := (sv_conn sv)\<lparr>cn_script := ws, cn_out := cn_out (sv_conn sv) @ [out]\<rparr>\<rparr>)"

definition http_header :: "bridge_config \<Rightarrow> string \<Rightarrow> string \<Rightarrow> nat \<Rightarrow> string" where
  "http_header cfg status content_type body_len =
     cstr_copy 2048
       (''HTTP/1.1 '' @ status @ crlf @ ''Content-Type: '' @ content_type @ crlf @ ''Content-Length: '' @ show_nat body_len @ crlf
        @ ''Access-Control-Allow-Origin: *'' @ crlf @ ''Access-Control-Allow-Methods: GET, POST, OPTIONS'' @ crlf
        @ ''Access-Control-Allow-Headers: Content-Type, Authorization, X-Requested-With'' @ crlf
        @ ''Connection: '' @ (if cf_keep_alive_enabled cfg then ''keep-alive'' else ''close'') @ crlf @ crlf)"

definition send_http :: "string \<Rightarrow> string \<Rightarrow> string \<Rightarrow> server \<Rightarrow> server" where
  "send_http status content_type body sv =
     write_all body (write_all (http_header (sv_cfg sv) status content_type (length body)) sv)"

definition send_json :: "string \<Rightarrow> string \<Rightarrow> server \<Rightarrow> server" where
  "send_json status body = send_http status ''application/json'' body"

definition send_sse :: "string \<Rightarrow> string \<Rightarrow> server \<Rightarrow> server" where
  "send_sse event_type data sv =
     (let sv1 = (if event_type = [] then sv
                 else write_all newline (write_all event_type (write_all ''event: '' sv)))
      in write_all (newline @ newline) (write_all data (write_all ''data: '' sv1)))"

section \<open>Guards\<close>

definition options_request :: "string \<Rightarrow> bool" where
  "options_request raw = (take 8 raw = ''OPTIONS '')"

text \<open>The first place where the needle occurs, without regard to case, anywhere in the request.\<close>

fun find_header_ci :: "string \<Rightarrow> string \<Rightarrow> string option" where
  "find_header_ci [] needle = None"
| "find_header_ci (c # s) needle =
     (if ci_eq (take (length needle) (c # s)) needle then Some (c # s) else find_header_ci s needle)"

datatype auth = Auth_Ok | Auth_Fail string

definition check_auth :: "bridge_config \<Rightarrow> string \<Rightarrow> auth" where
  \<open>check_auth cfg raw =
     (if cf_auth_token cfg = [] \<or> options_request raw then Auth_Ok
      else case find_header_ci raw ''authorization: '' of
        None \<Rightarrow> Auth_Fail ''{"error":"missing auth"}''
      | Some h \<Rightarrow>
          let a = dropWhile (\<lambda>c. c = CHR '' '') (drop 15 h);
              cred = (if take 7 a = ''Bearer '' then Some (drop 7 a)
                      else if take 6 a = ''Token '' then Some (drop 6 a) else None)
          in case cred of
               None \<Rightarrow> Auth_Fail ''{"error":"missing Bearer/Token prefix"}''
             | Some s \<Rightarrow>
                 let token = (case strstr s crlf of None \<Rightarrow> s | Some r \<Rightarrow> take (length s - length r) s)
                 in if token = cf_auth_token cfg \<and> token \<noteq> [] then Auth_Ok else Auth_Fail ''{"error":"invalid auth"}'')\<close>

fun comma_words :: "string \<Rightarrow> string \<Rightarrow> string list" where
  "comma_words cur [] = (if cur = [] then [] else [cur])"
| "comma_words cur (c # s) =
     (if c = CHR '' '' \<or> c = CHR '','' then (if cur = [] then [] else [cur]) @ comma_words [] s
      else comma_words (cur @ [c]) s)"

definition host_is_allowed :: "bridge_config \<Rightarrow> string \<Rightarrow> bool" where
  "host_is_allowed cfg host =
     (host \<noteq> [] \<and>
       (host \<in> {''127.0.0.1'', ''localhost'', ''::1'', ''::ffff:127.0.0.1''} \<or> host = cf_bind_host cfg
        \<or> host \<in> set (comma_words [] (cf_host_allowlist cfg))))"

text \<open>An address in brackets is cut at the first closing bracket of the request, which need not be on the line.\<close>

definition validate_host_header :: "bridge_config \<Rightarrow> string \<Rightarrow> bool" where
  "validate_host_header cfg raw =
     (if options_request raw then True
      else case find_header_value raw ''Host'' of
        None \<Rightarrow> False
      | Some v \<Rightarrow>
          let p = dropWhile is_tab_blank v
          in if p \<noteq> [] \<and> hd p = CHR ''['' then
               (case strchr p (CHR '']'') of
                  None \<Rightarrow> False
                | Some close \<Rightarrow>
                    let host = cstr_copy 256 (take (length p - length close + 1) p)
                    in host = ''[::1]'' \<or> (cf_bind_host cfg \<noteq> [] \<and> host = cf_bind_host cfg) \<or> host_is_allowed cfg host)
             else
               let line = takeWhile (\<lambda>c. \<not> is_crlf_char c) p;
                   name = takeWhile (\<lambda>c. c \<noteq> CHR '':'') line
               in host_is_allowed cfg (cstr_copy 256 (if name \<noteq> [] then name else line)))"

section \<open>The request line\<close>

definition before_blank :: "string \<Rightarrow> (string \<times> string) option" where
  "before_blank s =
     (case strchr s (CHR '' '') of None \<Rightarrow> None | Some r \<Rightarrow> Some (take (length s - length r) s, tl r))"

definition request_line :: "string \<Rightarrow> string \<times> string \<times> string" where
  "request_line raw =
     (case before_blank raw of
        None \<Rightarrow> ([], [], [])
      | Some (m, r) \<Rightarrow>
          (case before_blank r of
             None \<Rightarrow> (cstr_copy 16 m, [], [])
           | Some (target, _) \<Rightarrow>
               let path = takeWhile (\<lambda>c. c \<noteq> CHR ''?'') target
               in (cstr_copy 16 m, cstr_copy 256 path, cstr_copy 256 (drop (length path + 1) target))))"

datatype route =
    Route_Options | Route_Health | Route_Models | Route_Debug | Route_Compact | Route_Response | Route_Cancel | Route_None

definition route_of :: "string \<Rightarrow> string \<Rightarrow> route" where
  "route_of meth path =
     (if meth = ''OPTIONS'' \<and> path = ''/'' then Route_Options
      else if meth = ''GET'' \<and> path = ''/health'' then Route_Health
      else if meth = ''GET'' \<and> path \<in> {''/v1/models'', ''/models''} then Route_Models
      else if meth = ''GET'' \<and> path = ''/debug/session'' then Route_Debug
      else if meth = ''POST'' \<and> path \<in> {''/v1/responses/compact'', ''/responses/compact''} then Route_Compact
      else if meth = ''POST'' \<and> path \<in> {''/v1/responses'', ''/responses''} then Route_Response
      else if meth = ''DELETE'' \<and> (take 14 path = ''/v1/responses/'' \<or> take 10 path = ''/responses'') then Route_Cancel
      else Route_None)"

section \<open>Small handlers\<close>

definition handle_models :: "server \<Rightarrow> server" where
  \<open>handle_models sv =
     (let cfg = sv_cfg sv;
          model_id = or_else (cf_codex_model cfg) ''star-bridge-ds4'';
          alias = or_else (cf_codex_model_alias cfg) model_id;
          display = or_else (cf_codex_model_display_name cfg) alias
      in send_json ''200 OK''
           (cstr_copy 8192 (''{"object":"list","data":[{"id":"'' @ model_id @ ''","object":"model","name":"'' @ alias
              @ ''","display_name":"'' @ display @ ''","owned_by":"Star Bridge Local","tools":[]}]}'')) sv)\<close>

definition handle_health :: "server \<Rightarrow> server" where
  \<open>handle_health sv =
     (case engine_health_check (cf_response_timeout_ms (sv_cfg sv)) (sv_eng sv) of
        (ok, e) \<Rightarrow>
          send_json (if ok then ''200 OK'' else ''503 Service Unavailable'')
            (if ok then ''{"status":"ok","native_status":"ok"}'' else ''{"status":"failed","native_status":"unavailable"}'')
            (sv\<lparr>sv_eng := e\<rparr>))\<close>

definition handle_cancel :: "server \<Rightarrow> server" where
  \<open>handle_cancel sv = send_json ''200 OK'' ''{"status":"cancelled"}'' (on_engine engine_cancel sv)\<close>

definition handle_debug :: "server_env \<Rightarrow> server \<Rightarrow> server" where
  \<open>handle_debug env sv =
     (if cf_trace (sv_cfg sv) then
        case build_debug_session_json (tv_parse (sv_turn env)) (sv_trace env) 70000 (sv_eng sv) of
          (body, e) \<Rightarrow> send_json ''200 OK'' body (sv\<lparr>sv_eng := e\<rparr>)
      else send_json ''404 Not Found'' ''{"error":"trace disabled"}'' sv)\<close>

end
