(* ===== verification/Http_Endpoints.thy ===== *)
theory Http_Endpoints
  imports Http_Server Turn_Properties
begin

text \<open>
  The endpoints that talk to the agent and the loop over the connections (\<^verbatim>\<open>src/server.c\<close>):
  \<open>handle_response\<close> with its phases, here \<open>server_handle_response\<close>, \<open>handle_compact\<close>, and
  \<open>start_codex_api_server\<close> from the accepted connection to its end.

  As in the turn, \<open>None\<close> means that the call does not return and \<open>Overrun\<close> that it writes
  outside a buffer. A \<open>max_output_buffer\<close> of at least one is assumed by the C code.
\<close>

section \<open>Decoding\<close>

definition content_encoding :: "string \<Rightarrow> string" where
  "content_encoding raw = copy_header_value raw ''Content-Encoding'' 64 ''(none)''"

definition encoding_supported :: "string \<Rightarrow> bool" where
  "encoding_supported ce = (ce = ''(none)'' \<or> ci_eq ce ''identity'')"

definition encoding_message :: "string \<Rightarrow> string" where
  "encoding_message ce = cstr_copy 256 (''Unsupported Content-Encoding: '' @ ce)"

definition gzip_accepted :: "string \<Rightarrow> bool" where
  "gzip_accepted raw = contains (copy_header_value raw ''Accept-Encoding'' 128 ''(none)'') ''gzip''"

definition error_json :: "string \<Rightarrow> string" where
  "error_json msg = codex_serialize_error (Some msg) 8192"

section \<open>Parsing\<close>

definition handle_response_parse :: "server_env \<Rightarrow> string \<Rightarrow> server \<Rightarrow> string + harness_request" where
  "handle_response_parse env body sv =
     (case codex_validate_request_schema (tv_parse (sv_turn env)) body 256 of
        Some msg \<Rightarrow> Inl msg
      | None \<Rightarrow>
          (case codex_parse_request (tv_parse (sv_turn env)) (en_malloc (sv_eng sv))
                  (\<lambda>j. Some (tv_print (sv_turn env) j)) (sv_cfg sv) body of
             Inl err \<Rightarrow> Inl (he_message err)
           | Inr req \<Rightarrow> Inr req))"

section \<open>The agent's part\<close>

definition public_model :: "bridge_config \<Rightarrow> string" where
  "public_model cfg = or_else (cf_codex_model_alias cfg) (cf_codex_model cfg)"

definition mode_hint :: "string \<Rightarrow> string \<times> string" where
  "mode_hint effort =
     (if effort \<in> {''none'', ''minimal'', ''low''} then
        (''[SYSTEM MODE: reasoning_effort=low. Answer immediately in code blocks. Skip <think> processing.]'' @ newline, ''low'')
      else if effort = ''medium'' then
        (''[SYSTEM MODE: reasoning_effort=medium. Balance speed and verification.]'' @ newline, ''medium'')
      else if effort \<in> {''high'', ''xhigh'', ''max''} then
        (''[SYSTEM MODE: reasoning_effort=max. Open verification chains. Run multi-step logic paths.]'' @ newline, ''max'')
      else
        (cstr_copy 256 (''[SYSTEM MODE: reasoning_effort='' @ effort @ ''. Preserve requested thinking level.]'' @ newline),
         ''custom''))"

definition mode_badge :: "string \<Rightarrow> string" where
  "mode_badge label =
     (let q = [CHR 0x27]
      in ''<div class='' @ q @ ''event-node'' @ q @ '' data-action='' @ q @ ''MODIFIED'' @ q @ ''><span class='' @ q
         @ ''event-badge badge-modified'' @ q @ ''>MODE</span>reasoning_effort='' @ label @ ''</div>'' @ newline)"

definition resolve_and_inject_reasoning :: "string \<Rightarrow> engine \<Rightarrow> engine" where
  "resolve_and_inject_reasoning effort e =
     (if effort = [] then e
      else case mode_hint effort of
             (hint, label) \<Rightarrow> engine_push_html (mode_badge label) (engine_write_stdin hint e))"

definition connection_usable :: "connection_state \<Rightarrow> bool" where
  "connection_usable st = (st = CONN_READY \<or> st = CONN_CONNECTED \<or> st = CONN_HANDSHAKING)"

text \<open>The turn of a request: with a stream of its own if one is asked for and there is memory for its state.\<close>

definition response_turn :: "server_env \<Rightarrow> harness_request \<Rightarrow> string \<Rightarrow> server \<Rightarrow> turn" where
  "response_turn env req input sv =
     (let e = sv_eng sv;
          stream = (if hr_stream req \<and> en_malloc e (sv_stream_size env) then
                      Some (open_live_stream (en_time e) (public_model (sv_cfg sv)) (sv_gzip sv) (cn_script (sv_conn sv)))
                    else None)
      in turn_context_init e (unat (sv_counter sv)) input (hr_previous_response_id req) (hr_reasoning_effort req)
           (hr_reset_session req) [] (nat (cf_max_output_buffer (sv_cfg sv))) (hr_stream req) stream True
           (sv_history sv) (sv_clients sv))"

definition after_turn :: "turn \<Rightarrow> server \<Rightarrow> server" where
  "after_turn tc sv =
     (let cn = sv_conn sv;
          cn1 = (case tc_stream tc of
                   None \<Rightarrow> cn
                 | Some s \<Rightarrow> cn\<lparr>cn_script := ss_script s, cn_out := cn_out cn @ ss_out s\<rparr>)
      in sv\<lparr>sv_eng := tc_eng tc, sv_history := tc_history tc, sv_clients := tc_clients tc,
            sv_replies := sv_replies sv @ tc_replies tc,
            sv_conn := cn1\<lparr>cn_live := cn_live cn @ tc_live_out tc\<rparr>\<rparr>)"

definition pipe_request :: "server_env \<Rightarrow> harness_request \<Rightarrow> string \<Rightarrow> engine \<Rightarrow> engine" where
  "pipe_request env req input e =
     (let e1 = (if input = [] then e
                else let e2 = engine_write_stdin input (resolve_and_inject_reasoning (hr_reasoning_effort req) e)
                     in if last input \<noteq> CHR 0x0A then engine_write_stdin newline e2 else e2)
      in engine_push_text (sv_arrives env) e1)"

definition oom_reply :: "server \<Rightarrow> server" where
  \<open>oom_reply sv = send_json ''500 Internal Server Error'' ''{"error":"oom"}'' sv\<close>

definition request_input :: "server_env \<Rightarrow> harness_request \<Rightarrow> server \<Rightarrow> string option" where
  "request_input env req sv =
     native_input (en_malloc (sv_eng sv)) (tv_parse (sv_turn env)) (tv_print (sv_turn env)) (sv_disable_workspace env)
       (sv_cfg sv) (en_workspace (sv_eng sv)) (sv_history sv) req"

text \<open>The result, the contents of \<open>out_buf\<close> and the server afterwards.\<close>

definition handle_response_native ::
    "server_env \<Rightarrow> harness_request \<Rightarrow> server \<Rightarrow> (bool \<times> string \<times> server) c_run option" where
  "handle_response_native env req sv =
     (case request_input env req sv of
        None \<Rightarrow> Some (Ret (False, [], oom_reply sv))
      | Some input \<Rightarrow>
          if cf_use_framed_protocol (sv_cfg sv) then
            (if \<not> connection_usable (nc_state (en_nc (sv_eng sv))) then
               Some (Ret (False, [], send_json ''503 Service Unavailable'' (error_json ''native_agent_unavailable'') sv))
             else if input = [] then Some (Ret (True, [], sv))
             else case framed_turn (sv_turn env) (response_turn env req input sv) of
                    None \<Rightarrow> None
                  | Some Overrun \<Rightarrow> Some Overrun
                  | Some (Ret (ok, tc)) \<Rightarrow> Some (Ret (ok, tc_out_buf tc, after_turn tc sv)))
          else Some (Ret (True, [], on_engine (pipe_request env req input) sv)))"

section \<open>The answer\<close>

definition no_text_notice :: string where
  "no_text_notice =
     ''Native agent produced no assistant text. Check the agent command, framed protocol setting, or native-agent logs.''"

text \<open>The text for the client, whether it was cut, and the engine after the read.\<close>

definition buffered_content :: "bridge_config \<Rightarrow> engine \<Rightarrow> string \<times> bool \<times> engine" where
  "buffered_content cfg e =
     (let content_max = nat (cf_max_output_buffer cfg)
      in case engine_read_text (of_nat content_max) e of
           (t, e1) \<Rightarrow> (if t = [] then cstr_copy content_max no_text_notice else c_str t,
                       length t \<ge> content_max - 1, e1))"

function pipe_chunks :: "(nat \<Rightarrow> bool) \<Rightarrow> nat \<Rightarrow> string \<Rightarrow> engine \<Rightarrow> stream_state \<Rightarrow> bool \<times> engine \<times> stream_state" where
  "pipe_chunks writable offset rest e s =
     (if rest = [] then (False, e, s)
      else if en_cancelled e then (True, e, s)
      else if \<not> writable offset then (True, engine_cancel e, s)
      else case responses_stream_emit_text_delta (take 4096 rest) s of
             (True, s1) \<Rightarrow> pipe_chunks writable (offset + 4096) (drop 4096 rest) e s1
           | (False, s1) \<Rightarrow> (True, e, s1))"
  by pat_completeness auto
termination by (relation "measure (\<lambda>(writable, offset, rest, e, s). length rest)") auto

declare pipe_chunks.simps [simp del]

text \<open>The opening events, as in a live stream, but each failure ends the stream with an error.\<close>

definition open_pipe_stream :: "int \<Rightarrow> stream_state \<Rightarrow> stream_state + stream_state" where
  "open_pipe_stream now s =
     (case responses_stream_emit_created now s of
        (False, s1) \<Rightarrow> Inl (snd (responses_stream_emit_error ''failed to emit created event'' s1))
      | (True, s1) \<Rightarrow>
          (case responses_stream_start_item s1 of
             (False, s2) \<Rightarrow> Inl (snd (responses_stream_emit_error ''failed to start output item'' s2))
           | (True, s2) \<Rightarrow>
               (case responses_stream_start_part CONTENT_TYPE_OUTPUT_TEXT None s2 of
                  (False, s3) \<Rightarrow> Inl (snd (responses_stream_emit_error ''failed to start content part'' s3))
                | (True, s3) \<Rightarrow> Inr s3)))"

definition close_pipe_stream :: "int \<Rightarrow> bool \<Rightarrow> stream_state \<Rightarrow> stream_state" where
  "close_pipe_stream now truncated s =
     (let s1 = (if truncated then s\<lparr>ss_incomplete_details := ''max_output_buffer''\<rparr> else s);
          s2 = snd (responses_stream_emit_text_done s1);
          s3 = snd (responses_stream_emit_content_part_done s2);
          s4 = snd (responses_stream_emit_output_item_done s3)
      in snd (responses_stream_emit_completed now s4))"

definition pipe_stream :: "server_env \<Rightarrow> stream_state \<Rightarrow> engine \<Rightarrow> engine \<times> stream_state" where
  "pipe_stream env s e =
     (case buffered_content (en_cfg e) e of
        (content, truncated, e1) \<Rightarrow>
          (case open_pipe_stream (en_time e1) s of
             Inl s1 \<Rightarrow> (e1, s1)
           | Inr s1 \<Rightarrow>
               (case pipe_chunks (sv_writable env) 0 content e1 s1 of
                  (True, e2, s2) \<Rightarrow>
                    (e2, snd (responses_stream_emit_error
                               (if en_cancelled e2 then ''cancelled'' else ''client_disconnected'') s2))
                | (False, e2, s2) \<Rightarrow> (e2, close_pipe_stream (en_time e2) truncated s2))))"

definition handle_response_stream :: "server_env \<Rightarrow> server \<Rightarrow> server" where
  \<open>handle_response_stream env sv =
     (if cf_use_framed_protocol (sv_cfg sv) then sv
      else if \<not> en_malloc (sv_eng sv) (sv_stream_size env) then
        send_json ''500 Internal Server Error'' ''{"error":"out of memory"}'' sv
      else
        case pipe_stream env
               (responses_stream_init ''resp-stream'' (public_model (sv_cfg sv)) (sv_gzip sv) (cn_script (sv_conn sv)))
               (sv_eng sv) of
          (e, s) \<Rightarrow>
            sv\<lparr>sv_eng := e,
               sv_conn := (sv_conn sv)\<lparr>cn_script := ss_script s, cn_out := cn_out (sv_conn sv) @ ss_out s\<rparr>\<rparr>)\<close>

definition block_content :: "bridge_config \<Rightarrow> string \<Rightarrow> engine \<Rightarrow> string \<times> bool \<times> engine" where
  "block_content cfg out e =
     (if cf_use_framed_protocol cfg then
        (cstr_copy (nat (cf_max_output_buffer cfg)) out, length out \<ge> nat (cf_max_output_buffer cfg) - 1, e)
      else buffered_content cfg e)"

definition clipped :: "bridge_config \<Rightarrow> string \<Rightarrow> bool" where
  "clipped cfg content = (cf_max_output_chars cfg > 0 \<and> length content > nat (cf_max_output_chars cfg))"

definition block_details :: "bool \<Rightarrow> bool \<Rightarrow> bool \<Rightarrow> string" where
  "block_details truncated_buffer truncated_chars event_limited =
     (if truncated_buffer then ''max_output_buffer''
      else if truncated_chars then ''max_output_chars''
      else if event_limited then ''max_turn_events'' else [])"

definition handle_response_block :: "server_env \<Rightarrow> string \<Rightarrow> server \<Rightarrow> server c_run" where
  "handle_response_block env out sv =
     (case block_content (sv_cfg sv) out (sv_eng sv) of
        (content, truncated, e1) \<Rightarrow>
          let cfg = sv_cfg sv;
              shown = (if clipped cfg content then take (nat (cf_max_output_chars cfg)) content else content);
              details = block_details truncated (clipped cfg content) (en_turn_event_limited e1);
              sv1 = sv\<lparr>sv_eng := e1\<lparr>en_turn_event_limited := False\<rparr>\<rparr>
          in case codex_serialize_text_response_with_details (en_time e1) ''resp-block'' (Some (public_model cfg))
                    shown details 524288 of
               None \<Rightarrow> Overrun
             | Some (json, _) \<Rightarrow>
                 (case codex_validate_response_json (tv_parse (sv_turn env)) json 256 of
                    Some msg \<Rightarrow> Ret (send_json ''500 Internal Server Error'' (error_json msg) sv1)
                  | None \<Rightarrow> Ret (send_json ''200 OK'' json sv1)))"

section \<open>POST /v1/responses\<close>

text \<open>After a failure of the agent's part. It may already have sent a response of its own.\<close>

definition response_failed :: "harness_request \<Rightarrow> string \<Rightarrow> server \<Rightarrow> server" where
  "response_failed req out sv =
     (if hr_stream req then
        (if cf_use_framed_protocol (sv_cfg sv) then sv
         else
           let ev = codex_stream_error (or_else out ''Native agent protocol failure'') 0
           in send_sse (ev_event ev) (ev_data ev) (write_all sse_headers sv))
      else send_json ''503 Service Unavailable'' (error_json (or_else out ''native_agent_protocol_failure'')) sv)"

definition run_request :: "server_env \<Rightarrow> harness_request \<Rightarrow> server \<Rightarrow> server c_run option" where
  "run_request env req sv =
     (case handle_response_native env req sv of
        None \<Rightarrow> None
      | Some Overrun \<Rightarrow> Some Overrun
      | Some (Ret (False, out, sv1)) \<Rightarrow> Some (Ret (response_failed req out sv1))
      | Some (Ret (True, out, sv1)) \<Rightarrow>
          if hr_stream req then Some (Ret (handle_response_stream env sv1))
          else Some (handle_response_block env out sv1))"

definition answer_body :: "server_env \<Rightarrow> string \<Rightarrow> string \<Rightarrow> server \<Rightarrow> server c_run option" where
  "answer_body env raw body sv0 =
     (let sv = sv0\<lparr>sv_gzip := gzip_accepted raw\<rparr>
      in if \<not> encoding_supported (content_encoding raw) then
           Some (Ret (send_json ''415 Unsupported Media Type'' (error_json (encoding_message (content_encoding raw))) sv))
         else if \<not> en_malloc (sv_eng sv) (sv_request_size env) then Some (Ret (oom_reply sv))
         else case handle_response_parse env body sv of
                Inl msg \<Rightarrow> Some (Ret (send_json ''400 Bad Request'' (error_json msg) sv))
              | Inr req \<Rightarrow> run_request env req sv)"

definition count_request :: "server \<Rightarrow> server" where
  "count_request sv = sv\<lparr>sv_counter := sv_counter sv + 1\<rparr>"

definition server_handle_response :: "server_env \<Rightarrow> bytes \<Rightarrow> server \<Rightarrow> server c_run option" where
  "server_handle_response env raw sv0 =
     (let sv = count_request sv0
      in case read_http_body (en_malloc (sv_eng sv)) (sv_cfg sv) raw of
           Http_Request.Never \<Rightarrow> None
         | Too_Large \<Rightarrow> Some (Ret (send_json ''413 Request Entity Too Large'' (error_json ''request body too large'') sv))
         | No_Body \<Rightarrow> Some (Ret sv)
         | Body body _ \<Rightarrow> answer_body env (c_str raw) body sv)"

section \<open>POST /v1/responses/compact\<close>

definition compact_id :: "server \<Rightarrow> string" where
  "compact_id sv = ''compact-'' @ show_nat (unat (sv_counter sv))"

definition compact_failed :: "string \<Rightarrow> server \<Rightarrow> server" where
  \<open>compact_failed msg sv =
     send_json ''503 Service Unavailable''
       (cstr_copy 8192 (''{"id":"'' @ compact_id sv @ ''","object":"response","status":"failed",''
          @ ''"error":{"message":"'' @ msg @ ''"}}'')) sv\<close>

definition compact_done :: "string \<Rightarrow> server \<Rightarrow> server" where
  \<open>compact_done out sv =
     send_json ''200 OK''
       (cstr_copy 8192 (''{"id":"'' @ compact_id sv @ ''","object":"response","status":"completed",''
          @ ''"model":"'' @ cf_codex_model (sv_cfg sv) @ ''","created_at":'' @ show_int (en_time (sv_eng sv))
          @ '',"output":[{"type":"text","text":"''
          @ json_escape (or_else out ''Context compacted successfully.'') 4096
          @ ''","annotations":[]}],"error":null,"finish_reason":"stop"}'')) sv\<close>

definition compact_input :: "string \<Rightarrow> string \<Rightarrow> string" where
  "compact_input prev effort =
     cstr_copy 4096 (''Compact the conversation context. previous_response_id='' @ or_else prev ''none''
       @ '' reasoning_effort='' @ or_else effort ''none'')"

definition compact_turn :: "string \<Rightarrow> string \<Rightarrow> server \<Rightarrow> turn" where
  "compact_turn prev effort sv =
     turn_context_init (sv_eng sv) (unat (sv_counter sv)) (compact_input prev effort) prev effort False []
       (nat (cf_max_output_buffer (sv_cfg sv))) False None True (sv_history sv) (sv_clients sv)"

text \<open>The turn is not marked as active before it begins.\<close>

definition run_compact :: "server_env \<Rightarrow> string \<Rightarrow> string \<Rightarrow> server \<Rightarrow> server c_run option" where
  "run_compact env prev effort sv =
     (case run_phases (sv_turn env) (compact_turn prev effort sv) of
        None \<Rightarrow> None
      | Some Overrun \<Rightarrow> Some Overrun
      | Some (Ret (ok, tc)) \<Rightarrow>
          let tc1 = on_eng (engine_set_turn_active False) (turn_cleanup tc);
              sv1 = after_turn tc1 sv
          in Some (Ret (if ok then compact_done (tc_out_buf tc1) sv1
                        else compact_failed (json_escape (or_else (tc_out_buf tc1) ''Compaction failed: native agent error'') 1024) sv1)))"

definition compact_body :: "server_env \<Rightarrow> string \<Rightarrow> string \<Rightarrow> server \<Rightarrow> server c_run option" where
  "compact_body env raw body sv =
     (let obj = json_parse (tv_parse (sv_turn env)) (Some body);
          prev = get_into obj ''previous_response_id'' 64 [];
          effort = get_into obj ''reasoning_effort'' 64 [];
          st = nc_state (en_nc (sv_eng sv))
      in if \<not> encoding_supported (content_encoding raw) then
           Some (Ret (send_json ''415 Unsupported Media Type'' (error_json (encoding_message (content_encoding raw))) sv))
         else if \<not> (cf_use_framed_protocol (sv_cfg sv) \<and> (st = CONN_READY \<or> st = CONN_CONNECTED)) then
           Some (Ret (compact_failed ''Compaction not supported: native agent unavailable'' sv))
         else run_compact env prev effort sv)"

definition handle_compact :: "server_env \<Rightarrow> bytes \<Rightarrow> server \<Rightarrow> server c_run option" where
  "handle_compact env raw sv0 =
     (let sv = count_request sv0
      in case read_http_body (en_malloc (sv_eng sv)) (sv_cfg sv) raw of
           Http_Request.Never \<Rightarrow> None
         | Body body _ \<Rightarrow> compact_body env (c_str raw) body sv
         | _ \<Rightarrow> Some (Ret sv))"

section \<open>A connection\<close>

definition dispatch :: "server_env \<Rightarrow> bytes \<Rightarrow> server \<Rightarrow> server c_run option" where
  \<open>dispatch env raw sv =
     (case request_line (c_str raw) of
        (meth, path, _) \<Rightarrow>
          (case route_of meth path of
             Route_Options \<Rightarrow> Some (Ret (send_http ''200 OK'' ''text/plain'' [] sv))
           | Route_Health \<Rightarrow> Some (Ret (handle_health sv))
           | Route_Models \<Rightarrow> Some (Ret (handle_models sv))
           | Route_Debug \<Rightarrow> Some (Ret (handle_debug env sv))
           | Route_Compact \<Rightarrow> handle_compact env raw sv
           | Route_Response \<Rightarrow> server_handle_response env raw sv
           | Route_Cancel \<Rightarrow> Some (Ret (handle_cancel sv))
           | Route_None \<Rightarrow> Some (Ret (send_json ''404 Not Found'' ''{"error":"not found"}'' sv))))\<close>

definition serve_request :: "server_env \<Rightarrow> bytes \<Rightarrow> server \<Rightarrow> server c_run option" where
  \<open>serve_request env raw sv =
     (case check_auth (sv_cfg sv) (c_str raw) of
        Auth_Fail msg \<Rightarrow> Some (Ret (send_json ''401 Unauthorized'' msg sv))
      | Auth_Ok \<Rightarrow>
          if \<not> validate_host_header (sv_cfg sv) (c_str raw) then
            Some (Ret (send_json ''403 Forbidden'' ''{"error":"Host not in allowlist"}'' sv))
          else dispatch env raw sv)\<close>

text \<open>What the client sends and how its end takes what is written.\<close>

record visit =
  vi_env :: server_env
  vi_in :: "io list"
  vi_script :: "wr list"

definition accept_conn :: "visit \<Rightarrow> server \<Rightarrow> server" where
  "accept_conn v sv = sv\<lparr>sv_conn := \<lparr>cn_script = vi_script v, cn_out = [], cn_live = []\<rparr>\<rparr>"

definition close_conn :: "server \<Rightarrow> server" where
  "close_conn sv = sv\<lparr>sv_closed := sv_closed sv @ [sv_conn sv]\<rparr>"

text \<open>A client that sends nothing more is waited for without end.\<close>

definition serve_connection :: "visit \<Rightarrow> server \<Rightarrow> server c_run option" where
  "serve_connection v sv0 =
     (let sv = accept_conn v sv0
      in case read_http_request (en_malloc (sv_eng sv)) (sv_cfg sv) (vi_in v) of
           Waits \<Rightarrow> None
         | Refused reply \<Rightarrow>
             Some (Ret (close_conn (case reply of None \<Rightarrow> sv | Some r \<Rightarrow> write_all r sv)))
         | Got raw \<Rightarrow>
             if raw = [] then Some (Ret (close_conn sv))
             else case serve_request (vi_env v) raw sv of
                    None \<Rightarrow> None
                  | Some Overrun \<Rightarrow> Some Overrun
                  | Some (Ret sv1) \<Rightarrow> Some (Ret (close_conn sv1)))"

fun start_codex_api_server :: "visit list \<Rightarrow> server \<Rightarrow> server c_run option" where
  "start_codex_api_server [] sv = Some (Ret sv)"
| "start_codex_api_server (v # vs) sv =
     (case serve_connection v sv of
        None \<Rightarrow> None
      | Some Overrun \<Rightarrow> Some Overrun
      | Some (Ret sv1) \<Rightarrow> start_codex_api_server vs sv1)"

end
