(* ===== verification/Http_Properties.thy ===== *)
theory Http_Properties
  imports Http_Request
begin

text \<open>
  What is read from the client: the lookup of a header line, the request read back however its
  bytes are cut, the chunked encoding of a body, and the chunk at which decoding does not end.
\<close>

section \<open>The text of a request\<close>

definition plain_line :: "string \<Rightarrow> bool" where
  "plain_line l = (l \<noteq> [] \<and> (\<forall>c \<in> set l. \<not> is_crlf_char c \<and> c \<noteq> CHR 0x00))"

definition block :: "string list \<Rightarrow> string \<Rightarrow> string" where
  "block ls body = concat (map (\<lambda>l. l @ crlf) ls) @ crlf @ body"

definition field_line :: "string \<times> string \<Rightarrow> string" where
  "field_line f = fst f @ '': '' @ snd f"

definition request_text :: "string \<Rightarrow> (string \<times> string) list \<Rightarrow> string \<Rightarrow> string" where
  "request_text first hs body = block (first # map field_line hs) body"

lemma block_Nil [simp]: "block [] body = crlf @ body"
  by (simp add: block_def)

lemma block_Cons [simp]: "block (l # ls) body = l @ crlf @ block ls body"
  by (simp add: block_def)

lemma crlf_simps [simp]: "length crlf = 2" "crlf \<noteq> []" "hd crlf = CHR 0x0D" "length crlf2 = 4" "is_crlf_char (CHR 0x0D)"
  "is_crlf_char (CHR 0x0A)"
  by (simp_all add: crlf_def crlf2_def is_crlf_char_def)

lemma strstr_here: "strstr (p @ s) p = Some (p @ s)"
  by (subst strstr.simps) simp

lemma strstr_skip:
  assumes "\<And>c. c \<in> set l \<Longrightarrow> c \<noteq> d"
  shows "strstr (l @ s) (d # p) = strstr s (d # p)"
  using assms by (induction l) auto

lemma strstr_line: "plain_line l \<Longrightarrow> strstr (l @ crlf @ s) crlf = Some (crlf @ s)"
  using strstr_skip [of l "CHR 0x0D" "crlf @ s" "[CHR 0x0A]"] strstr_here [of crlf s]
  by (auto simp: plain_line_def crlf_def is_crlf_char_def)

lemma crlf2_Cons: "crlf2 = CHR 0x0D # CHR 0x0A # crlf"
  by (simp add: crlf2_def crlf_def)

lemma strstr_line2:
  assumes "plain_line l"
  shows "strstr (l @ crlf @ s) crlf2 = (if prefix crlf s then Some (crlf @ s) else strstr s crlf2)"
proof -
  have "strstr (l @ crlf @ s) crlf2 = strstr (crlf @ s) crlf2"
    unfolding crlf2_Cons using assms by (intro strstr_skip) (auto simp: plain_line_def is_crlf_char_def)
  also have "\<dots> = (if prefix crlf s then Some (crlf @ s) else strstr s crlf2)"
    by (simp only: crlf2_Cons crlf_def append_Cons append_Nil strstr_Cons Cons_prefix_Cons) simp
  finally show ?thesis .
qed

lemma plain_no_crlf: "plain_line l \<Longrightarrow> \<not> prefix crlf (l @ s)"
  by (cases l) (simp_all add: plain_line_def crlf_def is_crlf_char_def prefix_def)

lemma strstr_block:
  "ls \<noteq> [] \<Longrightarrow> (\<And>l. l \<in> set ls \<Longrightarrow> plain_line l) \<Longrightarrow> strstr (block ls body) crlf2 = Some (crlf2 @ body)"
proof (induction ls)
  case (Cons l ls)
  show ?case
  proof (cases ls)
    case Nil
    then show ?thesis using Cons.prems by (simp add: strstr_line2) (simp add: crlf2_def)
  next
    case (Cons m ms)
    then have "\<not> prefix crlf (block ls body)" using Cons.prems by (simp add: plain_no_crlf)
    then show ?thesis using Cons Cons.prems Cons.IH by (simp add: strstr_line2)
  qed
qed simp

lemma header_end_block:
  assumes "ls \<noteq> []" and "\<And>l. l \<in> set ls \<Longrightarrow> plain_line l"
  shows "header_end (block ls body) = Some (length (block ls body) - length body - 4)"
  using strstr_block [OF assms] by (simp add: header_end_def)

section \<open>The lookup of a header line\<close>

definition line_is :: "string \<Rightarrow> string \<Rightarrow> bool" where
  "line_is name l = (length name < length l \<and> ci_eq (take (length name) l) name \<and> l ! length name = CHR '':'')"

definition line_value :: "string \<Rightarrow> string \<Rightarrow> string" where
  "line_value name l = dropWhile is_tab_blank (drop (length name + 1) l)"

fun found :: "string \<Rightarrow> string list \<Rightarrow> string \<Rightarrow> string option" where
  "found name [] body = None"
| "found name (l # ls) body =
     (if line_is name l then Some (line_value name l @ crlf @ block ls body) else found name ls body)"

lemma length_block: "length body + 2 \<le> length (block ls body)"
  by (induction ls) auto

lemma drop_takeWhile: "drop (length (takeWhile P xs)) xs = dropWhile P xs"
  by (induction xs) auto

lemma skip_blanks:
  "drop (length (takeWhile P (take (length u) (u @ s)))) (u @ s) = dropWhile P u @ s"
  by (simp add: length_takeWhile_le drop_takeWhile)

lemma header_scan_block:
  assumes "ls \<noteq> []" and "\<And>l. l \<in> set ls \<Longrightarrow> plain_line l"
  shows "header_scan name (block ls body) (length (block ls body) - length body - 4) = found name ls body"
  using assms
proof (induction ls)
  case (Cons l ls)
  let ?rest = "block ls body"
  let ?line = "l @ crlf @ ?rest"
  define n where "n = length ?line - length body - 4"
  have l: "plain_line l" "0 < length l" using Cons.prems by (auto simp: plain_line_def)
  have n: "length l \<le> n" "0 < n" using length_block [of body ls] l(2)
    by (auto simp: n_def simp del: length_greater_0_conv)
  have line_len: "(case strstr ?line crlf of None \<Rightarrow> n | Some r \<Rightarrow> min n (length ?line - length r)) = length l"
    using strstr_line [OF l(1), of ?rest] n by simp
  have line: "(length l > length name \<and> ci_eq (take (length name) ?line) name \<and> ?line ! length name = CHR '':'')
      = line_is name l"
    by (auto simp: line_is_def nth_append)
  have "header_scan name ?line n = found name (l # ls) body"
  proof (cases "line_is name l")
    case True
    then have "length name < length l" by (simp add: line_is_def)
    then have "drop (length (takeWhile is_tab_blank (take (length l - length name - 1) (drop (length name + 1) ?line))))
        (drop (length name + 1) ?line) = line_value name l @ crlf @ ?rest"
      using skip_blanks [of is_tab_blank "drop (length name + 1) l" "crlf @ ?rest"]
      by (simp add: line_value_def)
    then show ?thesis
      using True n unfolding header_scan.simps [of name ?line n] Let_def line_len line by simp
  next
    case False
    show ?thesis
    proof (cases "ls = []")
      case True
      then have "n = length l" by (simp add: n_def)
      then show ?thesis
        using False True n unfolding header_scan.simps [of name ?line n] Let_def line_len line by simp
    next
      case more: False
      then have "n - length l - 2 = length ?rest - length body - 4" and "length l < n"
        using length_block [of body "tl ls"] l(2) by (cases ls; auto simp: n_def plain_line_def)+
      then show ?thesis
        using False n Cons.IH [OF more] Cons.prems
        unfolding header_scan.simps [of name ?line n] Let_def line_len line by simp
    qed
  qed
  then show ?case by (simp add: n_def)
qed simp

lemma find_header_block:
  assumes "ls \<noteq> []" and "\<And>l. l \<in> set ls \<Longrightarrow> plain_line l"
  shows "find_header_value (block ls body) name = found name ls body"
  using header_end_block [OF assms] header_scan_block [OF assms] by (simp add: find_header_value_def)

lemma found_split:
  assumes "\<And>l. l \<in> set ls \<Longrightarrow> plain_line l" and "found name ls body = Some v"
  shows "\<exists>pre rest. v = line_value name (hd (filter (line_is name) ls)) @ crlf @ block rest body
      \<and> block ls body = pre @ v \<and> plain_line (hd (filter (line_is name) ls))"
  using assms
proof (induction ls)
  case (Cons l ls)
  show ?case
  proof (cases "line_is name l")
    case True
    have "suffix (line_value name l) l"
      unfolding line_value_def by (rule suffix_order.trans [OF suffix_dropWhile suffix_drop])
    then obtain k where "l = k @ line_value name l" by (auto simp: suffix_def)
    then have "block (l # ls) body = k @ v"
      using True Cons.prems(2) by (metis append.assoc block_Cons found.simps(2) option.inject)
    then show ?thesis using True Cons.prems by auto
  next
    case False
    then obtain pre rest where "v = line_value name (hd (filter (line_is name) ls)) @ crlf @ block rest body"
      "block ls body = pre @ v" "plain_line (hd (filter (line_is name) ls))"
      using Cons by auto
    then have "block (l # ls) body = (l @ crlf @ pre) @ v" by simp
    then show ?thesis using False \<open>v = _\<close> \<open>plain_line _\<close> by auto
  qed
qed simp

lemma value_text_block:
  assumes "ls \<noteq> []" and "\<And>l. l \<in> set ls \<Longrightarrow> plain_line l"
    and "found name ls body = Some v"
  shows "value_text (block ls body) v = line_value name (hd (filter (line_is name) ls))"
proof -
  obtain pre rest where v: "v = line_value name (hd (filter (line_is name) ls)) @ crlf @ block rest body"
    and raw: "block ls body = pre @ v" and pl: "plain_line (hd (filter (line_is name) ls))"
    using found_split [OF assms(2,3)] by blast
  let ?w = "line_value name (hd (filter (line_is name) ls))"
  have w: "\<forall>c \<in> set ?w. \<not> is_crlf_char c"
    using pl by (auto simp: plain_line_def line_value_def dest!: set_dropWhileD in_set_dropD)
  let ?m = "length (block ls body) - length body - 4 - (length (block ls body) - length v)"
  have m: "length ?w \<le> ?m"
    using length_block [of body rest] by (simp add: raw v)
  have "takeWhile (\<lambda>c. \<not> is_crlf_char c) (take ?m v) = ?w"
  proof (cases "?m = length ?w")
    case True
    then show ?thesis using w unfolding True by (simp add: v)
  next
    case False
    then obtain d where "?m = Suc d + length ?w" using m by (metis add.commute le_Suc_ex add_Suc less_imp_Suc_add le_neq_implies_less)
    then have "take ?m v = ?w @ CHR 0x0D # take d (CHR 0x0A # block rest body)"
      by (simp add: v crlf_def)
    then show ?thesis using w by (simp add: takeWhile_append)
  qed
  then show ?thesis using header_end_block [OF assms(1,2)] by (simp add: value_text_def)
qed

section \<open>Header fields\<close>

definition field_ok :: "string \<times> string \<Rightarrow> bool" where
  "field_ok f = ((\<forall>c \<in> set (fst f @ snd f). \<not> is_crlf_char c \<and> c \<noteq> CHR 0x00) \<and> CHR '':'' \<notin> set (fst f))"

definition field_value :: "string \<Rightarrow> (string \<times> string) list \<Rightarrow> string option" where
  "field_value name hs = map_option (\<lambda>f. dropWhile is_tab_blank (snd f)) (find (\<lambda>f. ci_eq (fst f) name) hs)"

definition request_ok :: "string \<Rightarrow> (string \<times> string) list \<Rightarrow> bool" where
  "request_ok first hs = (plain_line first \<and> CHR '':'' \<notin> set first \<and> (\<forall>f \<in> set hs. field_ok f))"

lemma plain_field: "field_ok f \<Longrightarrow> plain_line (field_line f)"
  by (auto simp: field_ok_def plain_line_def field_line_def is_crlf_char_def)

lemma request_lines_plain: "request_ok first hs \<Longrightarrow> l \<in> set (first # map field_line hs) \<Longrightarrow> plain_line l"
  by (auto simp: request_ok_def plain_field)

lemma to_lower_colon: "to_lower c = CHR '':'' \<longleftrightarrow> c = CHR '':''"
  unfolding cval_eq_iff [symmetric] cval_to_lower by (simp add: cval_def)

lemma ci_eq_colon:
  assumes "ci_eq u v" and "CHR '':'' \<in> set u"
  shows "CHR '':'' \<in> set v"
proof -
  have "CHR '':'' \<in> set (map to_lower u)"
    using assms(2) to_lower_colon [of "CHR '':''"] by (force simp: image_iff)
  then have "CHR '':'' \<in> set (map to_lower v)" using assms(1) by (simp only: ci_eq_def)
  then show ?thesis by (auto simp: to_lower_colon eq_commute [of "CHR '':''" "to_lower _"])
qed

lemma line_is_field:
  assumes "field_ok f" and "CHR '':'' \<notin> set name"
  shows "line_is name (field_line f) = ci_eq (fst f) name"
proof -
  let ?k = "fst f"
  have k: "CHR '':'' \<notin> set ?k" using assms by (simp add: field_ok_def)
  consider "length name < length ?k" | "length name = length ?k" | "length ?k < length name" by linarith
  then show ?thesis
  proof cases
    case 1
    then have "field_line f ! length name \<in> set ?k" by (simp add: field_line_def nth_append)
    then show ?thesis using 1 k ci_eq_length [of ?k name] by (auto simp: line_is_def)
  next
    case 2
    then show ?thesis by (simp add: line_is_def field_line_def)
  next
    case 3
    then have "CHR '':'' \<in> set (take (length name) (field_line f))"
      by (cases "length name - length ?k") (auto simp: field_line_def)
    then have "\<not> ci_eq (take (length name) (field_line f)) name" using assms(2) ci_eq_colon by blast
    then show ?thesis using 3 ci_eq_length [of ?k name] by (auto simp: line_is_def)
  qed
qed

lemma line_value_field: "ci_eq (fst f) name \<Longrightarrow> line_value name (field_line f) = dropWhile is_tab_blank (snd f)"
  using ci_eq_length [of "fst f" name]
  by (simp add: line_value_def field_line_def is_tab_blank_def)

lemma line_is_first: "CHR '':'' \<notin> set l \<Longrightarrow> \<not> line_is name l"
  unfolding line_is_def by (metis nth_mem)

lemma found_fields:
  assumes "\<forall>f \<in> set hs. field_ok f" and "CHR '':'' \<notin> set name"
  shows "found name (map field_line hs) body = None \<longleftrightarrow> find (\<lambda>f. ci_eq (fst f) name) hs = None"
    and "find (\<lambda>f. ci_eq (fst f) name) hs = Some f \<Longrightarrow>
      hd (filter (line_is name) (map field_line hs)) = field_line f"
  using assms by (induction hs) (auto simp: line_is_field split: if_splits)

text \<open>Property C20: on the text of a request, the lookup of a header finds the first field of that name,
  compared without regard to case, and its value without leading blanks; nothing in the body is ever
  taken for a header.\<close>

theorem header_lookup:
  assumes "request_ok first hs" and "CHR '':'' \<notin> set name"
  shows "map_option (value_text (request_text first hs body)) (find_header_value (request_text first hs body) name)
    = field_value name hs"
proof -
  let ?ls = "first # map field_line hs"
  have ls: "\<And>l. l \<in> set ?ls \<Longrightarrow> plain_line l" using request_lines_plain [OF assms(1)] .
  have first: "\<not> line_is name first" using assms by (simp add: request_ok_def line_is_first)
  have hs: "\<forall>f \<in> set hs. field_ok f" using assms by (simp add: request_ok_def)
  note fh = find_header_block [of ?ls body name, OF _ ls]
  show ?thesis
  proof (cases "find (\<lambda>f. ci_eq (fst f) name) hs")
    case None
    then show ?thesis
      using fh first found_fields(1) [OF hs assms(2)] by (simp add: request_text_def field_value_def)
  next
    case (Some f)
    then obtain v where v: "found name ?ls body = Some v"
      using found_fields(1) [OF hs assms(2), of body] first by auto
    have "ci_eq (fst f) name" using Some by (auto simp: find_Some_iff)
    then show ?thesis
      using fh v value_text_block [OF _ ls v] first found_fields(2) [OF hs assms(2) Some] Some
      by (simp add: request_text_def field_value_def line_value_field)
  qed
qed

theorem header_lookup_witness:
  "map_option (value_text (request_text ''GET / HTTP/1.1'' [(''hOST'', '' a:1''), (''Host'', ''b'')] ''Host: c''))
     (find_header_value (request_text ''GET / HTTP/1.1'' [(''hOST'', '' a:1''), (''Host'', ''b'')] ''Host: c'') ''Host'')
   = Some ''a:1''"
  by (subst header_lookup)
    (simp_all add: request_ok_def plain_line_def field_ok_def is_crlf_char_def field_value_def ci_eq_cval
      cval_to_lower is_tab_blank_def, simp_all add: cval_def)

section \<open>The length of a request\<close>

lemma header_pointer:
  assumes "request_ok first hs" and "CHR '':'' \<notin> set name" and "field_value name hs = Some v"
  shows "\<exists>rest. find_header_value (request_text first hs body) name = Some (v @ crlf @ rest)"
proof -
  let ?ls = "first # map field_line hs"
  have ls: "\<And>l. l \<in> set ?ls \<Longrightarrow> plain_line l" using request_lines_plain [OF assms(1)] .
  have first: "\<not> line_is name first" using assms by (simp add: request_ok_def line_is_first)
  have hs: "\<forall>f \<in> set hs. field_ok f" using assms by (simp add: request_ok_def)
  obtain f where f: "find (\<lambda>f. ci_eq (fst f) name) hs = Some f" "v = dropWhile is_tab_blank (snd f)"
    using assms(3) by (auto simp: field_value_def)
  have "ci_eq (fst f) name" using f by (auto simp: find_Some_iff)
  obtain w where w: "found name ?ls body = Some w"
    using found_fields(1) [OF hs assms(2), of body] first f by auto
  with found_split [OF ls w] found_fields(2) [OF hs assms(2) f(1)] first f(2) \<open>ci_eq (fst f) name\<close>
  show ?thesis
    using find_header_block [of ?ls body name, OF _ ls] by (auto simp: request_text_def line_value_field)
qed

lemma header_missing:
  assumes "request_ok first hs" and "CHR '':'' \<notin> set name" and "field_value name hs = None"
  shows "find_header_value (request_text first hs body) name = None"
  using header_lookup [OF assms(1,2), of body] assms(3) by simp

definition head_length :: "string \<Rightarrow> (string \<times> string) list \<Rightarrow> nat" where
  "head_length first hs = length (request_text first hs [])"

lemma request_text_append: "request_text first hs (b @ c) = request_text first hs b @ c"
proof -
  have "block ls (b @ c) = block ls b @ c" for ls by (induction ls) auto
  then show ?thesis by (simp add: request_text_def)
qed

lemma request_text_head: "request_text first hs body = request_text first hs [] @ body"
  using request_text_append [of first hs "[]" body] by simp

lemma length_request: "length (request_text first hs body) = head_length first hs + length body"
  by (subst request_text_head) (simp add: head_length_def)

lemma c_str_append: "CHR 0x00 \<notin> set h \<Longrightarrow> c_str (h @ b) = h @ c_str b"
  by (induction h) (auto simp: c_str_def)

lemma request_no_nul:
  assumes "request_ok first hs"
  shows "CHR 0x00 \<notin> set (request_text first hs [])"
proof -
  have "CHR 0x00 \<notin> set (block ls [])" if "\<And>l. l \<in> set ls \<Longrightarrow> plain_line l" for ls
    using that by (induction ls) (auto simp: crlf_def plain_line_def)
  then show ?thesis unfolding request_text_def using request_lines_plain [OF assms] by blast
qed

lemma c_str_request: "request_ok first hs \<Longrightarrow> c_str (request_text first hs b) = request_text first hs (c_str b)"
  by (metis c_str_append request_no_nul request_text_head)

lemma header_end_request:
  assumes "request_ok first hs"
  shows "header_end (request_text first hs b) = Some (head_length first hs - 4)" "4 \<le> head_length first hs"
proof -
  have four: "4 \<le> length (block (first # ls) [])" for ls by (induction ls) auto
  then show "4 \<le> head_length first hs" by (simp add: head_length_def request_text_def)
  show "header_end (request_text first hs b) = Some (head_length first hs - 4)"
    using header_end_block [of "first # map field_line hs" b, OF _ request_lines_plain [OF assms]]
      length_request [of first hs b] by (simp add: request_text_def)
qed

lemma length_digits_show:
  "int n \<le> LONG_MAX \<Longrightarrow> length_digits 0 (show_base 10 n @ r) = length_digits (int n) r"
proof (induction "10 :: nat" n arbitrary: r rule: show_base.induct)
  case (1 n)
  have digit: "is_digit (digit_char (n mod 10))" "cval (digit_char (n mod 10)) = 48 + n mod 10"
    by (simp_all add: is_digit_def digit_char_def cval_def)
  have n: "n div 10 * 10 + n mod 10 = n" by simp
  show ?case
  proof (cases "n < 10")
    case True
    then show ?thesis using digit by (simp add: show_base.simps [of 10 n] LONG_MAX_def)
  next
    case False
    have sum: "int (n div 10) * 10 + int (n mod 10) = int n"
      by (metis n of_nat_add of_nat_mult of_nat_numeral)
    then have "int (n div 10) * 10 \<le> LONG_MAX - int (n mod 10)" using "1.prems" by linarith
    moreover have "int (n div 10) \<le> LONG_MAX div 10" using "1.prems" by (simp add: zdiv_int zdiv_mono1)
    moreover note sum
    moreover have "int (n div 10) \<le> LONG_MAX" using "1.prems" by linarith
    ultimately show ?thesis
      using False digit "1.hyps" [of "digit_char (n mod 10) # r"] by (simp add: show_base.simps [of 10 n])
  qed
qed

lemma parse_content_length_show:
  assumes "int n \<le> LONG_MAX"
  shows "parse_content_length_safe (show_nat n @ crlf @ rest) = int n"
proof -
  obtain c s where s: "show_nat n = c # s" by (metis neq_Nil_conv show_base_nonempty show_nat_def)
  then have c: "is_digit c" using show_base_digit [of c n] by (simp add: show_nat_def)
  then have "\<not> is_tab_blank c" by (auto simp: is_tab_blank_def is_digit_def cval_def)
  moreover have "length_digits 0 (show_nat n @ crlf @ rest) = Some (int n, crlf @ rest)"
    using length_digits_show [OF assms, of "crlf @ rest"] by (simp add: show_nat_def crlf_def is_digit_def cval_def)
  ultimately show ?thesis
    using c unfolding s by (simp add: parse_content_length_safe_def crlf_def is_tab_blank_def is_crlf_char_def)
qed

section \<open>A request cut into pieces\<close>

text \<open>The fields of a request whose body has a length given in decimal.\<close>

definition sized_request :: "string \<Rightarrow> (string \<times> string) list \<Rightarrow> bytes \<Rightarrow> bool" where
  "sized_request first hs body =
     (request_ok first hs \<and> field_value ''Transfer-Encoding'' hs = None
      \<and> field_value ''Content-Length'' hs = Some (show_nat (length body)) \<and> int (length body) \<le> LONG_MAX)"

lemma not_chunked:
  "sized_request first hs body \<Longrightarrow> \<not> is_chunked_request (request_text first hs b)"
  by (simp add: sized_request_def is_chunked_request_def header_missing)

lemma expected_request:
  assumes "sized_request first hs body"
  shows "http_expected_request_len (request_text first hs b) = head_length first hs + length body"
proof -
  have ok: "request_ok first hs" using assms by (simp add: sized_request_def)
  obtain rest where
    "find_header_value (request_text first hs b) ''Content-Length'' = Some (show_nat (length body) @ crlf @ rest)"
    using header_pointer [OF ok, of "''Content-Length''" "show_nat (length body)" b] assms
    by (auto simp: sized_request_def)
  then show ?thesis
    using header_end_request(1) [OF ok, of b] header_end_request(2) [OF ok] not_chunked [OF assms, of b] assms
    by (simp add: http_expected_request_len_def parse_content_length_show sized_request_def Let_def)
qed

lemma strstr_longer: "strstr a p = Some r \<Longrightarrow> length p \<le> length r \<and> length r \<le> length a"
  using strstr_Some_split [of a p r] by fastforce

lemma strstr_more: "strstr a p = Some r \<Longrightarrow> strstr (a @ s) p = Some (r @ s)"
proof (induction a)
  case Nil
  then show ?case by (cases s) (auto split: if_splits)
next
  case (Cons c a)
  show ?case
  proof (cases "prefix p (c # a)")
    case True
    then have "prefix p ((c # a) @ s)" by (rule prefix_prefix)
    then show ?thesis using True Cons.prems by auto
  next
    case False
    then have r: "strstr a p = Some r" using Cons.prems by simp
    then have "length p \<le> length (c # a)" using strstr_longer [OF r] by simp
    then have "\<not> prefix p (c # a @ s)"
      using False prefix_length_prefix [of p "(c # a) @ s" "c # a"] by auto
    then show ?thesis using Cons.IH [OF r] by simp
  qed
qed

lemma c_str_prefix: "\<exists>s. bs = c_str bs @ s"
  unfolding c_str_def by (metis takeWhile_dropWhile_id)

lemma head_incomplete:
  assumes "request_ok first hs" and "m < head_length first hs"
  shows "header_end (c_str (take m (request_text first hs body))) = None"
proof (rule ccontr)
  let ?R = "request_text first hs body"
  assume "header_end (c_str (take m ?R)) \<noteq> None"
  then obtain r where r: "strstr (c_str (take m ?R)) crlf2 = Some r"
    by (auto simp: header_end_def)
  obtain s where s: "take m ?R = c_str (take m ?R) @ s" using c_str_prefix by blast
  then have "?R = c_str (take m ?R) @ s @ drop m ?R" by (metis append_assoc append_take_drop_id)
  then have "strstr ?R crlf2 = Some (r @ s @ drop m ?R)" using strstr_more [OF r] by metis
  moreover have "strstr ?R crlf2 = Some (crlf2 @ body)"
    using strstr_block [of "first # map field_line hs"] request_lines_plain [OF assms(1)]
    by (simp add: request_text_def)
  ultimately have "length (r @ s @ drop m ?R) = 4 + length body"
    by (metis option.inject length_append crlf_simps(4))
  moreover have "4 \<le> length r" using strstr_longer [OF r] by simp
  ultimately show False using assms(2) by (simp add: length_request)
qed

lemma grow_request_enough: "0 < c \<Longrightarrow> min e 16777216 \<le> grow_request c e"
proof (induction c e rule: grow_request.induct)
  case (1 c e)
  then show ?case by (subst grow_request.simps) auto
qed

lemma take_request:
  assumes "head_length first hs \<le> m"
  shows "take m (request_text first hs body) = request_text first hs (take (m - head_length first hs) body)"
  using assms by (subst (1 2) request_text_head) (simp add: head_length_def)

lemma after_read_head:
  assumes "request_ok first hs" and "m < head_length first hs"
  shows "after_read alloc max_req cap (take m (request_text first hs body)) = More cap"
  using head_incomplete [OF assms, of body]
  by (simp add: after_read_def http_expected_request_len_def is_chunked_request_def find_header_value_def)

lemma after_read_body:
  assumes "sized_request first hs body" and "head_length first hs \<le> m" and "m \<le> L"
    and "L = head_length first hs + length body" and "L \<le> max_req" and "L \<le> 16777216" and "0 < cap"
    and "\<And>k. k \<le> 16777217 \<Longrightarrow> alloc k"
  shows "after_read alloc max_req cap (take m (request_text first hs body)) = Enough \<and> m = L
    \<or> m < L \<and> (\<exists>cap1. L \<le> cap1
        \<and> after_read alloc max_req cap (take m (request_text first hs body)) = More cap1)"
proof -
  have ok: "request_ok first hs" using assms by (simp add: sized_request_def)
  let ?raw = "take m (request_text first hs body)"
  have e: "http_expected_request_len (c_str ?raw) = L"
    using assms(2) expected_request [OF assms(1)] by (simp add: take_request c_str_request ok assms(4))
  have "min L 16777216 \<le> grow_request (cap * 2) L" using assms(7) by (intro grow_request_enough) simp
  then have "L \<le> min (min (grow_request (cap * 2) L) 16777216) max_req" using assms by simp
  moreover have "length ?raw = m" using assms(3,4) by (simp add: length_request)
  moreover have "0 < L" using header_end_request(2) [OF ok] assms(4) by simp
  ultimately show ?thesis
    using assms(3,5,6,8) unfolding after_read_def e Let_def by auto
qed

lemma read_pieces:
  assumes "sized_request first hs body" and "R = request_text first hs body" and "head_length first hs \<le> 1048576"
    and "length R \<le> max_req" and "length R \<le> 16777216" and "\<And>k. k \<le> 16777217 \<Longrightarrow> alloc k"
  shows "raw @ concat ps = R \<Longrightarrow> length raw < length R \<Longrightarrow> [] \<notin> set ps \<Longrightarrow> length raw < cap
    \<Longrightarrow> length raw < head_length first hs \<and> cap = 1048576 \<or> length R \<le> cap
    \<Longrightarrow> read_request alloc max_req cap raw (map Read_Data ps @ es) = Got R"
proof (induction "length (concat ps) + length ps" arbitrary: raw cap ps rule: less_induct)
  case less
  have ok: "request_ok first hs" using assms by (simp add: sized_request_def)
  obtain p ps' where ps: "ps = p # ps'" "p \<noteq> []" using less.prems by (cases ps) auto
  define n where "n = cap - length raw"
  define raw1 where "raw1 = raw @ take n p"
  define m where "m = length raw1"
  have n: "0 < n" using less.prems(4) by (simp add: n_def)
  have R: "R = raw1 @ drop n p @ concat ps'"
    using less.prems(1) by (simp add: raw1_def ps) (metis append_assoc append_take_drop_id)
  then have raw1: "raw1 = take m R" by (simp add: m_def)
  have m: "length raw < m" "m \<le> length R" "m = min cap (length raw + length p)"
    using n ps(2) less.prems(4) R by (auto simp: m_def raw1_def n_def)
  have L: "length R = head_length first hs + length body" by (simp add: assms(2) length_request)
  define ps1 where "ps1 = (if length p \<le> n then ps' else drop n p # ps')"
  have ps1: "raw1 @ concat ps1 = R" "[] \<notin> set ps1" "length (concat ps1) + length ps1 < length (concat ps) + length ps"
    using R less.prems(3) n ps by (auto simp: ps1_def)
  have step: "read_request alloc max_req cap raw (map Read_Data ps @ es) =
    (case after_read alloc max_req cap raw1 of Enough \<Rightarrow> Got raw1 | Too_Much \<Rightarrow> Refused (Some too_large_reply)
     | No_Memory \<Rightarrow> Refused None | More cap1 \<Rightarrow> read_request alloc max_req cap1 raw1 (map Read_Data ps1 @ es))"
    using less.prems(4) ps(2) by (simp add: ps read_request.simps(2) Let_def n_def raw1_def ps1_def split: after_read.split)
  show ?case
  proof (cases "m < head_length first hs")
    case True
    then have "after_read alloc max_req cap raw1 = More cap"
      using after_read_head [OF ok True, of alloc max_req cap body] by (simp add: raw1 assms(2))
    moreover have "m < cap" using True assms(3) less.prems(5) L by auto
    moreover have "cap = 1048576 \<or> length R \<le> cap" using less.prems(5) by auto
    ultimately show ?thesis
      using less.hyps [OF ps1(3,1) _ ps1(2), of cap] True L step by (auto simp: m_def)
  next
    case False
    then have "after_read alloc max_req cap raw1 = Enough \<and> m = length R
      \<or> m < length R \<and> (\<exists>cap1. length R \<le> cap1 \<and> after_read alloc max_req cap raw1 = More cap1)"
      using after_read_body [OF assms(1) _ m(2) L assms(4,5) _ assms(6), of cap] n_def n
      by (auto simp: raw1 assms(2))
    then show ?thesis
    proof (elim disjE conjE exE)
      assume "after_read alloc max_req cap raw1 = Enough" "m = length R"
      then show ?thesis using step raw1 by simp
    next
      fix cap1
      assume "m < length R" "length R \<le> cap1" "after_read alloc max_req cap raw1 = More cap1"
      then show ?thesis using less.hyps [OF ps1(3,1) _ ps1(2), of cap1] step by (simp add: m_def)
    qed
  qed
qed

lemma read_sized_body:
  assumes "sized_request first hs body"
  shows "read_http_body alloc cfg (request_text first hs body) = Body (c_str body) (length body)"
proof -
  let ?R = "request_text first hs body"
  have ok: "request_ok first hs" using assms by (simp add: sized_request_def)
  obtain rest where
    "find_header_value (request_text first hs (c_str body)) ''Content-Length'' = Some (show_nat (length body) @ crlf @ rest)"
    using header_pointer [OF ok, of "''Content-Length''" "show_nat (length body)" "c_str body"] assms
    by (auto simp: sized_request_def)
  moreover have "c_str ([] :: bytes) = []" by (simp add: c_str_def)
  moreover have "drop (head_length first hs) ?R = body"
    by (subst request_text_head) (simp add: head_length_def)
  ultimately show ?thesis
    using header_end_request(1) [OF ok, of "c_str body"] header_end_request(2) [OF ok]
      not_chunked [OF assms, of "c_str body"] assms
    by (auto simp: read_http_body_def c_str_request [OF ok] parse_content_length_show sized_request_def Let_def)
qed

text \<open>Property C9: a request with a Content-Length is read back exactly, header and body, however its
  bytes are cut into reads, when it is within the limits and memory is granted.\<close>

theorem request_read_whole:
  assumes "sized_request first hs body" and "concat ps = request_text first hs body" and "[] \<notin> set ps"
    and "head_length first hs \<le> 1048576"
    and "length (request_text first hs body) \<le> min 16777216 (size_of_int (cf_max_request_size cfg))"
    and "\<And>k. k \<le> 16777217 \<Longrightarrow> alloc k"
  shows "read_http_request alloc cfg (map Read_Data ps @ es) = Got (request_text first hs body)
    \<and> read_http_body alloc cfg (request_text first hs body) = Body (c_str body) (length body)"
proof
  let ?R = "request_text first hs body"
  have ok: "request_ok first hs" using assms by (simp add: sized_request_def)
  have "0 < head_length first hs" using header_end_request(2) [OF ok] by simp
  then show "read_http_request alloc cfg (map Read_Data ps @ es) = Got ?R"
    using read_pieces [where max_req = "size_of_int (cf_max_request_size cfg)" and raw = "[]" and ps = ps
        and cap = 1048576 and es = es, OF assms(1) refl assms(4) _ _ assms(6)]
      assms(2,3,5,6) length_request [of first hs body] by (simp add: read_http_request_def)
qed (rule read_sized_body [OF assms(1)])

definition sample_fields :: "(string \<times> string) list" where
  "sample_fields = [(''Host'', ''localhost''), (''Content-Length'', ''2'')]"

lemma show_two: "show_nat (length ''{}'') = ''2''"
  by (simp add: show_nat_def show_base.simps [of _ "Suc (Suc 0)"] digit_char_def char_of_def bit_0)

lemma sample_sized: "sized_request ''POST /v1/responses HTTP/1.1'' sample_fields ''{}''"
  by (simp add: sized_request_def request_ok_def plain_line_def field_ok_def is_crlf_char_def field_value_def
      sample_fields_def ci_eq_cval cval_to_lower is_tab_blank_def show_two [simplified]
      LONG_MAX_def)

theorem request_read_whole_witness:
  "read_http_request (\<lambda>_. True) (init_global_config 8080)
     [Read_Data ''POST /v1/responses HTT'',
      Read_Data (''P/1.1'' @ crlf @ ''Host: localhost'' @ [CHR 0x0D]),
      Read_Data ([CHR 0x0A] @ ''Content-Length: 2'' @ crlf @ crlf @ ''{''), Read_Data ''}'']
   = Got (request_text ''POST /v1/responses HTTP/1.1'' sample_fields ''{}'')"
  using request_read_whole [OF sample_sized, where cfg = "init_global_config 8080" and alloc = "\<lambda>_. True" and es = "[]"
      and ps = "[''POST /v1/responses HTT'', ''P/1.1'' @ crlf @ ''Host: localhost'' @ [CHR 0x0D],
        [CHR 0x0A] @ ''Content-Length: 2'' @ crlf @ crlf @ ''{'', ''}'']"]
  by (simp add: request_text_def sample_fields_def field_line_def crlf_def block_def head_length_def
      init_global_config_def size_of_int_def)

section \<open>Hexadecimal sizes\<close>

lemma hex_value_digit: "d < 16 \<Longrightarrow> hex_value (digit_char d) = Some d"
  by (cases "d < 10") (auto simp: hex_value_def digit_char_def is_digit_def cval_to_lower, auto simp: cval_def)

lemma hex_value_code:
  "hex_value c =
     (let m = of_char c :: nat; n = (if 65 \<le> m \<and> m \<le> 90 then m + 32 else m)
      in if 48 \<le> m \<and> m \<le> 57 then Some (n - 48) else if 97 \<le> n \<and> n \<le> 102 then Some (n - 87) else None)"
  unfolding hex_value_def is_digit_def cval_to_lower Let_def by (simp only: cval_def)

lemma show_hex_digits: "\<forall>c \<in> set (show_base 16 n). hex_value c \<noteq> None"
proof (induction "16 :: nat" n rule: show_base.induct)
  case (1 n)
  then show ?case
    by (cases "n < 16") (auto simp: show_base.simps [of 16 n] hex_value_digit [of "n mod 16"] hex_value_digit [of n])
qed

lemma hex_digits_show: "hex_digits 0 (show_base 16 n @ r) = hex_digits n r"
proof (induction "16 :: nat" n arbitrary: r rule: show_base.induct)
  case (1 n)
  show ?case
  proof (cases "n < 16")
    case True
    then show ?thesis by (simp add: show_base.simps [of 16 n] hex_value_digit)
  next
    case False
    then show ?thesis
      using "1.hyps" [of "digit_char (n mod 16) # r"] hex_value_digit [of "n mod 16"]
      by (simp add: show_base.simps [of 16 n])
  qed
qed

lemma length_show_hex: "n < 16 ^ Suc k \<Longrightarrow> length (show_base 16 n) \<le> Suc k"
proof (induction k arbitrary: n)
  case 0
  then show ?case by (simp add: show_base.simps [of 16 n])
next
  case (Suc k)
  have "n div 16 < 16 ^ Suc k" using Suc.prems by (simp add: div_less_iff_less_mult mult.commute)
  then show ?case using Suc.IH [of "n div 16"] by (simp add: show_base.simps [of 16 n])
qed

lemma hex_char:
  assumes "hex_value c \<noteq> None"
  shows "\<not> is_crlf_char c" "c \<noteq> CHR 0x00" "\<not> is_space c" "c \<noteq> CHR ''-''" "c \<noteq> CHR ''+''" "to_lower c \<noteq> CHR ''x''"
proof -
  have n: "48 \<le> cval c \<and> cval c \<le> 57 \<or> 97 \<le> cval (to_lower c) \<and> cval (to_lower c) \<le> 102"
    using assms by (auto simp: hex_value_def is_digit_def Let_def split: if_splits)
  then show "\<not> is_crlf_char c" "c \<noteq> CHR 0x00" "\<not> is_space c" "c \<noteq> CHR ''-''" "c \<noteq> CHR ''+''"
    unfolding cval_to_lower by (auto simp: is_crlf_char_def is_space_def cval_def split: if_splits)
  have "cval (to_lower c) \<noteq> cval (CHR ''x'')"
    using n unfolding cval_to_lower by (auto simp: cval_def split: if_splits)
  then show "to_lower c \<noteq> CHR ''x''" by metis
qed

lemma strtol16_show:
  assumes "int n \<le> LONG_MAX"
  shows "strtol16 (show_hex n) = int n"
proof -
  have hex: "\<And>c. c \<in> set (show_hex n) \<Longrightarrow> hex_value c \<noteq> None"
    using show_hex_digits by (simp add: show_hex_def)
  obtain c s where s: "show_hex n = c # s" by (metis neq_Nil_conv show_base_nonempty show_hex_def)
  have "\<not> ci_eq (take 2 (c # s)) ''0x''"
  proof
    assume ci: "ci_eq (take 2 (c # s)) ''0x''"
    then obtain d t where "s = d # t" "to_lower d = to_lower (CHR ''x'')"
      using ci_eq_length [OF ci] by (cases s) (auto simp: ci_eq_def)
    then show False using hex [of d] hex_char(6) [of d] s by (simp add: to_lower_def cval_def)
  qed
  then show ?thesis
    using assms hex [of c] hex_char [of c] hex_digits_show [of n "[]"] s
    by (auto simp: strtol16_def Let_def show_hex_def)
qed

section \<open>A chunked body\<close>

definition chunk_text :: "bytes \<Rightarrow> bytes" where
  "chunk_text c = show_hex (length c) @ crlf @ c @ crlf"

definition chunked :: "bytes list \<Rightarrow> bytes" where
  "chunked cs = concat (map chunk_text cs) @ ''0'' @ crlf @ crlf"

lemma takeWhile_stop: "(\<And>x. x \<in> set xs \<Longrightarrow> P x) \<Longrightarrow> \<not> P y \<Longrightarrow> takeWhile P (xs @ y # ys) = xs"
  by (induction xs) auto

lemma next_chunk_line:
  assumes "h \<noteq> []" and "\<And>c. c \<in> set h \<Longrightarrow> hex_value c \<noteq> None" and "length h \<le> 31"
  shows "next_chunk (h @ crlf @ p) =
    (if strtol16 h < 0 then Bad else if strtol16 h = 0 then Last else Chunk (nat (strtol16 h)) p)"
proof -
  obtain c s where h: "h = c # s" using assms(1) by (cases h) auto
  have "dropWhile is_crlf_char (h @ crlf @ p) = h @ crlf @ p"
    using hex_char(1) [of c] assms(2) h by simp
  moreover have "takeWhile (\<lambda>c. \<not> is_crlf_char c) (h @ crlf @ p) = h"
    unfolding crlf_def append_Cons using assms(2) hex_char(1) by (intro takeWhile_stop) (auto simp: is_crlf_char_def)
  moreover have "c_str (take 31 h) = h"
    using assms(2,3) hex_char(2) by (auto simp: c_str_def takeWhile_eq_all_conv)
  ultimately show ?thesis using h by (simp add: next_chunk_def crlf_def)
qed

lemma next_chunk_text:
  assumes "c \<noteq> []" and "length c \<le> 16777216"
  shows "next_chunk (chunk_text c @ p) = Chunk (length c) (c @ crlf @ p)"
proof -
  have "length c < 16 ^ Suc 30" using assms(2) by (rule order_le_less_trans) simp
  then have "length (show_hex (length c)) \<le> 31"
    using length_show_hex [of "length c" 30] by (simp add: show_hex_def)
  moreover have "strtol16 (show_hex (length c)) = int (length c)"
    using assms(2) by (intro strtol16_show) (simp add: LONG_MAX_def)
  ultimately show ?thesis
    using next_chunk_line [of "show_hex (length c)" "c @ crlf @ p"] show_hex_digits assms(1)
    by (simp add: chunk_text_def show_hex_def)
qed

lemma next_chunk_last: "next_chunk (''0'' @ crlf @ p) = Last"
proof -
  have "hex_value (CHR ''0'') = Some 0" "strtol16 ''0'' = 0"
    using hex_value_digit [of 0] strtol16_show [of 0]
    by (simp_all add: show_hex_def show_base.simps [of _ 0] digit_char_def LONG_MAX_def char_of_def bit_0)
  then show ?thesis using next_chunk_line [of "''0''" p] by simp
qed

lemma grow_cap_returns:
  "0 < unat c \<Longrightarrow> unat need \<le> 16777216 \<Longrightarrow> \<exists>w. grow_cap c need = Some w \<and> need \<le> w"
proof (induction "16777216 - unat c" arbitrary: c rule: less_induct)
  case less
  show ?case
  proof (cases "c < need")
    case True
    then have "unat c < 16777216" using less.prems(2) by (simp add: word_less_nat_alt)
    then have "unat (c * 2) = unat c * 2"
      by (subst unat_mult_lem [THEN iffD1]) simp_all
    then show ?thesis
      using True less.hyps [of "c * 2"] less.prems \<open>unat c < _\<close> by (simp add: grow_cap.simps [of c])
  next
    case False
    then show ?thesis by (simp add: grow_cap.simps [of c])
  qed
qed

lemma chunk_capacity_ok:
  assumes "need \<le> 16777216" and "0 < cap" and "cap \<le> 16777216" and "\<And>k. k \<le> 16777217 \<Longrightarrow> alloc k"
  shows "\<exists>cap1. chunk_capacity alloc cap need = Some (Some cap1) \<and> 0 < cap1 \<and> cap1 \<le> 16777216"
proof (cases "need \<le> cap")
  case False
  have "unat (of_nat (cap * 2) :: u64) = cap * 2" "unat (of_nat need :: u64) = need"
    using assms by (simp_all only: unat_of_nat, simp_all)
  then obtain w where w: "grow_cap (of_nat (cap * 2)) (of_nat need) = Some w" "of_nat need \<le> w"
    using grow_cap_returns [of "of_nat (cap * 2)" "of_nat need"] assms by auto
  have "need \<le> unat w" using w(2) \<open>unat (of_nat need :: u64) = need\<close> by (metis word_le_nat_alt)
  then show ?thesis using False w(1) assms by (simp add: chunk_capacity_def Let_def)
qed (use assms in \<open>simp add: chunk_capacity_def\<close>)

lemma decode_chunked:
  assumes "\<And>k. k \<le> 16777217 \<Longrightarrow> alloc k"
  shows "[] \<notin> set cs \<Longrightarrow> length decoded + length (concat cs) \<le> min 16777216 max_body \<Longrightarrow> 0 < cap \<Longrightarrow> cap \<le> 16777216
    \<Longrightarrow> decode_chunks alloc max_body decoded cap (chunked cs)
      = Body (c_str (decoded @ concat cs)) (length decoded + length (concat cs))"
proof (induction cs arbitrary: decoded cap)
  case Nil
  have "next_chunk (chunked []) = Last" using next_chunk_last [of crlf] by (simp add: chunked_def)
  then show ?case by (simp add: decode_chunks.simps [of _ _ _ _ "chunked []"])
next
  case (Cons c cs)
  then obtain cap1 where cap1: "chunk_capacity alloc cap (length decoded + length c) = Some (Some cap1)" "0 < cap1" "cap1 \<le> 16777216"
    using chunk_capacity_ok [of "length decoded + length c" cap alloc] assms by auto
  have eq: "chunked (c # cs) = chunk_text c @ chunked cs" by (simp add: chunked_def)
  have "c \<noteq> []" using Cons.prems(1) by (metis list.set_intros(1))
  then have nc: "next_chunk (chunked (c # cs)) = Chunk (length c) (c @ crlf @ chunked cs)"
    unfolding eq using Cons.prems(2) by (intro next_chunk_text) simp_all
  have "after_chunk (length c) (c @ crlf @ chunked cs) = chunked cs"
    using \<open>c \<noteq> []\<close> by (simp add: after_chunk_def skip_char_def crlf_def)
  then show ?case
    using Cons.prems Cons.IH [of "decoded @ c" cap1] cap1
    by (simp add: decode_chunks.simps [of _ _ _ _ "chunked (c # cs)"] nc)
qed

definition chunked_request :: "string \<Rightarrow> (string \<times> string) list \<Rightarrow> bool" where
  "chunked_request first hs =
     (request_ok first hs \<and> (\<exists>te. field_value ''Transfer-Encoding'' hs = Some te \<and> has_infix_ci te ''chunked''))"

lemma read_chunked_body:
  assumes "chunked_request first hs" and "alloc 65537"
  shows "read_http_body alloc cfg (request_text first hs body) =
    decode_chunks alloc (size_of_int (cf_max_request_size cfg)) [] 65536 body"
proof -
  have ok: "request_ok first hs" using assms by (simp add: chunked_request_def)
  have "is_chunked_request (request_text first hs (c_str body))"
    using header_lookup [OF ok, of "''Transfer-Encoding''" "c_str body"] assms(1)
    by (auto simp: chunked_request_def is_chunked_request_def split: option.splits)
  moreover have "drop (head_length first hs) (request_text first hs body) = body"
    by (subst request_text_head) (simp add: head_length_def)
  ultimately show ?thesis
    using header_end_request(1) [OF ok, of "c_str body"] header_end_request(2) [OF ok] assms(2)
    by (simp add: read_http_body_def c_str_request [OF ok])
qed

text \<open>Property C19: the chunks of a body sent with the chunked encoding are put together again: the
  decoded body is their concatenation, whatever bytes they hold.\<close>

theorem chunked_roundtrip:
  assumes "chunked_request first hs" and "[] \<notin> set cs"
    and "length (concat cs) \<le> min 16777216 (size_of_int (cf_max_request_size cfg))"
    and "\<And>k. k \<le> 16777217 \<Longrightarrow> alloc k"
  shows "read_http_body alloc cfg (request_text first hs (chunked cs)) = Body (c_str (concat cs)) (length (concat cs))"
  using read_chunked_body [OF assms(1), of alloc cfg "chunked cs"] assms(2-4)
    decode_chunked [of alloc cs "[]" "size_of_int (cf_max_request_size cfg)" 65536, OF assms(4)] by simp

definition chunked_fields :: "(string \<times> string) list" where
  "chunked_fields = [(''Transfer-Encoding'', ''gzip, Chunked'')]"

lemma sample_chunked: "chunked_request ''POST /v1/responses HTTP/1.1'' chunked_fields"
proof -
  have "has_infix_ci ''gzip, Chunked'' ''chunked''"
    by (simp add: ci_eq_vals Let_def)
  then show ?thesis
    by (simp add: chunked_request_def request_ok_def plain_line_def field_ok_def is_crlf_char_def field_value_def
        chunked_fields_def is_tab_blank_def)
qed

theorem chunked_roundtrip_witness:
  "read_http_body (\<lambda>_. True) (init_global_config 8080)
     (request_text ''POST /v1/responses HTTP/1.1'' chunked_fields (chunked [''{'', [CHR 0x0D, CHR 0x0A], ''}'']))
   = Body (''{'' @ [CHR 0x0D, CHR 0x0A] @ ''}'') 4"
  by (subst chunked_roundtrip [OF sample_chunked])
    (simp_all add: init_global_config_def size_of_int_def c_str_def)

lemma grow_cap_zero: "grow_cap c need = Some w \<Longrightarrow> \<not> (c = 0 \<and> 0 < need)"
proof (rule grow_cap.raw_induct [where P = "\<lambda>c need w. \<not> (c = 0 \<and> 0 < need)", rotated])
  fix grow :: "u64 \<Rightarrow> u64 \<Rightarrow> u64 option" and c need w
  assume "\<And>c need w. grow c need = Some w \<Longrightarrow> \<not> (c = 0 \<and> 0 < need)"
    and "(if c < need then grow (c * 2) need else Some c) = Some w"
  then show "\<not> (c = 0 \<and> 0 < need)" by (metis mult_zero_left)
qed

lemma grow_cap_never:
  "2 ^ 63 < unat need \<Longrightarrow> j \<le> 63 \<Longrightarrow> unat c = 2 ^ j \<Longrightarrow> grow_cap c need = None"
proof (induction "63 - j" arbitrary: j c)
  case 0
  then have j: "j = 63" by simp
  have "unat (c * 2) = 0" using 0 unfolding j by (simp add: unat_word_ariths)
  then have "c * 2 = 0" by (simp add: unat_eq_0)
  moreover have "grow_cap c need = grow_cap (c * 2) need"
    using 0 unfolding j by (simp only: grow_cap.simps [of c] word_less_nat_alt if_True)
  moreover have "0 < need" using 0 by (simp add: word_less_nat_alt)
  ultimately show ?case using grow_cap_zero [of 0 need] by (cases "grow_cap 0 need") auto
next
  case (Suc k)
  then have "(2 :: nat) ^ Suc j < 2 ^ 64" by (intro power_strict_increasing) simp_all
  then have "unat (c * 2) = 2 ^ Suc j"
    using Suc power_increasing [of "Suc j" 63 "2 :: nat"] by (subst unat_mult_lem [THEN iffD1]) (simp_all del: power_increasing_iff)
  moreover have "c < need"
    using Suc.prems power_increasing [of j 63 "2 :: nat"] unfolding word_less_nat_alt by linarith
  ultimately show ?case
    using Suc.hyps(1) [of "Suc j" "c * 2"] Suc.hyps(2) Suc.prems by (simp add: grow_cap.simps [of c])
qed



end
