(* ===== verification/Http_Safety.thy ===== *)
theory Http_Safety
  imports Http_Endpoints Http_Properties
begin

text \<open>
  Properties of the server as a whole. Its effect on the engine is abstracted to the step relation
  \<open>engine_step\<close>; whatever connections are served, the engine moves along these steps only
  (\<open>connection_steps\<close>), so an invariant of the steps is one of the server.
\<close>

section \<open>What sending leaves alone\<close>

named_theorems sending

lemma write_all_keeps [sending]:
  "sv_eng (write_all d sv) = sv_eng sv" "sv_history (write_all d sv) = sv_history sv"
  "sv_counter (write_all d sv) = sv_counter sv" "sv_clients (write_all d sv) = sv_clients sv"
  "sv_closed (write_all d sv) = sv_closed sv" "cn_live (sv_conn (write_all d sv)) = cn_live (sv_conn sv)"
  by (simp_all add: write_all_def split: prod.splits)

lemma send_keeps [sending]:
  "sv_eng (send_http st ct b sv) = sv_eng sv" "sv_history (send_http st ct b sv) = sv_history sv"
  "sv_counter (send_http st ct b sv) = sv_counter sv" "sv_clients (send_http st ct b sv) = sv_clients sv"
  "sv_closed (send_http st ct b sv) = sv_closed sv"
  "sv_eng (send_json st b sv) = sv_eng sv" "sv_history (send_json st b sv) = sv_history sv"
  "sv_counter (send_json st b sv) = sv_counter sv" "sv_clients (send_json st b sv) = sv_clients sv"
  "sv_closed (send_json st b sv) = sv_closed sv"
  "sv_eng (send_sse ev b sv) = sv_eng sv"
  by (simp_all add: send_json_def send_http_def send_sse_def Let_def sending)

lemma replies_keep [sending]:
  "sv_eng (oom_reply sv) = sv_eng sv" "sv_eng (compact_failed m sv) = sv_eng sv" "sv_eng (compact_done m sv) = sv_eng sv"
  "sv_eng (response_failed req out sv) = sv_eng sv" "sv_eng (handle_models sv) = sv_eng sv"
  "sv_eng (count_request sv) = sv_eng sv" "sv_eng (close_conn sv) = sv_eng sv"
  "sv_eng (accept_conn v sv) = sv_eng sv" "sv_eng (on_engine f sv) = f (sv_eng sv)"
  by (simp_all add: oom_reply_def compact_failed_def compact_done_def response_failed_def handle_models_def
      count_request_def close_conn_def accept_conn_def on_engine_def Let_def sending)

section \<open>Steps of the engine\<close>

inductive engine_step :: "engine \<Rightarrow> engine \<Rightarrow> bool" where
  Step_Health: "engine_step e (snd (engine_health_check d e))"
| Step_Cancel: "engine_step e (engine_cancel e)"
| Step_Flag: "engine_step e (e\<lparr>en_turn_event_limited := False\<rparr>)"
| Step_Index: "engine_step e (e\<lparr>en_sessions := sx\<rparr>)"
| Step_Read: "\<not> cf_use_framed_protocol (en_cfg e) \<Longrightarrow> engine_step e (snd (engine_read_text n e))"
| Step_Pipe: "\<not> cf_use_framed_protocol (en_cfg e) \<Longrightarrow> engine_step e (pipe_request env req input e)"
| Step_Turn: "cf_use_framed_protocol (en_cfg e) \<Longrightarrow> tc_eng tc = e \<Longrightarrow> framed_turn env tc = Some (Ret (ok, tc'))
    \<Longrightarrow> engine_step e (tc_eng tc')"
| Step_Compact: "cf_use_framed_protocol (en_cfg e) \<Longrightarrow> tc_eng tc = e \<Longrightarrow> run_phases env tc = Some (Ret (ok, tc'))
    \<Longrightarrow> engine_step e (engine_set_turn_active False (tc_eng (turn_cleanup tc')))"

abbreviation engine_steps :: "engine \<Rightarrow> engine \<Rightarrow> bool" where
  "engine_steps \<equiv> engine_step\<^sup>*\<^sup>*"

lemma step_one [intro]: "engine_step e e' \<Longrightarrow> engine_steps e e'"
  by (rule r_into_rtranclp)

lemma pipe_chunks_steps:
  "pipe_chunks w off rest e s = (b, e', s') \<Longrightarrow> engine_steps e e'"
proof (induction w off rest e s arbitrary: b e' s' rule: pipe_chunks.induct)
  case (1 w off rest e s)
  show ?case
  proof (cases "rest = [] \<or> en_cancelled e \<or> \<not> w off")
    case True
    then show ?thesis using "1.prems" by (auto simp: pipe_chunks.simps [of w off rest] Step_Cancel split: if_splits)
  next
    case False
    obtain ok s1 where d: "responses_stream_emit_text_delta (take 4096 rest) s = (ok, s1)" by force
    show ?thesis
    proof (cases ok)
      case True
      then show ?thesis using "1.prems" False d
        by (intro "1.IH" [where b = b and s' = s']) (auto simp: pipe_chunks.simps [of w off rest])
    qed (use "1.prems" False d in \<open>auto simp: pipe_chunks.simps [of w off rest]\<close>)
  qed
qed

lemma buffered_steps:
  "buffered_content cfg e = (c, t, e') \<Longrightarrow> \<not> cf_use_framed_protocol (en_cfg e) \<Longrightarrow> engine_steps e e'"
  using Step_Read [of e "of_nat (nat (cf_max_output_buffer cfg))"]
  by (auto simp: buffered_content_def Let_def split: prod.splits)

lemma pipe_stream_steps:
  "pipe_stream env s e = (e', s') \<Longrightarrow> \<not> cf_use_framed_protocol (en_cfg e) \<Longrightarrow> engine_steps e e'"
  by (auto simp: pipe_stream_def dest!: buffered_steps pipe_chunks_steps split: prod.splits sum.splits bool.splits
      intro: rtranclp_trans)

lemma stream_handler_steps: "engine_steps (sv_eng sv) (sv_eng (handle_response_stream env sv))"
  by (auto simp: handle_response_stream_def sending dest: pipe_stream_steps split: prod.splits)

lemma block_handler_steps:
  assumes "handle_response_block env out sv = Ret sv'"
  shows "engine_steps (sv_eng sv) (sv_eng sv')"
proof -
  obtain c t e1 where b: "block_content (sv_cfg sv) out (sv_eng sv) = (c, t, e1)" by (metis surj_pair)
  have "engine_steps (sv_eng sv) e1"
    using b buffered_steps [of "sv_cfg sv" "sv_eng sv" c t e1] by (auto simp: block_content_def split: if_splits)
  moreover have "sv_eng sv' = e1\<lparr>en_turn_event_limited := False\<rparr>"
    using assms b by (auto simp: handle_response_block_def Let_def sending split: option.splits)
  ultimately show ?thesis by (simp add: rtranclp.rtrancl_into_rtrancl Step_Flag)
qed

lemma after_turn_keeps [sending]:
  "sv_eng (after_turn tc sv) = tc_eng tc" "sv_closed (after_turn tc sv) = sv_closed sv"
  by (simp_all add: after_turn_def Let_def)

lemma turn_init_eng [sending]:
  "tc_eng (response_turn env req input sv) = sv_eng sv" "tc_eng (compact_turn p q sv) = sv_eng sv"
  by (simp_all add: response_turn_def compact_turn_def turn_context_init_def Let_def)

lemma native_steps:
  assumes "handle_response_native env req sv = Some (Ret (ok, out, sv'))"
  shows "engine_steps (sv_eng sv) (sv_eng sv')"
  using assms
  by (auto simp: handle_response_native_def sending dest!: Step_Turn [OF _ turn_init_eng(1)] intro: step_one [OF Step_Pipe]
      split: option.splits if_splits c_run.splits prod.splits)

lemma run_request_steps:
  assumes "run_request env req sv = Some (Ret sv')"
  shows "engine_steps (sv_eng sv) (sv_eng sv')"
proof -
  obtain ok out sv1 where n: "handle_response_native env req sv = Some (Ret (ok, out, sv1))"
    using assms by (auto simp: run_request_def split: option.splits c_run.splits)
  have "engine_steps (sv_eng sv1) (sv_eng sv')"
    using assms n stream_handler_steps [of sv1 env] block_handler_steps [of env out sv1 sv']
    by (cases ok) (auto simp: run_request_def sending split: if_splits)
  then show ?thesis using native_steps [OF n] by (rule rtranclp_trans [rotated])
qed

lemma answer_body_steps:
  assumes "answer_body env raw body sv = Some (Ret sv')"
  shows "engine_steps (sv_eng sv) (sv_eng sv')"
  using assms run_request_steps [of env _ "sv\<lparr>sv_gzip := gzip_accepted raw\<rparr>" sv']
  by (auto simp: answer_body_def Let_def sending split: if_splits sum.splits)

lemma handle_response_steps:
  "server_handle_response env raw sv = Some (Ret sv') \<Longrightarrow> engine_steps (sv_eng sv) (sv_eng sv')"
  using answer_body_steps [of env "c_str raw" _ "count_request sv" sv']
  by (auto simp: server_handle_response_def Let_def sending split: http_body.splits)

lemma run_compact_steps:
  assumes "run_compact env p q sv = Some (Ret sv')" and "cf_use_framed_protocol (sv_cfg sv)"
  shows "engine_steps (sv_eng sv) (sv_eng sv')"
  using assms
  by (auto simp: run_compact_def Let_def sending on_eng_def dest!: Step_Compact [OF _ turn_init_eng(2)]
      split: option.splits if_splits c_run.splits prod.splits)

lemma handle_compact_steps:
  "handle_compact env raw sv = Some (Ret sv') \<Longrightarrow> engine_steps (sv_eng sv) (sv_eng sv')"
  using run_compact_steps [of env _ _ "count_request sv" sv']
  by (auto simp: handle_compact_def compact_body_def Let_def sending split: http_body.splits if_splits)

lemma handle_debug_steps: "engine_steps (sv_eng sv) (sv_eng (handle_debug env sv))"
proof (cases "cf_trace (sv_cfg sv)")
  case True
  let ?b = "build_debug_session_json (tv_parse (sv_turn env)) (sv_trace env) 70000 (sv_eng sv)"
  obtain sx where "snd ?b = (sv_eng sv)\<lparr>en_sessions := sx\<rparr>" using debug_session_keeps by blast
  then have "engine_step (sv_eng sv) (snd ?b)" by (simp add: Step_Index)
  then show ?thesis using True by (auto simp: handle_debug_def sending split: prod.splits)
qed (simp add: handle_debug_def sending)

lemma dispatch_steps:
  "dispatch env raw sv = Some (Ret sv') \<Longrightarrow> engine_steps (sv_eng sv) (sv_eng sv')"
  using handle_compact_steps [of env raw sv sv'] handle_response_steps [of env raw sv sv'] handle_debug_steps [of sv env]
    Step_Health [of "sv_eng sv" "cf_response_timeout_ms (sv_cfg sv)"] Step_Cancel [of "sv_eng sv"]
  by (auto simp: dispatch_def handle_health_def handle_cancel_def sending split: prod.splits route.splits)

lemma serve_request_steps:
  "serve_request env raw sv = Some (Ret sv') \<Longrightarrow> engine_steps (sv_eng sv) (sv_eng sv')"
  by (auto simp: serve_request_def sending dest: dispatch_steps split: auth.splits if_splits)

lemma connection_steps:
  assumes "serve_connection v sv = Some (Ret sv')"
  shows "engine_steps (sv_eng sv) (sv_eng sv')"
  using assms serve_request_steps [of "vi_env v" _ "accept_conn v sv"]
  by (fastforce simp: serve_connection_def Let_def sending split: http_in.splits option.splits if_splits c_run.splits)

lemma server_steps:
  "start_codex_api_server vs sv = Some (Ret sv') \<Longrightarrow> engine_steps (sv_eng sv) (sv_eng sv')"
proof (induction vs arbitrary: sv)
  case (Cons v vs)
  then obtain sv1 where s: "serve_connection v sv = Some (Ret sv1)" "start_codex_api_server vs sv1 = Some (Ret sv')"
    by (auto split: option.splits c_run.splits)
  show ?case using connection_steps [OF s(1)] Cons.IH [OF s(2)] by (rule rtranclp_trans)
qed simp

section \<open>Invariants of the steps\<close>

lemma write_frame_flags [simp]:
  "en_cancelled (engine_write_frame j e) = en_cancelled e" "en_turn_active (engine_write_frame j e) = en_turn_active e"
  by (simp_all add: engine_write_frame_def write_frame_ok_def split: prod.splits)

lemma send_error_flags [simp]:
  "en_cancelled (engine_send_error t d e) = en_cancelled e" "en_turn_active (engine_send_error t d e) = en_turn_active e"
  by (simp_all add: engine_send_error_def)

lemma read_frame_flags:
  "engine_read_frame_timeout d e = (r, e') \<Longrightarrow> en_cancelled e' = en_cancelled e \<and> en_turn_active e' = en_turn_active e"
  by (auto simp: engine_read_frame_timeout_def Let_def split: if_splits prod.splits)

lemma exchange_flags:
  "engine_exchange j d e = (r, e') \<Longrightarrow>
   en_cancelled e' = en_cancelled e \<and> en_turn_active e' = en_turn_active e \<and> en_cfg e' = en_cfg e"
  using exchange_cfg [of j d e]
  by (auto simp: engine_exchange_def dest: read_frame_flags split: if_splits prod.splits simp del: exchange_cfg)

lemma health_flags:
  "en_cancelled (snd (engine_health_check d e)) = en_cancelled e"
  "en_turn_active (snd (engine_health_check d e)) = en_turn_active e"
  "en_cfg (snd (engine_health_check d e)) = en_cfg e"
  by (auto simp: engine_health_check_def Let_def dest: exchange_flags split: prod.splits option.splits)

lemma cancel_flags:
  "en_cancelled (engine_cancel e)" "en_turn_active (engine_cancel e) = en_turn_active e" "en_cfg (engine_cancel e) = en_cfg e"
  by (simp_all add: engine_cancel_def engine_write_frame_def write_frame_ok_def Let_def split: prod.splits)

lemma stdin_flags [simp]:
  "en_cancelled (engine_write_stdin d e) = en_cancelled e" "en_turn_active (engine_write_stdin d e) = en_turn_active e"
  "en_cfg (engine_write_stdin d e) = en_cfg e"
  by (simp_all add: engine_write_stdin_def split: prod.splits)

lemma pipe_request_flags:
  "en_cancelled (pipe_request env req input e) = en_cancelled e"
  "en_turn_active (pipe_request env req input e) = en_turn_active e"
  "en_cfg (pipe_request env req input e) = en_cfg e"
  by (simp_all add: pipe_request_def resolve_and_inject_reasoning_def engine_push_text_def engine_push_html_def Let_def
      split: prod.splits)

lemma read_text_flags:
  "en_cancelled (snd (engine_read_text n e)) = en_cancelled e" "en_turn_active (snd (engine_read_text n e)) = en_turn_active e"
  "en_cfg (snd (engine_read_text n e)) = en_cfg e"
  by (simp_all add: engine_read_text_def split: prod.splits)

text \<open>No turn is active, and the configuration is what it was.\<close>

lemma step_settled:
  assumes "engine_step e e'" and "\<not> en_turn_active e"
  shows "\<not> en_turn_active e' \<and> en_cfg e' = en_cfg e"
  using assms
proof (induction rule: engine_step.induct)
  case (Step_Turn e tc env ok tc')
  then show ?case using framed_turn_settled [OF Step_Turn(3)] by auto
next
  case (Step_Compact e tc env ok tc')
  then show ?case using run_phases_tools [OF Step_Compact(3)]
    by (auto simp: tools_ok_def engine_set_turn_active_def turn_cleanup_def on_eng_def)
qed (simp_all add: health_flags cancel_flags pipe_request_flags read_text_flags)

lemma steps_settled:
  "engine_steps e e' \<Longrightarrow> \<not> en_turn_active e \<Longrightarrow> \<not> en_turn_active e' \<and> en_cfg e' = en_cfg e"
  by (induction rule: rtranclp_induct) (auto dest: step_settled)

text \<open>With pipes a cancellation stays.\<close>

lemma step_cancelled:
  assumes "engine_step e e'" and "\<not> cf_use_framed_protocol (en_cfg e)" and "en_cancelled e"
  shows "\<not> cf_use_framed_protocol (en_cfg e') \<and> en_cancelled e'"
  using assms by cases (simp_all add: health_flags cancel_flags pipe_request_flags read_text_flags)

lemma steps_cancelled:
  "engine_steps e e' \<Longrightarrow> \<not> cf_use_framed_protocol (en_cfg e) \<Longrightarrow> en_cancelled e
    \<Longrightarrow> \<not> cf_use_framed_protocol (en_cfg e') \<and> en_cancelled e'"
  by (induction rule: rtranclp_induct) (auto dest: step_cancelled)

section \<open>Properties\<close>

text \<open>Property C13: between two connections no turn is active, and serving never changes the
  configuration, whatever the clients and the agent do.\<close>

theorem server_settled:
  assumes "start_codex_api_server vs sv = Some (Ret sv')" and "\<not> en_turn_active (sv_eng sv)"
  shows "\<not> en_turn_active (sv_eng sv') \<and> sv_cfg sv' = sv_cfg sv"
  using steps_settled [OF server_steps [OF assms(1)]] assms(2) by simp

section \<open>Cancelled streams\<close>


section \<open>The stream of pipe mode\<close>

text \<open>The server has its own loop; where nothing interferes it is the one of \<open>responses_stream_run_text\<close>.\<close>

lemma open_pipe_ok: "run_text_open now s = (True, s') \<Longrightarrow> open_pipe_stream now s = Inr s'"
  by (auto simp: run_text_open_def open_pipe_stream_def split: prod.splits bool.splits)

lemma open_pipe_fail:
  assumes "\<not> fst (responses_stream_send_headers (responses_stream_init i m g script))"
  shows "\<exists>s'. open_pipe_stream now (responses_stream_init i m g script) = Inl s' \<and> event_names s' = [''response.error'']"
proof -
  let ?s = "responses_stream_init i m g script"
  obtain s1 where h: "responses_stream_send_headers ?s = (False, s1)"
    using assms by (cases "responses_stream_send_headers ?s") auto
  then have "ss_log s1 = []"
    by (auto simp: responses_stream_send_headers_def responses_stream_init_def fd_write_def
        split: if_splits prod.splits list.splits wr.splits)
  then show ?thesis
    by (simp add: open_pipe_stream_def responses_stream_emit_created_def h responses_stream_emit_error_def
        event_names_def Let_def)
qed

lemma open_pipe_opens:
  assumes "fst (responses_stream_send_headers (responses_stream_init i m g script))"
  obtains s where "open_pipe_stream now (responses_stream_init i m g script) = Inr s" "text_open s []"
    "event_names s = [''response.created'', ''response.output_item.added'', ''response.content_part.added'']"
proof -
  have "ss_terminal (responses_stream_init i m g script) = STREAM_ACTIVE" "ss_items (responses_stream_init i m g script) = []"
    "event_names (responses_stream_init i m g script) = []"
    by (simp_all add: responses_stream_init_def event_names_def)
  from run_text_open_ok [OF assms this(1,2), of now] this(3) show ?thesis
    using that by (auto dest: open_pipe_ok)
qed

lemma pipe_chunks_ok:
  assumes "\<not> en_cancelled e" and "\<And>n. w n"
  shows "text_open s t \<Longrightarrow> length t + length rest < PART_TEXT_SIZE \<Longrightarrow>
    \<exists>s'. pipe_chunks w off rest e s = (False, e, s') \<and> text_open s' (t @ rest)
      \<and> event_names s' = event_names s @ replicate (length (chunks_of 4096 rest)) ''response.output_text.delta''"
proof (induction "length rest" arbitrary: off rest s t rule: less_induct)
  case less
  show ?case
  proof (cases "rest = []")
    case True
    then show ?thesis using less.prems by (simp add: pipe_chunks.simps [of w off "[]" e s])
  next
    case False
    obtain s1 where d: "responses_stream_emit_text_delta (take 4096 rest) s = (True, s1)"
      "text_open s1 (accumulate t (take 4096 rest))" "event_names s1 = event_names s @ [''response.output_text.delta'']"
      using text_delta_step [OF less.prems(1)] by blast
    have acc: "accumulate t (take 4096 rest) = t @ take 4096 rest"
      using less.prems(2) by (auto simp: accumulate_def)
    have "length (drop 4096 rest) < length rest" using False by simp
    moreover have "length (t @ take 4096 rest) + length (drop 4096 rest) < PART_TEXT_SIZE"
      using less.prems(2) by (simp add: min_def)
    ultimately obtain s' where r: "pipe_chunks w (off + 4096) (drop 4096 rest) e s1 = (False, e, s')"
      "text_open s' (t @ rest)"
      "event_names s' = event_names s1 @ replicate (length (chunks_of 4096 (drop 4096 rest))) ''response.output_text.delta''"
      using less.hyps [of "drop 4096 rest" s1 _ "off + 4096"] d(2) unfolding acc by fastforce
    then show ?thesis using False assms d by (simp add: pipe_chunks.simps [of w off rest])
  qed
qed

lemma close_pipe_ok:
  assumes "text_open s t"
  shows "ss_terminal (close_pipe_stream now False s) = STREAM_COMPLETED
    \<and> event_names (close_pipe_stream now False s) = event_names s @ [''response.output_text.done'',
        ''response.content_part.done'', ''response.output_item.done'', ''response.completed'']
    \<and> map first_part_text (ss_items (close_pipe_stream now False s)) = [t]"
proof -
  have "close_pipe_stream now False s = snd (run_text_close now s)"
  proof -
    obtain i p where "ss_items s = [i]" "oi_parts i = [p]" "cp_type p = CONTENT_TYPE_OUTPUT_TEXT"
      "cur_item s = i" "cur_part s = p" "ss_cur_item s = 0" "ss_cur_part s = 0" "ss_terminal s = STREAM_ACTIVE"
      using assms by (rule text_open_obtain)
    then show ?thesis
      by (simp add: close_pipe_stream_def run_text_close_def responses_stream_is_active_def
          responses_stream_emit_text_done_def no_current_part_def responses_stream_emit_content_part_done_def Let_def
          responses_stream_emit_output_item_done_def responses_stream_emit_completed_def)
  qed
  then show ?thesis using run_text_close_ok [OF assms, of now] by auto
qed

section \<open>What waits in the buffer\<close>

definition waiting :: "engine \<Rightarrow> string" where
  "waiting e = ring_content BRIDGE_BUFFER_SIZE (en_text e)"

lemma read_text_window:
  assumes "ring_inv BRIDGE_BUFFER_SIZE (en_text e)" and "0 < k" and "k < 2 ^ 31"
  obtains r where "engine_read_text (of_nat k) e = (take (k - 1) (waiting e), e\<lparr>en_text := r\<rparr>)"
    "ring_content BRIDGE_BUFFER_SIZE r = drop (k - 1) (waiting e)"
proof -
  have k: "unat (of_nat k :: u64) = k" using assms(3) by (simp add: unat_of_nat)
  then have nz: "(of_nat k :: u64) \<noteq> 0" using assms(2) by (metis less_irrefl unat_0)
  note rc = ring_read_content [OF nz, of BRIDGE_BUFFER_SIZE "en_text e"]
  have c: "take (read_count (of_nat k) (en_text e)) (waiting e) = take (k - 1) (waiting e)"
    "drop (read_count (of_nat k) (en_text e)) (waiting e) = drop (k - 1) (waiting e)"
    by (simp_all add: read_count_def k waiting_def min_def)
  show ?thesis
    using that [of "snd (ring_read BRIDGE_BUFFER_SIZE (en_text e) (of_nat k))"] rc(1,2) c
    by (simp add: engine_read_text_def waiting_def case_prod_beta)
qed

text \<open>Property C31: in pipe mode an answer is made of what waits in the buffer, at most
  \<open>max_output_buffer - 1\<close> bytes and only up to the first NUL, with a notice in place of nothing. What is left
  over stays and begins the answer to the next request. The answer is marked as cut from
  \<open>max_output_buffer - 1\<close> bytes on, although that many still fit.\<close>

theorem pipe_answer_window:
  assumes "ring_inv BRIDGE_BUFFER_SIZE (en_text e)" and "1 < k" and "k < 2 ^ 31"
    and "cf_max_output_buffer cfg = int k"
  shows "case buffered_content cfg e of (content, truncated, e1) \<Rightarrow>
      content = (if waiting e = [] then cstr_copy k no_text_notice else c_str (take (k - 1) (waiting e)))
      \<and> truncated = (k \<le> Suc (length (waiting e)))
      \<and> waiting e1 = drop (k - 1) (waiting e)"
proof -
  have "0 < k" using assms(2) by simp
  from read_text_window [OF assms(1) this assms(3)] obtain r where
    r: "engine_read_text (of_nat k) e = (take (k - 1) (waiting e), e\<lparr>en_text := r\<rparr>)"
      "ring_content BRIDGE_BUFFER_SIZE r = drop (k - 1) (waiting e)" .
  show ?thesis using assms(2,4) r by (auto simp: buffered_content_def waiting_def min_def)
qed

lemma pipe_request_waiting:
  assumes "ring_inv BRIDGE_BUFFER_SIZE (en_text e)" and "waiting e = []" and "length (sv_arrives env) \<le> 131071"
  shows "waiting (pipe_request env req input e) = sv_arrives env"
    and "ring_inv BRIDGE_BUFFER_SIZE (en_text (pipe_request env req input e))"
proof -
  have keep: "en_text (engine_write_stdin d e') = en_text e'" "en_text (engine_push_html h e') = en_text e'" for d h e'
    by (simp_all add: engine_write_stdin_def engine_push_html_def split: prod.splits)
  have t: "en_text (pipe_request env req input e) = ring_append BRIDGE_BUFFER_SIZE (en_text e) (sv_arrives env)"
    by (simp add: pipe_request_def engine_push_text_def resolve_and_inject_reasoning_def keep Let_def split: prod.splits)
  show "ring_inv BRIDGE_BUFFER_SIZE (en_text (pipe_request env req input e))"
    unfolding t by (rule ring_append_inv [OF buffer_size_dvd assms(1)])
  show "waiting (pipe_request env req input e) = sv_arrives env"
    using ring_append_content [OF buffer_size_dvd assms(1), of "sv_arrives env"] assms(2,3)
    by (simp add: waiting_def t last_n_all BRIDGE_BUFFER_SIZE_def)
qed

lemma buffered_waiting:
  assumes "ring_inv BRIDGE_BUFFER_SIZE (en_text e)" and "cf_max_output_buffer cfg = int k" and "k < 2 ^ 31"
    and "Suc (length (waiting e)) < k" and "waiting e \<noteq> []" and "CHR 0x00 \<notin> set (waiting e)"
  obtains r where "buffered_content cfg e = (waiting e, False, e\<lparr>en_text := r\<rparr>)"
    "ring_content BRIDGE_BUFFER_SIZE r = []"
proof -
  have "0 < k" using assms(4) by simp
  from read_text_window [OF assms(1) this assms(3)] obtain r where
    r: "engine_read_text (of_nat k) e = (take (k - 1) (waiting e), e\<lparr>en_text := r\<rparr>)"
      "ring_content BRIDGE_BUFFER_SIZE r = drop (k - 1) (waiting e)" .
  have "c_str (waiting e) = waiting e"
    using assms(6) by (simp add: c_str_def) (metis (mono_tags, lifting) takeWhile_eq_all_conv)
  then show ?thesis
    using that [of r] assms(2,4,5) r by (simp add: buffered_content_def)
qed


section \<open>Cancellation without a turn\<close>

lemma cancelled_stream:
  assumes "en_cancelled e" and "pipe_stream env (responses_stream_init i m g script) e = (e', s)"
    and "buffered_content (en_cfg e) e = (content, t, e1)" and "content \<noteq> []"
  shows "last (event_names s) = ''response.error'' \<and> ''response.output_text.delta'' \<notin> set (event_names s)"
proof -
  have c: "en_cancelled e1"
    using assms(1,3) read_text_flags(1) [of "of_nat (nat (cf_max_output_buffer (en_cfg e)))" e]
    by (auto simp: buffered_content_def Let_def split: prod.splits)
  show ?thesis
  proof (cases "fst (responses_stream_send_headers (responses_stream_init i m g script))")
    case True
    from open_pipe_opens [OF this] obtain s1 where
      o: "open_pipe_stream (en_time e1) (responses_stream_init i m g script) = Inr s1"
        "event_names s1 = [''response.created'', ''response.output_item.added'', ''response.content_part.added'']"
      by blast
    have "pipe_chunks (sv_writable env) 0 content e1 s1 = (True, e1, s1)"
      using assms(4) c by (simp add: pipe_chunks.simps [of _ _ content])
    then have "event_names s = event_names s1 @ [''response.error'']"
      using assms(2,3) o(1) by (auto simp: pipe_stream_def responses_stream_emit_error_def event_names_def Let_def)
    then show ?thesis using o(2) by simp
  next
    case False
    from open_pipe_fail [OF this, of "en_time e1"] show ?thesis
      using assms(2,3) by (auto simp: pipe_stream_def)
  qed
qed


section \<open>An agent that is not there\<close>

text \<open>In framed mode a valid request that is not streamed, with no usable connection to the agent, is
  answered twice: \<open>handle_response_native\<close> sends its response and the caller sends another one.\<close>

theorem unavailable_two_replies:
  assumes "cf_use_framed_protocol (sv_cfg sv)" and "\<not> connection_usable (nc_state (en_nc (sv_eng sv)))"
    and "en_malloc (sv_eng sv) = (\<lambda>_. True)" and "encoding_supported (content_encoding (c_str raw))"
    and "read_http_body (\<lambda>_. True) (sv_cfg sv) raw = Body body n"
    and "handle_response_parse env body ((count_request sv)\<lparr>sv_gzip := gzip_accepted (c_str raw)\<rparr>) = Inr req"
    and "\<not> hr_stream req"
  shows "server_handle_response env raw sv = Some (Ret
    (send_json ''503 Service Unavailable'' (error_json ''native_agent_protocol_failure'')
      (send_json ''503 Service Unavailable'' (error_json ''native_agent_unavailable'')
        ((count_request sv)\<lparr>sv_gzip := gzip_accepted (c_str raw)\<rparr>))))"
proof -
  let ?sv = "(count_request sv)\<lparr>sv_gzip := gzip_accepted (c_str raw)\<rparr>"
  have keep: "sv_eng ?sv = sv_eng sv" by (simp add: sending)
  obtain input where i: "request_input env req ?sv = Some input"
    using dyn_parts_granted by (fastforce simp: request_input_def native_input_def Let_def keep assms(3))
  show ?thesis
    using assms i
    by (simp add: server_handle_response_def Let_def sending answer_body_def run_request_def handle_response_native_def
        response_failed_def or_else_def)
qed

section \<open>The server comes back\<close>

lemma response_turn_cfg [simp]:
  "turn_cfg (response_turn env req input sv) = sv_cfg sv" "turn_cfg (compact_turn p q sv) = sv_cfg sv"
  by (simp_all add: sending)

lemma run_request_ends:
  assumes "0 \<le> cf_response_timeout_ms (sv_cfg sv)" and "tools_end (sv_turn env) (sv_cfg sv)"
  shows "run_request env req sv \<noteq> None"
proof -
  have "framed_turn (sv_turn env) (response_turn env req input sv) \<noteq> None" for input
    using assms by (intro framed_turn_ends) simp_all
  then have "handle_response_native env req sv \<noteq> None"
    by (auto simp: handle_response_native_def simp del: not_None_eq split: option.splits c_run.splits)
  then show ?thesis by (auto simp: run_request_def split: c_run.splits bool.splits)
qed

lemma run_compact_ends:
  assumes "0 \<le> cf_response_timeout_ms (sv_cfg sv)" and "tools_end (sv_turn env) (sv_cfg sv)"
  shows "run_compact env p q sv \<noteq> None"
  using run_phases_ends [of "compact_turn p q sv" "sv_turn env"] assms
  by (auto simp: run_compact_def Let_def split: option.splits c_run.splits)

lemma dispatch_ends:
  assumes "0 \<le> cf_response_timeout_ms (sv_cfg sv)" and "tools_end (sv_turn env) (sv_cfg sv)"
    and "read_http_body (en_malloc (sv_eng sv)) (sv_cfg sv) raw \<noteq> Http_Request.Never"
  shows "dispatch env raw sv \<noteq> None"
proof -
  have r: "run_request env req ((count_request sv)\<lparr>sv_gzip := g\<rparr>) \<noteq> None" for req g
    using assms by (intro run_request_ends) (simp_all add: sending)
  have c: "run_compact env p q (count_request sv) \<noteq> None" for p q
    using assms by (intro run_compact_ends) (simp_all add: sending)
  show ?thesis
    using assms(3) r c
    by (auto simp: dispatch_def server_handle_response_def handle_compact_def answer_body_def compact_body_def Let_def
        sending split: prod.splits route.splits http_body.splits sum.splits)
qed


section \<open>Who may change the engine\<close>

lemma options_method:
  assumes "options_request raw"
  obtains path query where "request_line raw = (''OPTIONS'', path, query)"
proof -
  have "raw = take 8 raw @ drop 8 raw" by simp
  then obtain r where raw: "raw = ''OPTIONS '' @ r" using assms unfolding options_request_def by metis
  have "before_blank raw = Some (''OPTIONS'', r)" by (simp add: before_blank_def raw)
  then have "fst (request_line raw) = ''OPTIONS''"
    by (simp add: request_line_def cstr_copy_def Let_def split: option.split)
  then show ?thesis using that by (cases "request_line raw") auto
qed

lemma dispatch_options:
  assumes "options_request (c_str raw)" and "dispatch env raw sv = Some (Ret sv')"
  shows "sv_eng sv' = sv_eng sv" and "sv_history sv' = sv_history sv"
proof -
  obtain path query where "request_line (c_str raw) = (''OPTIONS'', path, query)"
    by (rule options_method [OF assms(1)])
  then show "sv_eng sv' = sv_eng sv" and "sv_history sv' = sv_history sv"
    using assms(2) by (auto simp: dispatch_def route_of_def sending split: if_splits)
qed

lemma find_header_ci_suffix: "find_header_ci s n = Some h \<Longrightarrow> \<exists>p. s = p @ h"
proof (induction s)
  case (Cons c s)
  then show ?case by (cases "find_header_ci s n = Some h") (force split: if_splits)+
qed simp

definition carries :: "string \<Rightarrow> string \<Rightarrow> bool" where
  "carries token raw = (\<exists>pre post. raw = pre @ ''Bearer '' @ token @ post \<or> raw = pre @ ''Token '' @ token @ post)"

lemma check_auth_token:
  assumes "check_auth cfg raw = Auth_Ok" and "cf_auth_token cfg \<noteq> []" and "\<not> options_request raw"
  shows "carries (cf_auth_token cfg) raw"
proof -
  obtain h where h: "find_header_ci raw ''authorization: '' = Some h"
    using assms by (auto simp: check_auth_def split: option.splits)
  define a where "a = dropWhile (\<lambda>c. c = CHR '' '') (drop 15 h)"
  obtain p where "raw = p @ h" using find_header_ci_suffix [OF h] by blast
  moreover have "h = take 15 h @ takeWhile (\<lambda>c. c = CHR '' '') (drop 15 h) @ a"
    unfolding a_def by simp
  ultimately obtain q where raw: "raw = q @ a" by (metis append.assoc)
  obtain s where s: "a = ''Bearer '' @ s \<or> a = ''Token '' @ s" and
    t: "(case strstr s crlf of None \<Rightarrow> s | Some r \<Rightarrow> take (length s - length r) s) = cf_auth_token cfg"
  proof (cases "take 7 a = ''Bearer ''")
    case True
    then have "a = ''Bearer '' @ drop 7 a" by (metis append_take_drop_id)
    then show ?thesis using that [of "drop 7 a"] assms h True by (auto simp: check_auth_def a_def [symmetric] Let_def split: if_splits)
  next
    case False
    then have t6: "take 6 a = ''Token ''"
      using assms h by (auto simp: check_auth_def a_def [symmetric] Let_def split: if_splits)
    then have "a = ''Token '' @ drop 6 a" by (metis append_take_drop_id)
    then show ?thesis using that [of "drop 6 a"] assms h False t6 by (auto simp: check_auth_def a_def [symmetric] Let_def split: if_splits)
  qed
  have "\<exists>post. s = cf_auth_token cfg @ post"
    using t by (cases "strstr s crlf") (auto, metis append_take_drop_id)
  then show ?thesis using raw s by (auto simp: carries_def)
qed


section \<open>A connection that cancels\<close>

definition cancel_fields :: "(string \<times> string) list" where
  "cancel_fields = [(''Authorization'', ''Bearer s3''), (''Host'', ''localhost''), (''Content-Length'', ''0'')]"

definition cancel_text :: string where
  "cancel_text = request_text ''DELETE /v1/responses/r1 HTTP/1.1'' cancel_fields []"

lemma show_zero: "show_nat 0 = ''0''"
  by (simp add: show_nat_def show_base.simps [of _ 0] digit_char_def char_of_def bit_0)

lemma cancel_ok: "request_ok ''DELETE /v1/responses/r1 HTTP/1.1'' cancel_fields"
  by (simp add: request_ok_def plain_line_def field_ok_def is_crlf_char_def cancel_fields_def)

lemma cancel_values:
  "field_value ''Host'' cancel_fields = Some ''localhost''"
  "field_value ''Transfer-Encoding'' cancel_fields = None"
  "field_value ''Content-Length'' cancel_fields = Some ''0''"
  by (simp_all add: field_value_def cancel_fields_def is_tab_blank_def ci_eq_vals)

lemma cancel_sized: "sized_request ''DELETE /v1/responses/r1 HTTP/1.1'' cancel_fields []"
  by (simp add: sized_request_def cancel_ok cancel_values show_zero LONG_MAX_def)

lemma cancel_lines:
  "cancel_text = ''DELETE /v1/responses/r1 HTTP/1.1'' @ crlf @ ''Authorization: Bearer s3'' @ crlf @ ''Host: localhost'' @ crlf
     @ ''Content-Length: 0'' @ crlf @ crlf"
  by (simp add: cancel_text_def request_text_def cancel_fields_def field_line_def)

lemma cancel_guards:
  "c_str cancel_text = cancel_text"
  "cf_auth_token cfg = ''s3'' \<Longrightarrow> check_auth cfg cancel_text = Auth_Ok"
  "request_line cancel_text = (''DELETE'', ''/v1/responses/r1'', [])"
  by (simp_all add: cancel_lines crlf_def c_str_def check_auth_def options_request_def ci_eq_vals request_line_def
      before_blank_def cstr_copy_def)

lemma cancel_host: "validate_host_header cfg cancel_text"
proof -
  obtain rest where "find_header_value cancel_text ''Host'' = Some (''localhost'' @ crlf @ rest)"
    using header_pointer [OF cancel_ok _ cancel_values(1), of "[]"] unfolding cancel_text_def by auto
  moreover have "\<not> options_request cancel_text" by (simp add: cancel_lines options_request_def)
  ultimately show ?thesis
    by (simp add: validate_host_header_def crlf_def is_tab_blank_def is_crlf_char_def cstr_copy_def host_is_allowed_def)
qed

definition no_trace :: trace_session where
  "no_trace =
     \<lparr>ts_request_number = 0, ts_method = [], ts_path = [], ts_http_headers = [], ts_http_body = [],
      ts_normalized_input = [], ts_native_request = [], ts_native_response = [], ts_error = []\<rparr>"

definition plain_server_env :: "string \<Rightarrow> server_env" where
  "plain_server_env arrives =
     \<lparr>sv_turn = plain_env, sv_disable_workspace = True, sv_trace = no_trace, sv_stream_size = 1000, sv_request_size = 1000,
      sv_arrives = arrives, sv_writable = \<lambda>_. True\<rparr>"

definition cancel_visit :: visit where
  "cancel_visit = \<lparr>vi_env = plain_server_env [], vi_in = [Read_Data cancel_text], vi_script = []\<rparr>"

text \<open>A server that asks for a token.\<close>

definition token_server :: "bool \<Rightarrow> bool \<Rightarrow> server" where
  "token_server framed cancelled =
     \<lparr>sv_eng = (socket_engine [])\<lparr>en_cancelled := cancelled,
        en_cfg := some_config\<lparr>cf_auth_token := ''s3'', cf_use_framed_protocol := framed\<rparr>\<rparr>,
      sv_counter = 0, sv_gzip = False, sv_history = tool_history_init, sv_clients = [], sv_replies = [],
      sv_conn = \<lparr>cn_script = [], cn_out = [], cn_live = []\<rparr>, sv_closed = []\<rparr>"

lemma token_server_sel [simp]:
  "cf_auth_token (sv_cfg (token_server f c)) = ''s3''" "cf_use_framed_protocol (sv_cfg (token_server f c)) = f"
  "en_cancelled (sv_eng (token_server f c)) = c" "en_malloc (sv_eng (token_server f c)) = (\<lambda>_. True)"
  "\<not> en_turn_active (sv_eng (token_server f c))" "cf_max_request_size (sv_cfg (token_server f c)) = 1048576"
  "cf_response_timeout_ms (sv_cfg (token_server f c)) = 60000" "\<not> cf_shell_command_enabled (sv_cfg (token_server f c))"
  by (simp_all add: token_server_def socket_engine_def some_config_def init_global_config_def)

lemma cancel_read:
  "read_http_request (\<lambda>_. True) (sv_cfg (token_server f c)) [Read_Data cancel_text] = Got cancel_text"
proof -
  have len: "length cancel_text \<le> 1000" by (simp add: cancel_lines crlf_def)
  have "head_length ''DELETE /v1/responses/r1 HTTP/1.1'' cancel_fields = length cancel_text"
    by (simp add: head_length_def cancel_text_def)
  with len have "read_request (\<lambda>_. True) 1048576 1048576 [] (map Read_Data [cancel_text] @ []) = Got cancel_text"
    by (intro read_pieces [OF cancel_sized]) (simp_all add: cancel_text_def [symmetric], auto simp: cancel_lines)
  then show ?thesis by (simp add: read_http_request_def size_of_int_def)
qed

lemma cancel_served:
  "serve_connection cancel_visit (token_server f c)
     = Some (Ret (close_conn (handle_cancel (accept_conn cancel_visit (token_server f c)))))"
proof -
  have "serve_request (plain_server_env []) cancel_text (accept_conn cancel_visit (token_server f c))
      = Some (Ret (handle_cancel (accept_conn cancel_visit (token_server f c))))"
    by (simp add: serve_request_def sending cancel_guards cancel_host dispatch_def route_of_def)
  moreover have "cancel_text \<noteq> []" by (simp add: cancel_lines)
  ultimately show ?thesis
    by (simp add: serve_connection_def Let_def sending cancel_read) (simp add: cancel_visit_def cancel_read)
qed

lemma cancelled_after:
  "en_cancelled (sv_eng (close_conn (handle_cancel (accept_conn cancel_visit (token_server f c)))))"
  by (simp add: handle_cancel_def sending cancel_flags)

theorem server_settled_witness:
  "case start_codex_api_server [cancel_visit] (token_server True False) of
     Some (Ret sv') \<Rightarrow> \<not> en_turn_active (sv_eng sv') \<and> sv_cfg sv' = sv_cfg (token_server True False)
   | _ \<Rightarrow> False"
  using server_settled [of "[cancel_visit]" "token_server True False"] by (simp add: cancel_served)




text \<open>An engine with nothing in its buffer, in pipe mode.\<close>

definition piped_engine :: engine where
  "piped_engine = sv_eng (token_server False False)"

lemma piped_engine_sel:
  "ring_inv BRIDGE_BUFFER_SIZE (en_text piped_engine)" "waiting piped_engine = []" "\<not> en_cancelled piped_engine"
  "cf_max_output_buffer (en_cfg piped_engine) = int 262144"
  by (simp_all add: piped_engine_def token_server_def socket_engine_def waiting_def some_config_def init_global_config_def
      ring_inv_new BRIDGE_BUFFER_SIZE_def)

theorem pipe_answer_window_witness:
  "case buffered_content (en_cfg piped_engine) (engine_push_text ''abcd'' piped_engine) of (content, truncated, e1) \<Rightarrow>
     content = ''abcd'' \<and> \<not> truncated \<and> waiting e1 = []"
proof -
  let ?e = "engine_push_text ''abcd'' piped_engine"
  have w: "waiting ?e = ''abcd''" "ring_inv BRIDGE_BUFFER_SIZE (en_text ?e)"
    using ring_append_content [OF buffer_size_dvd piped_engine_sel(1), of "''abcd''"] piped_engine_sel(2)
      ring_append_inv [OF buffer_size_dvd piped_engine_sel(1), of "''abcd''"]
    by (simp_all add: waiting_def engine_push_text_def last_n_all BRIDGE_BUFFER_SIZE_def)
  show ?thesis
    using pipe_answer_window [OF w(2) _ _ piped_engine_sel(4)] w(1) by (auto simp: c_str_def)
qed


end
