(* ===== verification/Managed_Config.thy ===== *)
theory Managed_Config
  imports Bridge_Config
begin

text \<open>
  The managed block in the configuration of the editor (\<^verbatim>\<open>src/config_manager.c\<close>, second half):
  the artifacts written by \<^verbatim>\<open>--generate-config\<close>, and installing, removing and reporting the block
  in \<^verbatim>\<open>~/.codex/config.toml\<close>.

  The file system maps paths to contents; \<open>hf_room\<close> says how many bytes can be written to a path,
  if it can be opened for writing. Lines printed are keep in order. The printer of JSON trees is a
  parameter, building the trees does not fail.
\<close>

section \<open>Files\<close>

record home_fs =
  hf_files :: "string \<Rightarrow> bytes option"
  hf_room :: "string \<Rightarrow> nat option"
  hf_home :: "string option"
  hf_said :: "string list"

definition say :: "string \<Rightarrow> home_fs \<Rightarrow> home_fs" where
  "say line fs = fs\<lparr>hf_said := hf_said fs @ [line]\<rparr>"

definition lf :: char where
  "lf = CHR 0x0A"

definition codex_file :: "string \<Rightarrow> home_fs \<Rightarrow> string" where
  "codex_file name fs =
     (case hf_home fs of None \<Rightarrow> ''~/.codex/'' @ name | Some h \<Rightarrow> cstr_copy 1024 (h @ ''/.codex/'' @ name))"

definition get_codex_config_path :: "home_fs \<Rightarrow> string" where
  "get_codex_config_path fs = codex_file ''config.toml'' fs"

definition get_backup_path :: "home_fs \<Rightarrow> string" where
  "get_backup_path fs = codex_file ''config.toml.bridge-backup'' fs"

text \<open>The catalog: here an empty \<^verbatim>\<open>HOME\<close> counts as a missing one.\<close>

definition catalog_path :: "string option \<Rightarrow> string" where
  "catalog_path h =
     (case h of None \<Rightarrow> ''~/.codex/custom_catalog.json''
      | Some h \<Rightarrow> if h = [] then ''~/.codex/custom_catalog.json''
                  else cstr_copy 1024 (h @ ''/.codex/custom_catalog.json''))"

definition read_file :: "(nat \<Rightarrow> bool) \<Rightarrow> string \<Rightarrow> home_fs \<Rightarrow> bytes option" where
  "read_file alloc path fs =
     (case hf_files fs path of
        None \<Rightarrow> None
      | Some content \<Rightarrow> if content = [] \<or> \<not> alloc (length content + 1) then None else Some content)"

text \<open>The file is emptied when it is opened; what does not fit is lost without a notice.\<close>

definition write_file :: "string \<Rightarrow> bytes \<Rightarrow> home_fs \<Rightarrow> bool \<times> home_fs" where
  "write_file path buf fs =
     (case hf_room fs path of
        None \<Rightarrow> (False, fs)
      | Some room \<Rightarrow> (True, fs\<lparr>hf_files := (hf_files fs)(path \<mapsto> take room (c_str buf))\<rparr>))"

section \<open>Artifacts\<close>

definition gen_catalog :: json where
  "gen_catalog =
     JObj [(''models'', JArr [JObj
       [(''id'', JStr ''star-bridge-ds4''), (''name'', JStr ''Star Bridge ds4''), (''provider'', JStr ''custom''),
        (''capabilities'', JObj [(''vision'', JBool False), (''function_calling'', JBool True),
           (''streaming'', JBool True), (''context'', JNum 150000)]),
        (''config'', JObj [(''wire_api'', JStr ''responses''), (''model_alias'', JStr ''star-bridge-ds4''),
           (''model_display_name'', JStr ''Star Bridge ds4''), (''context_tokens'', JNum 150000),
           (''response_timeout_ms'', JNum 60000), (''max_request_size'', JNum 131072)])]]),
      (''version'', JNum 1)]"

definition gen_provider :: "int \<Rightarrow> json" where
  "gen_provider port =
     JObj [(''provider_id'', JStr ''star-bridge-local''), (''provider_name'', JStr ''Star Bridge Local''),
       (''api_base'', JStr (''http://127.0.0.1:'' @ show_int port @ ''/v1'')), (''wire_api'', JStr ''responses''),
       (''model_alias'', JStr ''star-bridge-ds4''), (''streaming'', JBool True),
       (''response_timeout_ms'', JNum 60000), (''context_tokens'', JNum 150000), (''max_request_size'', JNum 131072)]"

definition write_json :: "(json \<Rightarrow> string option) \<Rightarrow> string \<Rightarrow> json \<Rightarrow> home_fs \<Rightarrow> bool \<times> home_fs" where
  "write_json print path j fs =
     (case print j of None \<Rightarrow> (False, fs) | Some t \<Rightarrow> write_file path t fs)"

definition server_port_or :: "int \<Rightarrow> int" where
  "server_port_or port = (if port \<le> 0 then 8080 else port)"

definition generate_codex_config ::
    "(json \<Rightarrow> string option) \<Rightarrow> string option \<Rightarrow> int \<Rightarrow> home_fs \<Rightarrow> bool \<times> home_fs" where
  "generate_codex_config print output_dir port fs =
     (let dir = (case output_dir of None \<Rightarrow> ''.'' | Some d \<Rightarrow> d);
          path = (\<lambda>name. cstr_copy 4096 (dir @ ''/'' @ name))
      in case write_json print (path ''custom_model_catalog.json'') gen_catalog fs of
           (False, fs1) \<Rightarrow> (False, fs1)
         | (True, fs1) \<Rightarrow>
             write_json print (path ''star_bridge_provider.json'') (gen_provider (server_port_or port)) fs1)"

definition picker_catalog :: json where
  "picker_catalog =
     JObj [(''models'', JArr [JObj
       [(''slug'', JStr ''star-bridge-ds4''), (''display_name'', JStr ''Star Bridge ds4''),
        (''provider'', JStr ''star-bridge-local''), (''max_context_limit'', JNum 150000),
        (''input_modalities'', JArr [JStr ''text'']), (''supports_parallel_tool_calls'', JBool True),
        (''hidden'', JBool False)]])]"

definition write_star_bridge_catalog :: "(json \<Rightarrow> string option) \<Rightarrow> string \<Rightarrow> home_fs \<Rightarrow> bool \<times> home_fs" where
  "write_star_bridge_catalog print path fs = write_json print path picker_catalog fs"

section \<open>The block\<close>

definition begin_line :: string where "begin_line = ''# --- BEGIN star_bridge-managed ---''"
definition end_line :: string where "end_line = ''# --- END star_bridge-managed ---''"
definition legacy_begin_line :: string where "legacy_begin_line = ''# --- BEGIN bridge-managed ---''"
definition legacy_end_line :: string where "legacy_end_line = ''# --- END bridge-managed ---''"

abbreviation "MANAGED_BEGIN \<equiv> begin_line @ [lf]"
abbreviation "MANAGED_END \<equiv> end_line @ [lf]"
abbreviation "LEGACY_MANAGED_BEGIN \<equiv> legacy_begin_line @ [lf]"
abbreviation "LEGACY_MANAGED_END \<equiv> legacy_end_line @ [lf]"

definition setting :: "string \<Rightarrow> string \<Rightarrow> string" where
  "setting key v = key @ '' = '' @ [dquote] @ v @ [dquote]"

definition block_lines :: "string option \<Rightarrow> string \<Rightarrow> int \<Rightarrow> string list" where
  "block_lines h effort port =
     [begin_line,
      ''# This section is managed by star_bridge. Do not edit manually.'',
      ''#'',
      setting ''model'' ''star-bridge-ds4'',
      setting ''model_provider'' ''star-bridge-local'',
      [],
      ''# Force the Desktop UI picker to load our local model catalog'',
      setting ''model_catalog_json'' (catalog_path h),
      [],
      ''[model_providers.star-bridge-local]'',
      setting ''name'' ''Star Bridge Local'',
      setting ''base_url'' (''http://127.0.0.1:'' @ show_int (server_port_or port) @ ''/v1''),
      setting ''wire_api'' ''responses'',
      ''streaming = true'',
      ''response_timeout_ms = 60000'',
      ''context_tokens = 150000'',
      ''max_request_size = 131072'',
      ''requires_openai_auth = false'',
      ''supports_websockets = false'',
      ''#'',
      ''# Reasoning effort control: Codex Desktop may update this via UI.'',
      ''# Valid values: low, medium, high, extra high'',
      setting ''model_reasoning_effort'' (if effort \<noteq> [] then effort else ''medium''),
      end_line]"

fun unlines :: "string list \<Rightarrow> string" where
  "unlines [] = []"
| "unlines (l # ls) = l @ lf # unlines ls"

definition build_managed_block :: "(nat \<Rightarrow> bool) \<Rightarrow> string option \<Rightarrow> string \<Rightarrow> int \<Rightarrow> string option" where
  "build_managed_block alloc h effort port =
     (let b = cstr_copy 3072 (unlines (block_lines h effort port)) in if alloc (length b + 1) then Some b else None)"

text \<open>The block of the file, from its first line.\<close>

definition find_managed_block :: "string \<Rightarrow> string option" where
  "find_managed_block buf =
     (case (case strstr buf MANAGED_BEGIN of None \<Rightarrow> strstr buf LEGACY_MANAGED_BEGIN | Some b \<Rightarrow> Some b) of
        None \<Rightarrow> None
      | Some b \<Rightarrow>
          if strstr b MANAGED_END = None \<and> strstr b LEGACY_MANAGED_END = None then None else Some b)"

text \<open>Of two places found in the same text the earlier one.\<close>

definition first_of :: "string option \<Rightarrow> string option \<Rightarrow> string option" where
  "first_of a b =
     (case a of None \<Rightarrow> b
      | Some x \<Rightarrow> (case b of None \<Rightarrow> a | Some y \<Rightarrow> if length y > length x then b else a))"

definition after_end :: "string \<Rightarrow> string" where
  "after_end e =
     dropWhile (\<lambda>c. c = lf \<or> c = CHR 0x0D)
       (drop (if prefix MANAGED_END e then length MANAGED_END else length LEGACY_MANAGED_END) e)"

lemma first_of_Some: "first_of a b = Some r \<Longrightarrow> a = Some r \<or> b = Some r"
  by (auto simp: first_of_def split: option.splits if_splits)

lemma length_strstr: "strstr s p = Some r \<Longrightarrow> length r \<le> length s"
  using strstr_Some_split by fastforce

lemma length_first_of: "first_of (strstr s p) (strstr s q) = Some r \<Longrightarrow> length r \<le> length s"
  by (auto dest!: first_of_Some length_strstr)

lemma length_after_end:
  assumes "e \<noteq> []"
  shows "length (after_end e) < length e"
proof -
  have "length (after_end e) \<le> length (drop 1 e)"
    by (auto simp: after_end_def intro!: le_trans [OF length_dropWhile_le])
  then show ?thesis using assms by (cases e) simp_all
qed

function strip_sections :: "string \<Rightarrow> string" where
  "strip_sections pos =
     (if pos = [] then []
      else case first_of (strstr pos MANAGED_BEGIN) (strstr pos LEGACY_MANAGED_BEGIN) of
        None \<Rightarrow> pos
      | Some b \<Rightarrow>
          take (length pos - length b) pos @
          (case first_of (strstr b MANAGED_END) (strstr b LEGACY_MANAGED_END) of
             None \<Rightarrow> b
           | Some e \<Rightarrow> strip_sections (after_end e)))"
  by pat_completeness auto
termination
proof (relation "measure length", goal_cases)
  case (2 pos b e)
  have "length b \<le> length pos" "length e \<le> length b" using 2 by (auto dest: length_first_of)
  moreover have "e \<noteq> []"
    using 2(3) by (auto dest!: first_of_Some strstr_Some_split)
  then have "length (after_end e) < length e" by (rule length_after_end)
  ultimately show ?case by simp
qed simp

declare strip_sections.simps [simp del]

definition remove_all_managed_sections :: "(nat \<Rightarrow> bool) \<Rightarrow> string \<Rightarrow> string option" where
  "remove_all_managed_sections alloc buf =
     (if alloc (length buf + 1) then Some (strip_sections buf) else None)"

section \<open>The sections of the user\<close>

definition header_of :: "string \<Rightarrow> string \<Rightarrow> string" where
  "header_of kind name = CHR ''['' # kind @ '' '' @ [dquote] @ name @ [dquote] @ '']''"

text \<open>A section runs from the start of the line of its header to the next line that opens a section.\<close>

definition section_text :: "string \<Rightarrow> string \<Rightarrow> string \<Rightarrow> string" where
  "section_text body header sec =
     (let line_start = rev (takeWhile (\<lambda>c. c \<noteq> lf) (rev (take (length body - length sec) body)));
          next_sec = (case strstr (drop (length header) sec) (lf # ''['') of None \<Rightarrow> [] | Some r \<Rightarrow> drop 1 r)
      in line_start @ take (length sec - length next_sec) sec)"

definition find_section :: "string \<Rightarrow> string \<Rightarrow> string \<Rightarrow> string option" where
  "find_section body header legacy_header =
     (case strstr body header of
        Some sec \<Rightarrow> Some (section_text body header sec)
      | None \<Rightarrow> map_option (section_text body legacy_header) (strstr body legacy_header))"

definition add_section :: "(nat \<Rightarrow> bool) \<Rightarrow> string option \<Rightarrow> string \<Rightarrow> string" where
  "add_section alloc sec acc =
     (case sec of None \<Rightarrow> acc
      | Some t \<Rightarrow> if alloc (length t + 1) \<and> alloc (length acc + length t + 1) then acc @ t else acc)"

definition model_section :: "string \<Rightarrow> string option" where
  "model_section body =
     find_section body (header_of ''model'' ''star-bridge-ds4'') (header_of ''model'' ''ds4-unix-bridge'')"

definition provider_section :: "string \<Rightarrow> string option" where
  "provider_section body =
     find_section body (header_of ''provider'' ''star-bridge-local'') (header_of ''provider'' ''dwarfstar-bridge'')"

definition extract_displaced_keys :: "(nat \<Rightarrow> bool) \<Rightarrow> string \<Rightarrow> nat \<Rightarrow> string option" where
  "extract_displaced_keys alloc buf prefix_len =
     (let body = take prefix_len buf;
          keys = add_section alloc (provider_section body) (add_section alloc (model_section body) [])
      in if \<not> alloc (length body + 1) \<or> \<not> alloc 1 \<or> keys = [] then None else Some keys)"

section \<open>Installing\<close>

definition install_displaced :: "(nat \<Rightarrow> bool) \<Rightarrow> string \<Rightarrow> string option" where
  "install_displaced alloc buf =
     (case find_managed_block buf of
        Some b \<Rightarrow> extract_displaced_keys alloc buf (length buf - length b)
      | None \<Rightarrow> extract_displaced_keys alloc buf (length buf + 1))"

definition install_preview :: "string \<Rightarrow> string option \<Rightarrow> home_fs \<Rightarrow> string list" where
  "install_preview displaced existing fs =
     [''Config: '' @ get_codex_config_path fs, ''Backup: '' @ get_backup_path fs] @
     (case existing of
        None \<Rightarrow> [''Action: create new file with managed block'']
      | Some buf \<Rightarrow>
          if find_managed_block (c_str buf) = None then [''Action: append managed block at end'']
          else ''Action: update existing managed block in place'' #
               (if displaced = [] then [] else [''Displaced keys (preserved in backup):'' @ lf # displaced]))"

definition ended :: "string \<Rightarrow> string" where
  "ended buf = (if buf \<noteq> [] \<and> last buf \<noteq> lf then buf @ [lf] else buf)"

text \<open>The bytes kept of the file: without the sections, or all of them when there is no memory.\<close>

definition install_kept :: "(nat \<Rightarrow> bool) \<Rightarrow> bytes \<Rightarrow> bytes" where
  "install_kept alloc buf =
     (case remove_all_managed_sections alloc (c_str buf) of Some cleaned \<Rightarrow> cleaned | None \<Rightarrow> buf)"

definition install_content :: "(nat \<Rightarrow> bool) \<Rightarrow> bytes option \<Rightarrow> string \<Rightarrow> bytes option" where
  "install_content alloc keep block =
     (case keep of
        None \<Rightarrow> if alloc (length block + 1) then Some block else None
      | Some k \<Rightarrow> if alloc (length k + length block + 2) then Some (ended k @ block) else None)"

definition install_write ::
    "(nat \<Rightarrow> bool) \<Rightarrow> string \<Rightarrow> int \<Rightarrow> bytes option \<Rightarrow> string option \<Rightarrow> home_fs \<Rightarrow> bool \<times> home_fs" where
  "install_write alloc effort port keep displaced fs =
     (let path = get_codex_config_path fs
      in case Option.bind (build_managed_block alloc (hf_home fs) effort port) (install_content alloc keep) of
           None \<Rightarrow> (False, fs)
         | Some content \<Rightarrow>
             (case write_file path content
                 (say (if keep = None then ''Created new config at: '' @ path
                       else ''Replaced all previous managed sections with a single fresh block in: '' @ path) fs) of
                (False, fs1) \<Rightarrow> (False, say (''Error: failed to write '' @ quoted path) fs1)
              | (True, fs1) \<Rightarrow>
                  (True, case displaced of None \<Rightarrow> fs1
                         | Some keys \<Rightarrow> say (''Preserved displaced keys in backup:'' @ lf # keys) fs1)))"

definition install_catalog :: "(json \<Rightarrow> string option) \<Rightarrow> home_fs \<Rightarrow> home_fs" where
  "install_catalog print fs =
     (let path = catalog_path (hf_home fs)
      in case write_star_bridge_catalog print path fs of
           (True, fs1) \<Rightarrow> say (''Wrote custom model catalog for picker: '' @ path) fs1
         | (False, fs1) \<Rightarrow> say (''Warning: failed to write custom model catalog to '' @ path
            @ '' (the picker may not show the local model until you create it manually)'') fs1)"

definition install_managed_config ::
    "(nat \<Rightarrow> bool) \<Rightarrow> (json \<Rightarrow> string option) \<Rightarrow> string \<Rightarrow> bool \<Rightarrow> int \<Rightarrow> home_fs \<Rightarrow> bool \<times> home_fs" where
  "install_managed_config alloc print effort dry_run port fs =
     (let existing = read_file alloc (get_codex_config_path fs) fs;
          displaced = Option.bind existing (\<lambda>buf. install_displaced alloc (c_str buf))
      in if dry_run then
           (True, foldl (\<lambda>f line. say line f) fs
                    (install_preview (case displaced of None \<Rightarrow> [] | Some keys \<Rightarrow> keys) existing fs))
         else
           let keep = map_option (install_kept alloc) existing;
               fs1 = install_catalog print fs
           in case keep of
                None \<Rightarrow> install_write alloc effort port None displaced fs1
              | Some k \<Rightarrow>
                  (case write_file (get_backup_path fs1) k fs1 of
                     (False, fs2) \<Rightarrow> (False, say (''Error: failed to create backup at '' @ quoted (get_backup_path fs1)) fs2)
                   | (True, fs2) \<Rightarrow>
                       install_write alloc effort port keep displaced
                         (say (''Backed up existing config to: '' @ get_backup_path fs1) fs2)))"

section \<open>Removing\<close>

text \<open>The sections to restore are taken from the backup, which was just written.\<close>

definition backup_displaced :: "(nat \<Rightarrow> bool) \<Rightarrow> bytes option \<Rightarrow> string option" where
  "backup_displaced alloc backup =
     (case backup of None \<Rightarrow> None
      | Some raw \<Rightarrow>
          let buf = c_str raw
          in case strstr buf MANAGED_BEGIN of
               Some b \<Rightarrow> extract_displaced_keys alloc buf (length buf - length b)
             | None \<Rightarrow> extract_displaced_keys alloc buf (length buf))"

definition disable_content :: "string \<Rightarrow> string option \<Rightarrow> string" where
  "disable_content cleaned displaced =
     (case displaced of None \<Rightarrow> cleaned
      | Some keys \<Rightarrow> if keys = [] then cleaned else ended cleaned @ keys)"

definition disable_write :: "string \<Rightarrow> string \<Rightarrow> string option \<Rightarrow> home_fs \<Rightarrow> bool \<times> home_fs" where
  "disable_write path cleaned displaced fs =
     (let content = disable_content cleaned displaced;
          restored = (\<lambda>f. case displaced of None \<Rightarrow> f | Some keys \<Rightarrow> say (''Restored displaced keys:'' @ lf # keys) f)
      in if content = [] then
           (True, restored (say (''Removed managed config block (config file was only managed block, deleted): '' @ path)
                     (fs\<lparr>hf_files := (hf_files fs)(path := None)\<rparr>)))
         else case write_file path content fs of
                (False, fs1) \<Rightarrow> (False, say (''Error: failed to write '' @ quoted path) fs1)
              | (True, fs1) \<Rightarrow> (True, restored (say (''Removed managed config block from: '' @ path) fs1)))"

definition disable_real :: "(nat \<Rightarrow> bool) \<Rightarrow> bytes \<Rightarrow> home_fs \<Rightarrow> bool \<times> home_fs" where
  "disable_real alloc existing fs =
     (let path = get_codex_config_path fs; backup = get_backup_path fs
      in case write_file backup existing fs of
           (False, fs1) \<Rightarrow> (False, say (''Error: failed to create backup at '' @ quoted backup) fs1)
         | (True, fs1) \<Rightarrow>
             let fs2 = say (''Backed up existing config to: '' @ backup) fs1
             in case remove_all_managed_sections alloc (c_str existing) of
                  None \<Rightarrow> (False, say ''Error: failed to strip managed sections'' fs2)
                | Some cleaned \<Rightarrow>
                    let displaced = backup_displaced alloc (read_file alloc backup fs2)
                    in if \<not> alloc (length cleaned + (case displaced of None \<Rightarrow> 0 | Some keys \<Rightarrow> length keys) + 2)
                       then (False, fs2) else disable_write path cleaned displaced fs2)"

definition disable_managed_config :: "(nat \<Rightarrow> bool) \<Rightarrow> bool \<Rightarrow> home_fs \<Rightarrow> bool \<times> home_fs" where
  "disable_managed_config alloc dry_run fs =
     (let path = get_codex_config_path fs
      in case read_file alloc path fs of
           None \<Rightarrow> (False, say (''No config file at '' @ quoted path) fs)
         | Some existing \<Rightarrow>
             if \<not> contains (c_str existing) MANAGED_BEGIN then
               (False, say (''No managed config block found in '' @ quoted path) fs)
             else if dry_run then
               (True, say ''Action: remove all managed blocks and restore displaced keys from backup''
                        (say (''Config: '' @ path) fs))
             else disable_real alloc existing fs)"

definition say_backup :: "home_fs \<Rightarrow> home_fs" where
  "say_backup fs =
     say ((if hf_files fs (get_backup_path fs) = None then ''No backup at: '' else ''Backup exists at: '')
          @ get_backup_path fs) fs"

definition managed_config_status :: "(nat \<Rightarrow> bool) \<Rightarrow> home_fs \<Rightarrow> bool \<times> home_fs" where
  "managed_config_status alloc fs =
     (let path = get_codex_config_path fs
      in case read_file alloc path fs of
           None \<Rightarrow>
             (False, say_backup (say ((if hf_files fs path = None then ''Status: no config file at ''
                                       else ''Status: config file is empty at '') @ quoted path) fs))
         | Some buf \<Rightarrow>
             let found = find_managed_block (c_str buf) \<noteq> None
             in (found, say_backup (say ((if found then ''Status: managed config is INSTALLED at ''
                                          else ''Status: managed config is NOT installed at '') @ quoted path) fs)))"

section \<open>Reading the effort back\<close>

text \<open>\<^verbatim>\<open>fgets\<close> with a line of 256 bytes.\<close>

definition fgets_line :: "bytes \<Rightarrow> bytes" where
  "fgets_line s = take 255 (takeWhile (\<lambda>c. c \<noteq> lf) s @ (if lf \<in> set s then [lf] else []))"

lemma fgets_line_some: "s \<noteq> [] \<Longrightarrow> fgets_line s \<noteq> []"
  by (cases s) (auto simp: fgets_line_def)

function fgets_lines :: "bytes \<Rightarrow> bytes list" where
  "fgets_lines s = (if s = [] then [] else fgets_line s # fgets_lines (drop (length (fgets_line s)) s))"
  by pat_completeness auto
termination
  by (relation "measure length") (auto simp: fgets_line_some)

declare fgets_lines.simps [simp del]

definition effort_key :: string where
  "effort_key = ''model_reasoning_effort''"

definition blank_char :: "char \<Rightarrow> bool" where
  "blank_char c = (c = CHR '' '' \<or> c = CHR 0x09)"

definition effort_value :: "string \<Rightarrow> string option" where
  "effort_value trimmed =
     (case strchr trimmed CHR ''='' of
        None \<Rightarrow> None
      | Some eq \<Rightarrow>
          (case dropWhile blank_char (drop 1 eq) of
             [] \<Rightarrow> None
           | q # v \<Rightarrow>
               if q \<noteq> dquote then None
               else case strchr v dquote of None \<Rightarrow> None | Some e \<Rightarrow> Some (take 31 (take (length v - length e) v))))"

fun find_effort :: "bytes list \<Rightarrow> string option" where
  "find_effort [] = None"
| "find_effort (l # ls) =
     (let trimmed = dropWhile blank_char (c_str l)
      in if trimmed = [] \<or> hd trimmed \<in> {CHR ''#'', lf, CHR 0x0D} then find_effort ls
         else if prefix effort_key trimmed then effort_value trimmed
         else find_effort ls)"

definition read_codex_toml_reasoning_effort :: "home_fs \<Rightarrow> bridge_config \<Rightarrow> bool \<times> bridge_config \<times> home_fs" where
  "read_codex_toml_reasoning_effort fs cfg =
     (case Option.bind (hf_files fs (get_codex_config_path fs)) (\<lambda>s. find_effort (fgets_lines s)) of
        None \<Rightarrow> (False, cfg, fs)
      | Some v \<Rightarrow>
          if v \<in> set valid_effort then
            (True, cfg\<lparr>cf_model_reasoning_effort := cstr_copy 32 v\<rparr>,
             say (''Read model_reasoning_effort from '' @ get_codex_config_path fs @ '': '' @ v) fs)
          else (False, cfg, fs))"

end
