(* ===== verification/Managed_Properties.thy ===== *)
theory Managed_Properties
  imports Managed_Config
begin

text \<open>
  What installing and removing the managed block does to the configuration of the editor: markers
  are found line by line, a block is cut out whole, a fresh one is well formed, and the text of
  the user comes through both.
\<close>

section \<open>Searching in lines\<close>

lemma strstr_marker_line:
  assumes "lf \<notin> set l" and "lf \<notin> set m"
  shows "strstr (l @ lf # t) (m @ [lf]) = (if suffix m l then Some (m @ lf # t) else strstr t (m @ [lf]))"
  using assms(1)
proof (induction l)
  case Nil
  then show ?case using assms(2) by (cases m) auto
next
  case (Cons c l)
  have "prefix (m @ [lf]) (c # l @ lf # t) \<longleftrightarrow> m = c # l"
  proof
    assume "prefix (m @ [lf]) (c # l @ lf # t)"
    then obtain z where z: "m @ lf # z = (c # l) @ lf # t" by (auto simp: prefix_def)
    have "takeWhile (\<lambda>x. x \<noteq> lf) (m @ lf # z) = m" using assms(2) by (subst takeWhile_append2) auto
    moreover have "takeWhile (\<lambda>x. x \<noteq> lf) ((c # l) @ lf # t) = c # l"
      using Cons.prems by (subst takeWhile_append2) auto
    ultimately show "m = c # l" using z by metis
  qed simp
  then show ?case using Cons by (auto simp: suffix_Cons)
qed

lemma strstr_unlines:
  assumes "\<And>l. l \<in> set ls \<Longrightarrow> lf \<notin> set l \<and> \<not> suffix m l" and "lf \<notin> set m"
  shows "strstr (unlines ls @ t) (m @ [lf]) = strstr t (m @ [lf])"
  using assms(1) by (induction ls) (simp_all add: strstr_marker_line assms(2))

definition whole_lines :: "string \<Rightarrow> bool" where
  "whole_lines u = (u = [] \<or> last u = lf)"

lemma whole_lines_ended [simp]: "whole_lines (ended u)"
  by (simp add: whole_lines_def ended_def)

lemma ended_whole: "whole_lines u \<Longrightarrow> ended u = u"
  by (auto simp: whole_lines_def ended_def)

lemma strstr_whole_lines:
  assumes "whole_lines u" and "strstr u (m @ [lf]) = None" and "lf \<notin> set m"
  shows "strstr (u @ t) (m @ [lf]) = strstr t (m @ [lf])"
  using assms(1,2)
proof (induction "length u" arbitrary: u rule: less_induct)
  case less
  show ?case
  proof (cases "u = []")
    case False
    then have "lf \<in> set u" using less.prems(1) unfolding whole_lines_def by (metis last_in_set)
    then obtain l r where u: "u = l @ lf # r" "lf \<notin> set l" by (metis split_list_first)
    have "whole_lines r" using less.prems(1) False by (auto simp: u whole_lines_def split: if_splits)
    moreover have "\<not> suffix m l" "strstr r (m @ [lf]) = None"
      using less.prems(2) by (auto simp: u strstr_marker_line [OF u(2) assms(3)] split: if_splits)
    ultimately show ?thesis using less.hyps [of r] by (simp add: u strstr_marker_line [OF _ assms(3)])
  qed simp
qed

section \<open>Removing a block\<close>

lemmas marker_defs = begin_line_def end_line_def legacy_begin_line_def legacy_end_line_def lf_def

lemma marker_lf [simp]:
  "lf \<notin> set begin_line" "lf \<notin> set end_line" "lf \<notin> set legacy_begin_line" "lf \<notin> set legacy_end_line"
  by (simp_all add: marker_defs)

lemma marker_suffix [simp]:
  "\<not> suffix begin_line legacy_begin_line" "\<not> suffix legacy_begin_line begin_line"
  "\<not> suffix end_line legacy_end_line" "\<not> suffix legacy_end_line end_line"
  by (simp_all add: marker_defs suffix_Cons)

definition no_markers :: "string \<Rightarrow> bool" where
  "no_markers u = (strstr u MANAGED_BEGIN = None \<and> strstr u LEGACY_MANAGED_BEGIN = None)"

lemma strip_no_markers: "no_markers u \<Longrightarrow> strip_sections u = u"
  by (subst strip_sections.simps) (simp add: no_markers_def first_of_def)

lemma first_of_here:
  assumes "a = Some w \<or> (b = Some w)" and "\<And>x. a = Some x \<or> b = Some x \<Longrightarrow> length x \<le> length w"
    and "\<And>x. (a = Some x \<or> b = Some x) \<and> length x = length w \<Longrightarrow> x = w"
  shows "first_of a b = Some w"
proof (cases "a = Some w")
  case True
  moreover have "\<not> length y > length w" if "b = Some y" for y using assms(2) [of y] that by (simp add: not_less)
  ultimately show ?thesis by (auto simp: first_of_def split: option.splits)
next
  case False
  then have b: "b = Some w" using assms(1) by blast
  have "length x < length w" if "a = Some x" for x
    using that False assms(2,3) [of x] by (cases "length x = length w") auto
  then show ?thesis using b by (auto simp: first_of_def split: option.splits)
qed

lemma strstr_marker:
  assumes "lf \<notin> set m" and "lf \<notin> set n" and "\<not> suffix m n" and "\<not> suffix n m"
    and "l = m \<or> l = n"
  shows "first_of (strstr (l @ lf # t) (m @ [lf])) (strstr (l @ lf # t) (n @ [lf])) = Some (l @ lf # t)"
proof (rule first_of_here)
  have l: "lf \<notin> set l" using assms by blast
  show "strstr (l @ lf # t) (m @ [lf]) = Some (l @ lf # t) \<or> strstr (l @ lf # t) (n @ [lf]) = Some (l @ lf # t)"
    using assms by (auto simp: strstr_marker_line)
  show "length x \<le> length (l @ lf # t)"
    if "strstr (l @ lf # t) (m @ [lf]) = Some x \<or> strstr (l @ lf # t) (n @ [lf]) = Some x" for x
    using that by (auto dest: length_strstr)
  show "x = l @ lf # t"
    if "(strstr (l @ lf # t) (m @ [lf]) = Some x \<or> strstr (l @ lf # t) (n @ [lf]) = Some x)
      \<and> length x = length (l @ lf # t)" for x
    using that by (elim conjE disjE) (drule strstr_Some_split, elim exE conjE, simp only: append_eq_append_conv, force)+
qed

definition block_text :: "string \<Rightarrow> string list \<Rightarrow> string \<Rightarrow> string" where
  "block_text b inner e = unlines (b # inner @ [e])"

definition block_shape :: "string \<Rightarrow> string list \<Rightarrow> string \<Rightarrow> bool" where
  "block_shape b inner e =
     ((b = begin_line \<or> b = legacy_begin_line) \<and> (e = end_line \<or> e = legacy_end_line)
      \<and> (\<forall>l \<in> set inner. lf \<notin> set l \<and> \<not> suffix end_line l \<and> \<not> suffix legacy_end_line l))"

lemma unlines_append: "unlines (xs @ ys) = unlines xs @ unlines ys"
  by (induction xs) simp_all

lemma begin_not_end: "b = begin_line \<or> b = legacy_begin_line \<Longrightarrow>
    lf \<notin> set b \<and> \<not> suffix end_line b \<and> \<not> suffix legacy_end_line b"
  by (auto simp: marker_defs suffix_Cons)

lemma after_end_line:
  "e = end_line \<or> e = legacy_end_line \<Longrightarrow>
     after_end (e @ lf # v) = dropWhile (\<lambda>c. c = lf \<or> c = CHR 0x0D) v"
  by (auto simp: after_end_def marker_defs)

theorem strip_block:
  assumes "whole_lines u" and "no_markers u" and "block_shape b inner e"
  shows "strip_sections (u @ block_text b inner e @ v)
    = u @ strip_sections (dropWhile (\<lambda>c. c = lf \<or> c = CHR 0x0D) v)"
proof -
  let ?w = "block_text b inner e @ v"
  have b: "b = begin_line \<or> b = legacy_begin_line" and e: "e = end_line \<or> e = legacy_end_line"
    using assms(3) by (auto simp: block_shape_def)
  have w: "?w = b @ lf # unlines inner @ e @ lf # v" by (simp add: block_text_def unlines_append)
  have skip: "strstr (u @ ?w) MANAGED_BEGIN = strstr ?w MANAGED_BEGIN"
    "strstr (u @ ?w) LEGACY_MANAGED_BEGIN = strstr ?w LEGACY_MANAGED_BEGIN"
    using assms(1,2) by (auto simp: no_markers_def intro!: strstr_whole_lines)
  have start: "first_of (strstr (u @ ?w) MANAGED_BEGIN) (strstr (u @ ?w) LEGACY_MANAGED_BEGIN) = Some ?w"
    unfolding skip unfolding w by (rule strstr_marker) (use b in simp_all)
  have to_end: "strstr ?w (m @ [lf]) = strstr (e @ lf # v) (m @ [lf])"
    if "m = end_line \<or> m = legacy_end_line" for m
  proof -
    have "\<And>l. l \<in> set (b # inner) \<Longrightarrow> lf \<notin> set l \<and> \<not> suffix m l"
      using that assms(3) begin_not_end [OF b] by (auto simp: block_shape_def)
    moreover have "lf \<notin> set m" using that by auto
    ultimately have "strstr (unlines (b # inner) @ e @ lf # v) (m @ [lf]) = strstr (e @ lf # v) (m @ [lf])"
      by (rule strstr_unlines)
    then show ?thesis by (simp add: block_text_def unlines_append)
  qed
  have fin: "first_of (strstr ?w MANAGED_END) (strstr ?w LEGACY_MANAGED_END) = Some (e @ lf # v)"
    unfolding to_end [of end_line, simplified] to_end [of legacy_end_line, simplified]
    by (rule strstr_marker) (use e in simp_all)
  have "block_text b inner e \<noteq> []" by (simp add: block_text_def)
  then show ?thesis
    by (subst strip_sections.simps) (simp add: start fin after_end_line [OF e] del: append_assoc)
qed

lemma strip_sections_part: "length (strip_sections s) \<le> length s \<and> set (strip_sections s) \<subseteq> set s"
proof (induction s rule: strip_sections.induct)
  case (1 pos)
  show ?case
  proof (cases "first_of (strstr pos MANAGED_BEGIN) (strstr pos LEGACY_MANAGED_BEGIN)")
    case None
    then show ?thesis by (subst (1 2) strip_sections.simps) simp
  next
    case (Some b)
    then have "strstr pos MANAGED_BEGIN = Some b \<or> strstr pos LEGACY_MANAGED_BEGIN = Some b" by (rule first_of_Some)
    then obtain pre where pos: "pos = pre @ b" by (blast dest: strstr_Some_split)
    show ?thesis
    proof (cases "pos = [] \<or> first_of (strstr b MANAGED_END) (strstr b LEGACY_MANAGED_END) = None")
      case True
      then show ?thesis using Some by (subst (1 2) strip_sections.simps) (auto simp: pos)
    next
      case False
      then obtain e where e: "first_of (strstr b MANAGED_END) (strstr b LEGACY_MANAGED_END) = Some e" and ne: "pos \<noteq> []"
        by auto
      then have "strstr b MANAGED_END = Some e \<or> strstr b LEGACY_MANAGED_END = Some e" by (blast dest: first_of_Some)
      then obtain mid where b: "b = mid @ e" by (blast dest: strstr_Some_split)
      have ae: "set (after_end e) \<subseteq> set e" "length (after_end e) \<le> length e"
        by (auto simp: after_end_def dest!: set_dropWhileD intro!: le_trans [OF length_dropWhile_le] dest: in_set_dropD)
      have "strip_sections pos = pre @ strip_sections (after_end e)"
        using Some e unfolding strip_sections.simps [of pos] if_not_P [OF ne] by (simp add: pos)
      then show ?thesis using "1.IH" [OF ne Some e] ae by (auto simp: pos b)
    qed
  qed
qed

section \<open>The block written is well formed\<close>

definition block_inner :: "string option \<Rightarrow> string \<Rightarrow> int \<Rightarrow> string list" where
  "block_inner h effort port = butlast (tl (block_lines h effort port))"

lemma block_lines_eq: "block_lines h effort port = begin_line # block_inner h effort port @ [end_line]"
  by (simp add: block_lines_def block_inner_def)

lemma unlines_block: "unlines (block_lines h effort port) = block_text begin_line (block_inner h effort port) end_line"
  by (simp add: block_lines_eq block_text_def)

lemma markers_last:
  "end_line \<noteq> [] \<and> last end_line = CHR ''-'' \<and> legacy_end_line \<noteq> [] \<and> last legacy_end_line = CHR ''-''"
  by (simp add: end_line_def legacy_end_line_def)

lemma not_marker_last: "l = [] \<or> last l \<noteq> CHR ''-'' \<Longrightarrow> \<not> suffix end_line l \<and> \<not> suffix legacy_end_line l"
proof (rule ccontr)
  assume l: "l = [] \<or> last l \<noteq> CHR ''-''" and "\<not> ?thesis"
  then obtain m where "suffix m l" "m \<noteq> []" "last m = CHR ''-''"
    by (metis (mono_tags, lifting) markers_last)
  with l show False by (auto simp: suffix_def)
qed

lemma show_int_digit: "c \<in> set (show_int i) \<Longrightarrow> is_digit c \<or> c = CHR ''-''"
  by (auto simp: show_int_def show_nat_def dest: show_base_digit split: if_splits)

lemma show_int_plain [simp]: "lf \<notin> set (show_int i)" "CHR 0x00 \<notin> set (show_int i)"
  using show_int_digit [of lf i] show_int_digit [of "CHR 0x00" i] by (auto simp: is_digit_def cval_def lf_def)

definition plain_text :: "string \<Rightarrow> bool" where
  "plain_text s = (lf \<notin> set s \<and> CHR 0x00 \<notin> set s)"

lemma plain_catalog: "case h of None \<Rightarrow> True | Some d \<Rightarrow> plain_text d \<Longrightarrow> plain_text (catalog_path h)"
  using set_cstr_copy [of 1024 "the h @ ''/.codex/custom_catalog.json''"]
  by (auto simp: catalog_path_def plain_text_def lf_def split: option.splits)

lemma plain_parts [simp]:
  "plain_text (a @ b) \<longleftrightarrow> plain_text a \<and> plain_text b"
  "plain_text (c # b) \<longleftrightarrow> c \<noteq> lf \<and> c \<noteq> CHR 0x00 \<and> plain_text b" "plain_text []" "plain_text (show_int i)"
  by (auto simp: plain_text_def)

lemma block_plain:
  assumes "case h of None \<Rightarrow> True | Some d \<Rightarrow> plain_text d" and "plain_text effort"
  shows "\<forall>l \<in> set (block_lines h effort port). plain_text l"
  using plain_catalog [OF assms(1)] assms(2)
  by (simp add: block_lines_def setting_def marker_defs)

lemma block_inner_ok:
  assumes "case h of None \<Rightarrow> True | Some d \<Rightarrow> plain_text d" and "plain_text effort"
  shows "block_shape begin_line (block_inner h effort port) end_line"
proof -
  have "\<forall>l \<in> set (block_inner h effort port). plain_text l"
    using block_plain [OF assms, of port] by (simp add: block_lines_eq)
  moreover have "\<forall>l \<in> set (block_inner h effort port). \<not> suffix end_line l \<and> \<not> suffix legacy_end_line l"
  proof
    fix l assume "l \<in> set (block_inner h effort port)"
    then have "l = [] \<or> last l \<noteq> CHR ''-''" by (auto simp: block_inner_def block_lines_def setting_def)
    then show "\<not> suffix end_line l \<and> \<not> suffix legacy_end_line l" by (rule not_marker_last)
  qed
  ultimately show ?thesis by (auto simp: block_shape_def plain_text_def)
qed

lemma length_unlines: "length (unlines ls) = sum_list (map (\<lambda>l. Suc (length l)) ls)"
  by (induction ls) simp_all

lemma length_managed_block:
  assumes "length (show_int (server_port_or port)) \<le> 20" and "length effort < 32"
  shows "length (unlines (block_lines h effort port)) < 2048"
proof -
  have "length (catalog_path h) \<le> 1023"
    by (auto simp: catalog_path_def length_cstr_copy split: option.splits)
  then show ?thesis using assms
    by (simp add: length_unlines block_lines_def setting_def marker_defs del: One_nat_def)
qed

lemma set_unlines: "set (unlines ls) \<subseteq> {lf} \<union> (\<Union>l \<in> set ls. set l)"
  by (induction ls) auto

lemma build_block:
  assumes "length (show_int (server_port_or port)) \<le> 20" and "length effort < 32"
  shows "build_managed_block (\<lambda>_. True) h effort port = Some (unlines (block_lines h effort port))"
  using length_managed_block [OF assms, of h] by (simp add: build_managed_block_def cstr_copy_fits Let_def)

section \<open>What is in the file after installing\<close>

text \<open>A home directory in which the files can be written and their paths do not collide.\<close>

definition usable_home :: "nat \<Rightarrow> string \<Rightarrow> int \<Rightarrow> home_fs \<Rightarrow> bool" where
  "usable_home room effort port fs =
     (plain_text effort \<and> length effort < 32 \<and> length (show_int (server_port_or port)) \<le> 20
      \<and> (case hf_home fs of None \<Rightarrow> True | Some d \<Rightarrow> plain_text d \<and> length d \<le> 900)
      \<and> (\<forall>p. hf_room fs p = Some room))"

lemma usable_paths:
  assumes "usable_home room effort port fs"
  shows "get_backup_path fs \<noteq> get_codex_config_path fs" "catalog_path (hf_home fs) \<noteq> get_codex_config_path fs"
proof -
  have d: "length d \<le> 900" if "hf_home fs = Some d" for d
    using assms that by (simp add: usable_home_def)
  show "get_backup_path fs \<noteq> get_codex_config_path fs"
    by (auto simp: get_backup_path_def get_codex_config_path_def codex_file_def cstr_copy_fits dest: d split: option.splits)
  show "catalog_path (hf_home fs) \<noteq> get_codex_config_path fs"
    by (auto simp: catalog_path_def get_codex_config_path_def codex_file_def cstr_copy_fits dest: d split: option.splits if_splits)
qed

lemma say_simps [simp]:
  "hf_files (say l fs) = hf_files fs" "hf_room (say l fs) = hf_room fs" "hf_home (say l fs) = hf_home fs"
  by (simp_all add: say_def)

lemma path_simps [simp]:
  "get_codex_config_path (say l fs) = get_codex_config_path fs" "get_backup_path (say l fs) = get_backup_path fs"
  "get_codex_config_path (fs\<lparr>hf_files := f\<rparr>) = get_codex_config_path fs"
  "get_backup_path (fs\<lparr>hf_files := f\<rparr>) = get_backup_path fs"
  by (simp_all add: get_codex_config_path_def get_backup_path_def codex_file_def)

lemma write_roomy:
  assumes "\<forall>p. hf_room fs p = Some room" and "length buf \<le> room" and "CHR 0x00 \<notin> set buf"
  shows "write_file path buf fs = (True, fs\<lparr>hf_files := (hf_files fs)(path \<mapsto> buf)\<rparr>)"
proof -
  have "c_str buf = buf" using assms(3) by (auto simp: c_str_def takeWhile_eq_all_conv)
  then show ?thesis using assms by (simp add: write_file_def)
qed

lemma install_catalog_frame:
  "hf_room (install_catalog print fs) = hf_room fs \<and> hf_home (install_catalog print fs) = hf_home fs
   \<and> (p \<noteq> catalog_path (hf_home fs) \<longrightarrow> hf_files (install_catalog print fs) p = hf_files fs p)"
  by (auto simp: install_catalog_def write_star_bridge_catalog_def write_json_def write_file_def Let_def
      split: option.splits)

lemma block_plain_bytes:
  assumes "usable_home room effort port fs"
  shows "CHR 0x00 \<notin> set (unlines (block_lines (hf_home fs) effort port))"
proof -
  have "\<forall>l \<in> set (block_lines (hf_home fs) effort port). plain_text l"
    using assms by (intro block_plain) (auto simp: usable_home_def split: option.splits)
  then show ?thesis using set_unlines [of "block_lines (hf_home fs) effort port"]
    by (auto simp: plain_text_def lf_def)
qed

lemma install_file:
  assumes home: "usable_home room effort port fs"
    and old: "hf_files fs (get_codex_config_path fs) = (if buf = [] then None else Some buf)"
    and nul: "CHR 0x00 \<notin> set buf" and room: "length buf + 2049 \<le> room"
  shows "\<exists>fs'. install_managed_config (\<lambda>_. True) print effort False port fs = (True, fs')
    \<and> hf_room fs' = hf_room fs \<and> hf_home fs' = hf_home fs
    \<and> hf_files fs' (get_codex_config_path fs)
        = Some (ended (strip_sections buf) @ unlines (block_lines (hf_home fs) effort port))"
proof -
  let ?p = "get_codex_config_path fs" and ?b = "unlines (block_lines (hf_home fs) effort port)"
  let ?new = "ended (strip_sections buf) @ ?b"
  have short: "length (strip_sections buf) \<le> length buf" "CHR 0x00 \<notin> set (strip_sections buf)"
    using strip_sections_part [of buf] nul by auto
  define fs1 where "fs1 = install_catalog print fs"
  have fs1: "hf_room fs1 = hf_room fs" "hf_home fs1 = hf_home fs" "hf_files fs1 ?p = hf_files fs ?p"
    using install_catalog_frame [of print fs ?p] usable_paths [OF home] unfolding fs1_def by metis+
  have paths: "get_codex_config_path fs1 = ?p" "get_backup_path fs1 = get_backup_path fs"
    by (simp_all add: get_codex_config_path_def get_backup_path_def codex_file_def fs1)
  have all: "\<forall>p. hf_room fs1 p = Some room" using home by (simp add: fs1 usable_home_def)
  have block: "length ?b < 2048" "CHR 0x00 \<notin> set ?b"
    "build_managed_block (\<lambda>_. True) (hf_home fs1) effort port = Some ?b"
    using home by (simp_all add: length_managed_block build_block usable_home_def fs1 block_plain_bytes [OF home])
  have cstr: "c_str buf = buf" using nul by (auto simp: c_str_def takeWhile_eq_all_conv)
  have new: "length ?new \<le> room" "CHR 0x00 \<notin> set ?new"
    using block room short by (auto simp: ended_def lf_def)
  have wr: "write_file ?p ?new f = (True, f\<lparr>hf_files := (hf_files f)(?p \<mapsto> ?new)\<rparr>)"
    if "\<forall>p. hf_room f p = Some room" for f
    by (rule write_roomy [OF that new])
  show ?thesis
  proof (cases "buf = []")
    case True
    then show ?thesis using wr [of "say (''Created new config at: '' @ ?p) fs1"] old all block
      by (simp add: install_managed_config_def install_write_def install_content_def read_file_def Let_def
          fs1_def [symmetric] paths fs1 strip_sections.simps ended_def)
  next
    case False
    have keep: "install_kept (\<lambda>_. True) buf = strip_sections buf"
      by (simp add: install_kept_def remove_all_managed_sections_def cstr)
    have backup: "write_file (get_backup_path fs) (strip_sections buf) fs1
        = (True, fs1\<lparr>hf_files := (hf_files fs1)(get_backup_path fs \<mapsto> strip_sections buf)\<rparr>)"
      using room short by (intro write_roomy [OF all]) simp_all
    show ?thesis using False old all block
      by (auto simp: install_managed_config_def install_write_def install_content_def read_file_def Let_def
          fs1_def [symmetric] paths fs1 keep backup wr split: option.splits)
  qed
qed

section \<open>Installing over an older block\<close>

text \<open>Property C39: a block of any earlier version, with the old or the new markers, is replaced: what stood
  before and after it is kept, without the empty lines that followed it, and one fresh block
  stands at the end of the file.\<close>

theorem install_replaces:
  assumes "usable_home room effort port fs"
    and "hf_files fs (get_codex_config_path fs) = Some (u @ block_text b inner e @ v)"
    and "block_shape b inner e" and "whole_lines u" and "no_markers u"
    and "no_markers (dropWhile (\<lambda>c. c = lf \<or> c = CHR 0x0D) v)"
    and "CHR 0x00 \<notin> set (u @ block_text b inner e @ v)"
    and "length (u @ block_text b inner e @ v) + 2049 \<le> room"
  shows "case install_managed_config (\<lambda>_. True) print effort False port fs of (ok, fs') \<Rightarrow>
    ok \<and> hf_files fs' (get_codex_config_path fs) =
      Some (ended (u @ dropWhile (\<lambda>c. c = lf \<or> c = CHR 0x0D) v) @ unlines (block_lines (hf_home fs) effort port))"
proof -
  let ?buf = "u @ block_text b inner e @ v"
  have "hf_files fs (get_codex_config_path fs) = (if ?buf = [] then None else Some ?buf)"
    using assms(2) by (simp add: block_text_def)
  from install_file [OF assms(1) this assms(7,8), of print] show ?thesis
    by (auto simp: strip_block [OF assms(4,5,3), of v] strip_no_markers [OF assms(6)])
qed

section \<open>Installing and removing\<close>

lemma no_markers_whole:
  assumes "whole_lines u" and "no_markers u"
  shows "strstr (u @ block_text begin_line inner e) MANAGED_BEGIN = Some (block_text begin_line inner e)"
  using strstr_whole_lines [of u begin_line "block_text begin_line inner e"] assms
  strstr_marker_line [of begin_line begin_line "unlines (inner @ [e])"]
  by (simp add: no_markers_def block_text_def)

lemma no_markers_ended: "no_markers (ended u) \<Longrightarrow> no_markers u"
  by (auto simp: no_markers_def ended_def strstr_None_iff intro: sublist_order.order_trans split: if_splits)

definition restored_keys :: "string \<Rightarrow> string" where
  "restored_keys u = (case extract_displaced_keys (\<lambda>_. True) u (length u) of None \<Rightarrow> [] | Some keys \<Rightarrow> keys)"

lemma section_part:
  assumes "find_section body h1 h2 = Some t"
  shows "set t \<subseteq> set body \<and> length t \<le> length body"
proof -
  obtain h sec where t: "t = section_text body h sec" and sec: "strstr body h = Some sec"
    using assms by (auto simp: find_section_def split: option.splits)
  obtain pre where body: "body = pre @ sec" using strstr_Some_split [OF sec] by blast
  have "length (takeWhile (\<lambda>c. c \<noteq> lf) (rev pre)) \<le> length pre"
    by (metis length_takeWhile_le length_rev)
  moreover have "set (rev (takeWhile (\<lambda>c. c \<noteq> lf) (rev pre))) \<subseteq> set pre" by (auto dest: set_takeWhileD)
  moreover have "set (take n sec) \<subseteq> set sec" "length (take n sec) \<le> length sec" for n by (simp_all add: set_take_subset)
  ultimately show ?thesis unfolding t body section_text_def Let_def by fastforce
qed

lemma restored_part: "set (restored_keys u) \<subseteq> set u \<and> length (restored_keys u) \<le> 2 * length u"
proof -
  have add: "set (add_section (\<lambda>_. True) s acc) \<subseteq> set acc \<union> set u
      \<and> length (add_section (\<lambda>_. True) s acc) \<le> length acc + length u"
    if "\<And>t. s = Some t \<Longrightarrow> set t \<subseteq> set u \<and> length t \<le> length u" for s acc
    using that by (auto simp: add_section_def split: option.splits)
  have m: "\<And>t. model_section u = Some t \<Longrightarrow> set t \<subseteq> set u \<and> length t \<le> length u"
    and p: "\<And>t. provider_section u = Some t \<Longrightarrow> set t \<subseteq> set u \<and> length t \<le> length u"
    by (auto simp: model_section_def provider_section_def dest: section_part)
  let ?m = "add_section (\<lambda>_. True) (model_section u) []"
  let ?k = "add_section (\<lambda>_. True) (provider_section u) ?m"
  have "set ?m \<subseteq> set u \<and> length ?m \<le> length u" using add [of "model_section u" "[]", OF m] by simp
  moreover have "set ?k \<subseteq> set ?m \<union> set u \<and> length ?k \<le> length ?m + length u" by (rule add [OF p])
  ultimately have "set ?k \<subseteq> set u" "length ?k \<le> 2 * length u" by (blast, linarith)
  moreover have "restored_keys u = ?k"
    by (auto simp: restored_keys_def extract_displaced_keys_def Let_def)
  ultimately show ?thesis by simp
qed

lemma disable_file:
  assumes home: "\<forall>p. hf_room fs p = Some room" and paths: "get_backup_path fs \<noteq> get_codex_config_path fs"
    and old: "hf_files fs (get_codex_config_path fs) = Some (u @ block_text begin_line inner end_line)"
    and shape: "block_shape begin_line inner end_line" and u: "whole_lines u" "no_markers u"
    and nul: "CHR 0x00 \<notin> set (u @ block_text begin_line inner end_line)"
    and room: "length (u @ block_text begin_line inner end_line) \<le> room" "length (u @ restored_keys u) \<le> room"
  shows "\<exists>fs'. disable_managed_config (\<lambda>_. True) False fs = (True, fs')
    \<and> hf_files fs' (get_codex_config_path fs) = (if u = [] then None else Some (u @ restored_keys u))"
proof -
  let ?p = "get_codex_config_path fs" and ?q = "get_backup_path fs" and ?B = "block_text begin_line inner end_line"
  let ?keys = "extract_displaced_keys (\<lambda>_. True) u (length u)"
  have cstr: "c_str (u @ ?B) = u @ ?B" using nul by (auto simp: c_str_def takeWhile_eq_all_conv)
  have ne: "?B \<noteq> []" by (simp add: block_text_def)
  have found: "strstr (u @ ?B) MANAGED_BEGIN = Some ?B" by (rule no_markers_whole [OF u])
  have strip: "strip_sections (u @ ?B) = u"
    using strip_block [OF u shape, of "[]"] by (simp add: strip_sections.simps)
  have keys: "extract_displaced_keys (\<lambda>_. True) (u @ ?B) (length u) = ?keys"
    by (simp add: extract_displaced_keys_def)
  have content: "disable_content u ?keys = u @ restored_keys u"
    by (auto simp: disable_content_def restored_keys_def ended_whole [OF u(1)] split: option.splits)
  have empty: "restored_keys [] = []"
    by (simp add: restored_keys_def extract_displaced_keys_def model_section_def provider_section_def
        find_section_def add_section_def header_of_def)
  have wr: "write_file q t f = (True, f\<lparr>hf_files := (hf_files f)(q \<mapsto> t)\<rparr>)"
    if "hf_room f = hf_room fs" "length t \<le> room" "CHR 0x00 \<notin> set t" for q t f
    using home that by (intro write_roomy [of _ room]) simp_all
  have part: "CHR 0x00 \<notin> set (u @ restored_keys u)" using nul restored_part [of u] by auto
  define fs2 where "fs2 = say (''Backed up existing config to: '' @ ?q) (fs\<lparr>hf_files := (hf_files fs)(?q \<mapsto> u @ ?B)\<rparr>)"
  have real: "disable_real (\<lambda>_. True) (u @ ?B) fs = disable_write ?p u ?keys fs2"
    using paths ne room nul wr [of fs "u @ ?B" ?q]
    by (simp add: disable_real_def Let_def fs2_def [symmetric] cstr strip remove_all_managed_sections_def
        read_file_def backup_displaced_def found keys fs2_def)
  have "disable_managed_config (\<lambda>_. True) False fs = disable_real (\<lambda>_. True) (u @ ?B) fs"
    using old ne by (simp add: disable_managed_config_def read_file_def cstr contains_def found)
  moreover have "\<exists>fs'. disable_write ?p u ?keys fs2 = (True, fs')
      \<and> hf_files fs' ?p = (if u = [] then None else Some (u @ restored_keys u))"
    using wr [of "say (''Removed managed config block from: '' @ ?p) fs2" "u @ restored_keys u" ?p] room part wr [of fs2]
    by (auto simp: disable_write_def content Let_def empty fs2_def split: option.splits)
  ultimately show ?thesis by (simp add: real)
qed

text \<open>Property C38: installing the block and removing it again leaves the text of the user, with its last line
  ended, and after it once more the sections of the user that count as displaced; where there are
  none, the file is as it was, and a file that did not exist is gone again.\<close>

theorem install_then_disable:
  assumes "usable_home room effort port fs"
    and "hf_files fs (get_codex_config_path fs) = (if user = [] then None else Some user)"
    and "CHR 0x00 \<notin> set user" and "no_markers (ended user)" and "3 * length user + 2052 \<le> room"
  shows "case install_managed_config (\<lambda>_. True) print effort False port fs of (ok, fs1) \<Rightarrow>
    ok \<and> (case disable_managed_config (\<lambda>_. True) False fs1 of (ok1, fs2) \<Rightarrow>
      ok1 \<and> hf_files fs2 (get_codex_config_path fs)
        = (if user = [] then None else Some (ended user @ restored_keys (ended user))))"
proof -
  let ?u = "ended user" and ?i = "block_inner (hf_home fs) effort port"
  have block: "unlines (block_lines (hf_home fs) effort port) = block_text begin_line ?i end_line"
    by (rule unlines_block)
  have "length user + 2049 \<le> room" using assms(5) by simp
  from install_file [OF assms(1,2,3) this, of print] obtain fs1 where
    fs1: "install_managed_config (\<lambda>_. True) print effort False port fs = (True, fs1)"
    "hf_room fs1 = hf_room fs" "hf_home fs1 = hf_home fs"
    "hf_files fs1 (get_codex_config_path fs) = Some (?u @ block_text begin_line ?i end_line)"
    unfolding block strip_no_markers [OF no_markers_ended [OF assms(4)]] by blast
  have paths: "get_codex_config_path fs1 = get_codex_config_path fs" "get_backup_path fs1 = get_backup_path fs"
    by (simp_all add: get_codex_config_path_def get_backup_path_def codex_file_def fs1)
  have shape: "block_shape begin_line ?i end_line"
    using assms(1) by (intro block_inner_ok) (auto simp: usable_home_def split: option.splits)
  have len: "length (block_text begin_line ?i end_line) < 2048"
    using assms(1) length_managed_block [of port effort "hf_home fs"] by (simp add: usable_home_def block)
  have u: "length ?u \<le> length user + 1" "CHR 0x00 \<notin> set ?u" "?u = [] \<longleftrightarrow> user = []"
    using assms(3) by (auto simp: ended_def lf_def)
  have "\<exists>fs2. disable_managed_config (\<lambda>_. True) False fs1 = (True, fs2)
    \<and> hf_files fs2 (get_codex_config_path fs1) = (if ?u = [] then None else Some (?u @ restored_keys ?u))"
  proof (rule disable_file)
    show "\<forall>p. hf_room fs1 p = Some room" using assms(1) by (simp add: fs1 usable_home_def)
    show "CHR 0x00 \<notin> set (?u @ block_text begin_line ?i end_line)"
      using u block_plain_bytes [OF assms(1)] by (simp add: block)
    show "length (?u @ restored_keys ?u) \<le> room"
      using restored_part [of ?u] u(1) assms(5) by simp
  qed (use usable_paths [OF assms(1)] paths fs1 shape assms(4,5) len u in simp_all)
  then show ?thesis using fs1 paths u(3) by auto
qed

section \<open>A home directory\<close>

definition some_home :: "bytes \<Rightarrow> home_fs" where
  "some_home content =
     \<lparr>hf_files = (\<lambda>p. if p = ''/h/.codex/config.toml'' \<and> content \<noteq> [] then Some content else None),
      hf_room = (\<lambda>_. Some 5000), hf_home = Some ''/h'', hf_said = []\<rparr>"

lemma some_home_usable: "usable_home 5000 ''high'' 8080 (some_home content)"
  by (simp add: usable_home_def some_home_def server_port_or_def lf_def show_int_def show_nat_def show_base.simps)

lemma some_home_file:
  "hf_files (some_home content) (get_codex_config_path (some_home content)) = (if content = [] then None else Some content)"
  by (simp add: some_home_def get_codex_config_path_def codex_file_def cstr_copy_def)

definition own_section :: string where
  "own_section = header_of ''model'' ''star-bridge-ds4'' @ [lf]"

lemma own_section_facts:
  "own_section \<noteq> []" "ended own_section = own_section" "no_markers own_section" "CHR 0x00 \<notin> set own_section"
  "length own_section \<le> 40" "restored_keys own_section = own_section"
proof -
  show "restored_keys own_section = own_section"
    by (simp add: own_section_def restored_keys_def extract_displaced_keys_def add_section_def model_section_def
        provider_section_def find_section_def section_text_def header_of_def lf_def)
qed (simp_all add: own_section_def header_of_def ended_def no_markers_def marker_defs)

theorem install_then_disable_witness:
  "case install_managed_config (\<lambda>_. True) (\<lambda>_. None) ''high'' False 8080 (some_home own_section) of (ok, fs1) \<Rightarrow>
    ok \<and> (case disable_managed_config (\<lambda>_. True) False fs1 of (ok1, fs2) \<Rightarrow>
      ok1 \<and> hf_files fs2 (get_codex_config_path (some_home own_section)) = Some (own_section @ own_section))"
  using install_then_disable [of 5000 "''high''" 8080 "some_home own_section" own_section "\<lambda>_. None"]
    some_home_usable some_home_file own_section_facts by simp

definition old_block :: string where
  "old_block = block_text legacy_begin_line [''model = x''] legacy_end_line"

lemma old_block_facts:
  "block_shape legacy_begin_line [''model = x''] legacy_end_line" "CHR 0x00 \<notin> set old_block" "length old_block \<le> 200"
  by (simp_all add: block_shape_def old_block_def block_text_def marker_defs suffix_Cons)

theorem install_replaces_witness:
  "case install_managed_config (\<lambda>_. True) (\<lambda>_. None) ''high'' False 8080 (some_home (old_block @ lf # ''a = 1'')) of
     (ok, fs') \<Rightarrow> ok \<and> hf_files fs' (get_codex_config_path (some_home (old_block @ lf # ''a = 1''))) =
       Some (''a = 1'' @ lf # unlines (block_lines (Some ''/h'') ''high'' 8080))"
proof -
  let ?fs = "some_home (old_block @ lf # ''a = 1'')"
  have there: "hf_files ?fs (get_codex_config_path ?fs) = Some ([] @ old_block @ lf # ''a = 1'')"
    by (simp add: some_home_file)
  have v: "CHR ''a'' \<noteq> lf" "CHR 0x00 \<noteq> lf" by (simp_all add: lf_def)
  have home: "hf_home ?fs = Some ''/h''" by (simp add: some_home_def)
  have facts: "whole_lines []" "no_markers []" "no_markers ''a = 1''"
    "CHR 0x00 \<notin> set ([] @ old_block @ lf # ''a = 1'')" "length ([] @ old_block @ lf # ''a = 1'') + 2049 \<le> 5000"
    "ended ''a = 1'' = ''a = 1'' @ [lf]"
    using old_block_facts by (simp_all add: whole_lines_def no_markers_def marker_defs ended_def)
  show ?thesis
    using install_replaces [OF some_home_usable there [unfolded old_block_def] old_block_facts(1) facts(1,2), of "\<lambda>_. None"]
      facts by (simp add: v home old_block_def [symmetric])
qed

end
