(* ===== verification/Bridge_Start.thy ===== *)
theory Bridge_Start
  imports Http_Endpoints Managed_Config
begin

text \<open>
  The start of the program (\<^verbatim>\<open>src/main.c\<close>): the command line, the one-shot commands, the
  configuration that results, the route to the native agent and its arguments, and then the whole
  run: engine, handshake, server, end.

  The host answers for the file system, git, the port and the pid; the files read and written are
  those of \<open>Managed_Config\<close>. The numbers in arguments are assumed to fit an \<^verbatim>\<open>int\<close>. Calls of the
  trace log and the file monitor are left out.
\<close>

section \<open>Host and command line\<close>

record host =
  ho_alloc :: "nat \<Rightarrow> bool"
  ho_parse :: "string \<Rightarrow> json option"
  ho_print :: "json \<Rightarrow> string option"
  ho_exec :: "string \<Rightarrow> bool"
  ho_read :: "string \<Rightarrow> bool"
  ho_stat :: "string \<Rightarrow> file_stat option"
  ho_git :: "string \<Rightarrow> bytes option"
  ho_socket :: bool
  ho_bind :: "int \<Rightarrow> bool"
  ho_real :: "string \<Rightarrow> string option"
  ho_cwd :: "string option"
  ho_pid :: int
  ho_globbed :: "string list"

record launch =
  la_fs :: home_fs
  la_env :: "string \<Rightarrow> string option"
  la_removed :: "string list"

definition tell :: "string \<Rightarrow> launch \<Rightarrow> launch" where
  "tell line la = la\<lparr>la_fs := say line (la_fs la)\<rparr>"

definition putenv :: "string \<Rightarrow> launch \<Rightarrow> launch" where
  "putenv s la =
     (case strchr s CHR ''='' of
        None \<Rightarrow> la\<lparr>la_env := (la_env la)(s := None)\<rparr>
      | Some r \<Rightarrow> la\<lparr>la_env := (la_env la)(take (length s - length r) s \<mapsto> tl r)\<rparr>)"

definition setenv_new :: "string \<Rightarrow> string \<Rightarrow> launch \<Rightarrow> launch" where
  "setenv_new k v la = (if la_env la k = None then la\<lparr>la_env := (la_env la)(k \<mapsto> v)\<rparr> else la)"

definition path_basename :: "string \<Rightarrow> string" where
  "path_basename path = rev (takeWhile (\<lambda>c. c \<noteq> CHR ''/'') (rev path))"

text \<open>An option tests the current argument; one with a value may move on to it, and the options tested
  after it in the same round then see the value.\<close>

datatype 'a cli_test = Flag string "'a \<Rightarrow> 'a" | Value string bool "string \<Rightarrow> 'a \<Rightarrow> 'a"

fun try_option :: "'a cli_test \<Rightarrow> string list \<times> 'a \<Rightarrow> string list \<times> 'a" where
  "try_option (Flag name f) (args, c) = (args, if args \<noteq> [] \<and> hd args = name then f c else c)"
| "try_option (Value name moves f) (args, c) =
     (case args of
        a # v # r \<Rightarrow> if a = name then (if moves then v # r else args, f v c) else (args, c)
      | _ \<Rightarrow> (args, c))"

definition try_options :: "'a cli_test list \<Rightarrow> string list \<Rightarrow> 'a \<Rightarrow> string list \<times> 'a" where
  "try_options tests args c = foldl (\<lambda>st t. try_option t st) (args, c) tests"

lemma try_option_shrinks: "length (fst (try_option t (args, c))) \<le> length args"
  by (cases t) (auto split: list.splits)

lemma try_options_shrinks: "length (fst (try_options tests args c)) \<le> length args"
proof (induction tests arbitrary: args c)
  case (Cons t tests)
  obtain args' c' where t: "try_option t (args, c) = (args', c')" by fastforce
  then show ?case using Cons [of args' c'] try_option_shrinks [of t args c] by (simp add: try_options_def)
qed (simp add: try_options_def)

function scan_args :: "'a cli_test list \<Rightarrow> string list \<Rightarrow> 'a \<Rightarrow> 'a" where
  "scan_args tests args c =
     (if args = [] then c
      else scan_args tests (tl (fst (try_options tests args c))) (snd (try_options tests args c)))"
  by pat_completeness auto
termination
proof (relation "measure (\<lambda>(tests, args, c). length args)", goal_cases)
  case (2 tests args c)
  then have "length (tl (fst (try_options tests args c))) < length args"
    using try_options_shrinks [of tests args c] by (cases args) auto
  then show ?case by simp
qed simp

declare scan_args.simps [simp del]

section \<open>The first pass\<close>

record early =
  ea_no_config :: bool
  ea_config_path :: string
  ea_port :: int
  ea_dry_run :: bool

definition early_tests :: "early cli_test list" where
  "early_tests =
     [Flag ''--no-config'' (\<lambda>e. e\<lparr>ea_no_config := True\<rparr>),
      Value ''--config'' True (\<lambda>v e. e\<lparr>ea_config_path := v\<rparr>),
      Value ''-p'' False (\<lambda>v e. e\<lparr>ea_port := c_atoi v\<rparr>),
      Flag ''--dry-run'' (\<lambda>e. e\<lparr>ea_dry_run := True\<rparr>)]"

definition early_scan :: "string list \<Rightarrow> early" where
  "early_scan args =
     scan_args early_tests args
       \<lparr>ea_no_config = False, ea_config_path = ''config.json'', ea_port = 0, ea_dry_run = False\<rparr>"

definition load_at :: "host \<Rightarrow> string \<Rightarrow> launch \<Rightarrow> bridge_config \<Rightarrow> bool \<times> bridge_config" where
  "load_at ho path la c = load_config_from_file (ho_parse ho) (ho_alloc ho) (hf_files (la_fs la) path) c"

text \<open>The port of the one-shot commands, and the effort the global configuration then holds: it is
  empty unless the file had to be consulted for the port.\<close>

definition early_port :: "host \<Rightarrow> early \<Rightarrow> launch \<Rightarrow> int \<times> string" where
  "early_port ho ea la =
     (if ea_port ea > 0 then (ea_port ea, [])
      else case (case la_env la ''PORT'' of None \<Rightarrow> [] | Some p \<Rightarrow> p) of
        p # ps \<Rightarrow> (if c_atoi (p # ps) > 0 then c_atoi (p # ps) else 8080, [])
      | [] \<Rightarrow>
          if ea_no_config ea then (8080, [])
          else case load_at ho (ea_config_path ea) la (init_global_config 8080) of
                 (ok, c) \<Rightarrow> (if ok \<and> cf_server_port c > 0 then cf_server_port c else 8080, cf_model_reasoning_effort c))"

section \<open>One-shot commands\<close>

definition STAR_BRIDGE_CLI_VERSION :: string where
  "STAR_BRIDGE_CLI_VERSION = ''0.1.0-alpha''"

definition STAR_BRIDGE_VALIDATED_DS4_COMMIT :: string where
  "STAR_BRIDGE_VALIDATED_DS4_COMMIT = ''d881f2a05e8f''"

definition print_help :: "string \<Rightarrow> string list" where
  "print_help prog =
     [''Usage: '' @ prog @ '' <agent_binary> [workspace_path] [options]'',
      [],
      ''Arguments:'',
      ''  <agent_binary>       Path to the native agent binary/script'',
      ''  [workspace_path]     Workspace root directory (default: current dir)'',
      [],
      ''Options:'',
      ''  -p <port>            HTTP server port (default: 8080, env: PORT)'',
      ''  --framed             Enable framed protocol for stdio transport'',
      ''  --native-transport <mode>   Transport mode: auto|uds|stdio_framed|stdio'',
      ''  --native-socket-path <path> Unix domain socket path'',
      ''  --uds-connect-timeout-ms <ms>  UDS connect timeout (default: 15000)'',
      ''  --uds-owner-mode <mode>       UDS owner mode: connect_existing|launch_and_connect|bridge_listen (default: connect_existing)'',
      ''  --hello-timeout-ms <ms>       Hello frame timeout (default: 10000)'',
      ''  --model-load-timeout-ms <ms>  Model load timeout (default: 120000)'',
      ''  --turn-response-timeout-ms <ms> Turn response timeout (default: 5000)'',
      ''  --model-reasoning-effort <val>  Default reasoning effort: low|medium|high|extra high (default: medium)'',
      ''  --max-output-buffer <bytes>     Max output buffer size in bytes (default: 262144)'',
      ''  --max-output-chars <chars>      Max output character limit for non-streaming responses (default: 0 = unlimited)'',
      ''  --max-turn-events <n>           Max native frames per turn before partial completion (default: 65536)'',
      ''  --no-config          Skip loading config.json'',
      ''  --generate-config [output_dir] Generate DwarfStar Codex config artifacts and exit'',
      ''  --install            Install managed Codex config (backs up ~/.codex/config.toml)'',
      ''  --disable            Remove managed Codex config and restore displaced keys'',
      ''  --status             Show managed config install status'',
      ''  --doctor [agent]     Run one-shot diagnostics and exit (nonzero on first failure)'',
      ''  --dry-run            With --install or --disable, show what would change without modifying'',
      ''  --version            Print version and exit'',
      ''  --help               Print this help and exit'',
      [],
      ''Config file: config.json (loaded automatically unless --no-config)'',
      [],
      ''Star Bridge version '' @ STAR_BRIDGE_CLI_VERSION,
      ''Local ds4 bridge for Codex desktop app'']"

definition long_dash :: string where
  "long_dash = [CHR '' '', CHR 0xE2, CHR 0x80, CHR 0x94, CHR '' '']"

definition doctor_fail :: "string \<Rightarrow> string \<Rightarrow> launch \<Rightarrow> bool \<times> launch" where
  "doctor_fail check detail la = (False, tell (''DOCTOR FAIL: '' @ check @ long_dash @ detail) la)"

definition capture_git_head_short :: "host \<Rightarrow> string \<Rightarrow> nat \<Rightarrow> string" where
  "capture_git_head_short ho repo_dir dest_len =
     (if repo_dir = [] then []
      else case ho_git ho repo_dir of
             None \<Rightarrow> []
           | Some out \<Rightarrow> takeWhile (\<lambda>c. c \<noteq> CHR 0x0D \<and> c \<noteq> CHR 0x0A) (c_str (take (dest_len - 1) out)))"

definition dirname_of :: "string \<Rightarrow> string option" where
  "dirname_of path =
     (if CHR ''/'' \<in> set path then Some (rev (drop 1 (dropWhile (\<lambda>c. c \<noteq> CHR ''/'') (rev path)))) else None)"

definition agent_dirname :: "string \<Rightarrow> nat \<Rightarrow> string" where
  "agent_dirname agent_path dest_len =
     (if agent_path = [] then []
      else case dirname_of (cstr_copy dest_len agent_path) of
             None \<Rightarrow> cstr_copy dest_len ''.''
           | Some d \<Rightarrow> if d = [] then ''/'' else d)"

definition doctor_agent :: "host \<Rightarrow> string \<Rightarrow> launch \<Rightarrow> launch" where
  "doctor_agent ho agent la =
     (let la1 = tell (''DOCTOR OK: agent ('' @ agent @ '')'') la;
          commit = capture_git_head_short ho (agent_dirname agent 1024) 64
      in if path_basename agent \<noteq> ''ds4-agent'' then la1
         else if commit = [] then
           tell (''DOCTOR WARN: ds4-version'' @ long_dash @ ''unable to detect git commit; validated against ''
                 @ STAR_BRIDGE_VALIDATED_DS4_COMMIT) la1
         else if commit = STAR_BRIDGE_VALIDATED_DS4_COMMIT then
           tell (''DOCTOR OK: ds4-version (validated commit '' @ commit @ '')'') la1
         else tell (''DOCTOR WARN: ds4-version'' @ long_dash @ ''detected commit '' @ commit @ ''; validated against ''
                    @ STAR_BRIDGE_VALIDATED_DS4_COMMIT) la1)"

definition doctor_catalog :: "launch \<Rightarrow> string" where
  "doctor_catalog la =
     (case hf_home (la_fs la) of
        None \<Rightarrow> ''.codex/custom_catalog.json''
      | Some h \<Rightarrow> if h = [] then ''.codex/custom_catalog.json'' else cstr_copy 1024 (h @ ''/.codex/custom_catalog.json''))"

definition doctor_editor :: "host \<Rightarrow> launch \<Rightarrow> bool \<times> launch" where
  "doctor_editor ho la =
     (case managed_config_status (ho_alloc ho) (la_fs la) of
        (False, fs) \<Rightarrow>
          doctor_fail ''codex-config'' (''managed block not installed'' @ long_dash @ ''run --install'') (la\<lparr>la_fs := fs\<rparr>)
      | (True, fs) \<Rightarrow>
          let la1 = tell ''DOCTOR OK: codex-config'' (la\<lparr>la_fs := fs\<rparr>); catalog = doctor_catalog la
          in if \<not> ho_read ho catalog then doctor_fail ''catalog'' catalog la1
             else (True, tell ''DOCTOR: all checks passed'' (tell (''DOCTOR OK: catalog ('' @ catalog @ '')'') la1)))"

definition doctor_port :: "host \<Rightarrow> int \<Rightarrow> launch \<Rightarrow> bool \<times> launch" where
  "doctor_port ho port la =
     (if \<not> ho_socket ho then doctor_fail ''port'' ''cannot create probe socket'' la
      else if \<not> ho_bind ho (port mod 65536) then doctor_fail ''port'' (''port '' @ show_int port @ '' in use'') la
      else doctor_editor ho (tell (''DOCTOR OK: port ('' @ show_int port @ '' free)'') la))"

definition doctor_place :: "host \<Rightarrow> bridge_config \<Rightarrow> int \<Rightarrow> launch \<Rightarrow> bool \<times> launch" where
  "doctor_place ho c port la =
     (if \<not> ho_exec ho ''.venv/bin/python3'' then
        doctor_fail ''venv'' (''.venv/bin/python3 missing'' @ long_dash @ ''run '' @ quoted ''make venv'') la
      else
        let la1 = tell ''DOCTOR OK: venv'' la
        in case (if cf_native_socket_path c = [] then None else validate_socket_parent_dir (ho_stat ho) c) of
             Some err \<Rightarrow> doctor_fail ''socket'' err la1
           | None \<Rightarrow> doctor_port ho port (tell ''DOCTOR OK: socket'' la1))"

definition run_doctor :: "host \<Rightarrow> string \<Rightarrow> string \<Rightarrow> bool \<Rightarrow> int \<Rightarrow> launch \<Rightarrow> bool \<times> launch" where
  "run_doctor ho agent config_path no_config port la =
     (let c0 = init_global_config port;
          c = (if no_config then c0 else snd (load_at ho config_path la c0));
          la1 = tell ''DOCTOR OK: config'' la
      in case config_validate_all c of
           err # _ \<Rightarrow> doctor_fail ''config'' err la
         | [] \<Rightarrow>
             if agent \<noteq> [] \<and> \<not> ho_exec ho agent then doctor_fail ''agent'' agent la1
             else doctor_place ho c port (if agent = [] then la1 else doctor_agent ho agent la1))"

datatype command =
    Cmd_Help | Cmd_Version | Cmd_Generate string | Cmd_Install | Cmd_Disable | Cmd_Status | Cmd_Doctor string

definition optional_arg :: "string list \<Rightarrow> string \<Rightarrow> string" where
  "optional_arg rest fallback =
     (case rest of [] \<Rightarrow> fallback | v # _ \<Rightarrow> if v \<noteq> [] \<and> hd v = CHR ''-'' then fallback else v)"

fun find_command :: "string list \<Rightarrow> command option" where
  "find_command [] = None"
| "find_command (a # rest) =
     (if a = ''--help'' then Some Cmd_Help
      else if a = ''--version'' then Some Cmd_Version
      else if a = ''--generate-config'' then Some (Cmd_Generate (optional_arg rest ''.''))
      else if a = ''--install'' then Some Cmd_Install
      else if a = ''--disable'' then Some Cmd_Disable
      else if a = ''--status'' then Some Cmd_Status
      else if a = ''--doctor'' \<or> a = ''doctor'' then Some (Cmd_Doctor (optional_arg rest []))
      else find_command rest)"

definition finish_managed :: "string \<Rightarrow> bool \<Rightarrow> bool \<times> home_fs \<Rightarrow> launch \<Rightarrow> bool \<times> launch" where
  "finish_managed what dry_run r la =
     (let la1 = la\<lparr>la_fs := snd r\<rparr>
      in if fst r
         then (True, tell ((if dry_run then ''(dry-run) '' else []) @ ''Managed config '' @ what
                           @ (if dry_run then '' preview completed'' else '' completed'')) la1)
         else (False, tell (''Error: failed to '' @ what @ '' managed config'') la1))"

definition run_command :: "host \<Rightarrow> string \<Rightarrow> early \<Rightarrow> command \<Rightarrow> launch \<Rightarrow> bool \<times> launch" where
  "run_command ho prog ea cmd la =
     (case early_port ho ea la of
        (port, effort) \<Rightarrow>
          (case cmd of
             Cmd_Help \<Rightarrow> (True, foldl (\<lambda>l line. tell line l) la (print_help prog))
           | Cmd_Version \<Rightarrow> (True, tell (''star_bridge version '' @ STAR_BRIDGE_CLI_VERSION) la)
           | Cmd_Generate dir \<Rightarrow>
               (case generate_codex_config (ho_print ho) (Some dir) port (la_fs la) of
                  (True, fs) \<Rightarrow> (True, tell (''Generated Codex config artifacts in '' @ quoted dir) (la\<lparr>la_fs := fs\<rparr>))
                | (False, fs) \<Rightarrow> (False, tell ''Error: failed to generate Codex config artifacts'' (la\<lparr>la_fs := fs\<rparr>)))
           | Cmd_Install \<Rightarrow>
               finish_managed ''install'' (ea_dry_run ea)
                 (install_managed_config (ho_alloc ho) (ho_print ho) effort (ea_dry_run ea) port (la_fs la)) la
           | Cmd_Disable \<Rightarrow>
               finish_managed ''disable'' (ea_dry_run ea)
                 (disable_managed_config (ho_alloc ho) (ea_dry_run ea) (la_fs la)) la
           | Cmd_Status \<Rightarrow> (True, la\<lparr>la_fs := snd (managed_config_status (ho_alloc ho) (la_fs la))\<rparr>)
           | Cmd_Doctor agent \<Rightarrow> run_doctor ho agent (ea_config_path ea) (ea_no_config ea) port la))"

section \<open>The configuration of a run\<close>

text \<open>The path of the configuration file, or \<open>None\<close> for \<^verbatim>\<open>--no-config\<close>.\<close>

fun config_args :: "string list \<Rightarrow> string \<Rightarrow> string option" where
  "config_args [] path = Some path"
| "config_args (a # rest) path =
     (if a = ''--no-config'' then None
      else if a = ''--config'' then (case rest of [] \<Rightarrow> Some path | v # r \<Rightarrow> config_args r v)
      else config_args rest path)"

definition option_tests :: "bridge_config cli_test list" where
  "option_tests =
     [Value ''-p'' False (\<lambda>v c. c\<lparr>cf_server_port := c_atoi v\<rparr>),
      Flag ''--framed'' (\<lambda>c. c\<lparr>cf_use_framed_protocol := True\<rparr>),
      Value ''--native-transport'' True (\<lambda>v c. c\<lparr>cf_native_transport := cstr_copy 16 v\<rparr>),
      Value ''--native-socket-path'' True (\<lambda>v c. c\<lparr>cf_native_socket_path := cstr_copy 1024 v\<rparr>),
      Value ''--uds-connect-timeout-ms'' True (\<lambda>v c. c\<lparr>cf_uds_connect_timeout_ms := c_atoi v\<rparr>),
      Value ''--uds-owner-mode'' True (\<lambda>v c. c\<lparr>cf_uds_owner_mode := cstr_copy 32 v\<rparr>),
      Value ''--hello-timeout-ms'' True (\<lambda>v c. c\<lparr>cf_hello_timeout_ms := c_atoi v\<rparr>),
      Value ''--model-load-timeout-ms'' True (\<lambda>v c. c\<lparr>cf_model_load_timeout_ms := c_atoi v\<rparr>),
      Value ''--turn-response-timeout-ms'' True (\<lambda>v c. c\<lparr>cf_response_timeout_ms := c_atoi v\<rparr>),
      Value ''--model-reasoning-effort'' True (\<lambda>v c. c\<lparr>cf_model_reasoning_effort := cstr_copy 32 v\<rparr>),
      Value ''--max-output-buffer'' True (\<lambda>v c. c\<lparr>cf_max_output_buffer := c_atoi v\<rparr>),
      Value ''--max-output-chars'' True (\<lambda>v c. c\<lparr>cf_max_output_chars := c_atoi v\<rparr>),
      Value ''--max-turn-events'' True (\<lambda>v c. c\<lparr>cf_max_turn_events := c_atoi v\<rparr>)]"

definition run_options :: "string list \<Rightarrow> bridge_config \<Rightarrow> bridge_config" where
  "run_options args c = scan_args option_tests args c"

fun p_flag_port :: "string list \<Rightarrow> int" where
  "p_flag_port (a # v # rest) = (if a = ''-p'' then c_atoi v else p_flag_port (v # rest))"
| "p_flag_port _ = 0"

definition port_from_env :: "string option \<Rightarrow> string list \<Rightarrow> bridge_config \<Rightarrow> bridge_config" where
  "port_from_env env args c =
     (case env of None \<Rightarrow> c
      | Some p \<Rightarrow>
          if p \<noteq> [] \<and> c_atoi p > 0 \<and> p_flag_port args = 0 then c\<lparr>cf_server_port := c_atoi p\<rparr> else c)"

definition target_port :: "string option \<Rightarrow> int" where
  "target_port env = (case env of None \<Rightarrow> 8080 | Some p \<Rightarrow> if p = [] then 8080 else c_atoi p)"

text \<open>The file is validated; what the command line sets afterwards is not.\<close>

definition configure_file :: "host \<Rightarrow> string list \<Rightarrow> launch \<Rightarrow> bridge_config option \<times> launch" where
  "configure_file ho args la =
     (let c0 = init_global_config (target_port (la_env la ''PORT''))
      in case config_args args ''config.json'' of
           None \<Rightarrow> (Some c0, la)
         | Some path \<Rightarrow>
             (case load_at ho path la c0 of
                (ok, c) \<Rightarrow>
                  let errs = (if ok then config_validate_all c else []);
                      la1 = (if ok then foldl (\<lambda>l err. tell (''Config error: '' @ err) l) la errs
                             else tell (''Warning: could not load config from '' @ quoted path @ '' (non-fatal, using defaults)'') la)
                  in if errs \<noteq> [] then
                       (None, tell (''Fatal: '' @ show_nat (length errs) @ '' config validation error(s)'' @ long_dash
                                    @ ''refusing to start'') la1)
                     else case read_codex_toml_reasoning_effort (la_fs la1) c of
                            (_, c1, fs) \<Rightarrow> (Some c1, la1\<lparr>la_fs := fs\<rparr>)))"

definition workspace_arg :: "string list \<Rightarrow> string" where
  "workspace_arg args = optional_arg (drop 1 args) ''.''"

definition check_socket :: "host \<Rightarrow> bridge_config \<Rightarrow> string option" where
  "check_socket ho c =
     (if cf_native_socket_path c = [] then None
      else case validate_native_socket_path (ho_stat ho) c of
             Some err \<Rightarrow> Some (''Fatal: socket path validation failed: '' @ err)
           | None \<Rightarrow>
               map_option (\<lambda>err. ''Fatal: socket parent directory validation failed: '' @ err)
                 (validate_socket_parent_dir (ho_stat ho) c))"

definition resolve_transport :: "bridge_config \<Rightarrow> string option \<times> bridge_config" where
  "resolve_transport c =
     (let orig = cf_native_transport c;
          t = (if orig = ''auto'' then (if cf_native_socket_path c \<noteq> [] then ''uds'' else ''stdio_framed'') else orig);
          c1 = c\<lparr>cf_native_transport := t\<rparr>
      in if t = ''stdio'' then (None, c1\<lparr>cf_use_framed_protocol := False\<rparr>)
         else if t = ''uds'' then (None, c1\<lparr>cf_use_framed_protocol := True\<rparr>)
         else if t = ''stdio_framed'' then
           (None, if orig = ''stdio_framed'' \<or> orig = ''uds'' \<or> orig = ''auto''
                  then c1\<lparr>cf_use_framed_protocol := True\<rparr> else c1)
         else (Some (''Warning: unknown native_transport '' @ quoted t @ '', falling back to stdio_framed''),
               c1\<lparr>cf_native_transport := ''stdio_framed''\<rparr>))"

definition configure :: "host \<Rightarrow> string list \<Rightarrow> launch \<Rightarrow> bridge_config option \<times> launch" where
  "configure ho args la =
     (case configure_file ho args la of
        (None, la1) \<Rightarrow> (None, la1)
      | (Some c, la1) \<Rightarrow>
          let c1 = resolve_native_socket_path (ho_real ho (workspace_arg args)) (ho_cwd ho)
                     (port_from_env (la_env la ''PORT'') args (run_options args c))
          in case check_socket ho c1 of
               Some msg \<Rightarrow> (None, tell msg la1)
             | None \<Rightarrow>
                 (case resolve_transport c1 of
                    (None, c2) \<Rightarrow> (Some c2, la1)
                  | (Some warning, c2) \<Rightarrow> (Some c2, tell warning la1)))"

section \<open>The route to the agent\<close>

definition find_candidate :: "(string \<Rightarrow> bool) \<Rightarrow> string \<Rightarrow> string \<Rightarrow> nat \<Rightarrow> string option" where
  "find_candidate ok argv0 rel max_len =
     (if length rel < max_len \<and> ok rel then Some rel
      else case dirname_of argv0 of
             None \<Rightarrow> None
           | Some d \<Rightarrow>
               let p = d @ ''/../'' @ rel
               in if length p + 1 < max_len \<and> ok p then Some p else None)"

definition find_bundled_ds4_wrapper :: "host \<Rightarrow> string \<Rightarrow> string option" where
  "find_bundled_ds4_wrapper ho argv0 = find_candidate (ho_read ho) argv0 ''agent/ds4_wrapper.py'' 1024"

definition find_venv_python :: "host \<Rightarrow> string \<Rightarrow> string option" where
  "find_venv_python ho argv0 = find_candidate (ho_exec ho) argv0 ''.venv/bin/python3'' 1024"

definition preflight_home :: "string \<Rightarrow> string" where
  "preflight_home agent = (case dirname_of (cstr_copy 1024 agent) of None \<Rightarrow> ''.'' | Some d \<Rightarrow> d)"

definition validate_ds4_agent_preflight :: "host \<Rightarrow> string \<Rightarrow> string \<Rightarrow> string option" where
  "validate_ds4_agent_preflight ho agent model =
     (let metal = cstr_copy 1200 (preflight_home agent @ ''/metal/flash_attn.metal'')
      in if agent = [] then Some ''Fatal: ds4-agent path is empty''
         else if \<not> ho_exec ho agent then Some (''Fatal: ds4-agent not found or not executable: '' @ agent)
         else if \<not> ho_read ho metal then Some (''Fatal: ds4-agent Metal assets missing: '' @ metal)
         else if model \<noteq> [] \<and> \<not> ho_read ho model then Some (''Fatal: ds4 model file not readable: '' @ model)
         else None)"

definition seconds_at_least_30 :: "int \<Rightarrow> int \<Rightarrow> int" where
  "seconds_at_least_30 ms fallback = max 30 ((if ms > 0 then ms else fallback) div 1000)"

definition ds4_socket :: "host \<Rightarrow> string" where
  "ds4_socket ho = ''/tmp/ds4-bridge-uds-'' @ show_int (ho_pid ho) @ ''.sock''"

definition ds4_environment :: "host \<Rightarrow> string \<Rightarrow> bridge_config \<Rightarrow> string list" where
  "ds4_environment ho agent c =
     [cstr_copy 1200 (''DS4_AGENT_PATH='' @ agent)] @
     (if cf_model_path c \<noteq> [] then [cstr_copy 1200 (''DS4_MODEL_PATH='' @ cf_model_path c)] else []) @
     [''DS4_STARTUP_TIMEOUT='' @ show_int (seconds_at_least_30 (cf_model_load_timeout_ms c) 120000),
      ''DS4_TURN_TIMEOUT='' @ show_int (seconds_at_least_30 (cf_response_timeout_ms c) 60000),
      ''DS4_SHOW_TOOL_LINES='' @ (if cf_hide_tool_transcripts c then ''0'' else ''1''),
      cstr_copy 1024 (''DS4_BRIDGE_UDS_SOCKET='' @ ds4_socket ho)]"

definition ds4_config :: "host \<Rightarrow> bridge_config \<Rightarrow> bridge_config" where
  "ds4_config ho c = c
     \<lparr>cf_native_socket_path := ds4_socket ho, cf_native_transport := ''uds'', cf_use_framed_protocol := True,
      cf_uds_owner_mode := ''launch_and_connect''\<rparr>"

text \<open>The arguments of the child: at most 63.\<close>

definition append_arg :: "string list \<Rightarrow> string \<Rightarrow> string list" where
  "append_arg argv a = (if length argv < 63 then argv @ [a] else argv)"

definition arg_delimiter :: "char \<Rightarrow> bool" where
  "arg_delimiter c = (c = CHR '' '' \<or> c = CHR 0x09 \<or> c = CHR 0x0D \<or> c = CHR 0x0A)"

function split_args :: "string \<Rightarrow> string list" where
  "split_args s =
     (if dropWhile arg_delimiter s = [] then []
      else takeWhile (\<lambda>c. \<not> arg_delimiter c) (dropWhile arg_delimiter s)
           # split_args (dropWhile (\<lambda>c. \<not> arg_delimiter c) (dropWhile arg_delimiter s)))"
  by pat_completeness auto
termination
proof (relation "measure length", goal_cases)
  case (2 s)
  then obtain c r where s: "dropWhile arg_delimiter s = c # r" "\<not> arg_delimiter c"
    by (metis hd_dropWhile list.exhaust_sel)
  have "length (dropWhile (\<lambda>c. \<not> arg_delimiter c) r) \<le> length r" "Suc (length r) \<le> length s"
    using length_dropWhile_le [of arg_delimiter s] by (simp_all add: s length_dropWhile_le)
  then show ?case using s by simp
qed simp

declare split_args.simps [simp del]

definition append_split_args :: "string list \<Rightarrow> string \<Rightarrow> string list" where
  "append_split_args argv args = foldl append_arg argv (split_args args)"

definition child_args :: "string \<Rightarrow> string option \<Rightarrow> bridge_config \<Rightarrow> string list" where
  "child_args cmd wrapper c =
     (let fixed = [cmd] @ (case wrapper of None \<Rightarrow> [] | Some w \<Rightarrow> [''-u'', w]) @
            (if cf_model_path c \<noteq> [] then [''--model'', cf_model_path c] else []) @
            (if cf_kv_cache_dir c \<noteq> [] then [''--kv-cache-dir'', cf_kv_cache_dir c] else [])
      in append_split_args (foldl append_arg [] fixed) (cstr_copy 2048 (cf_extra_native_args c)))"

record prepared =
  pr_cfg :: bridge_config
  pr_command :: string
  pr_argv :: "string list"
  pr_workspace :: string

definition prepare_plain :: "string \<Rightarrow> string \<Rightarrow> bridge_config \<Rightarrow> prepared" where
  "prepare_plain agent workspace c =
     \<lparr>pr_cfg = c, pr_command = agent, pr_argv = child_args agent None c, pr_workspace = workspace\<rparr>"

definition base_environment :: "bridge_config \<Rightarrow> launch \<Rightarrow> launch" where
  "base_environment c la =
     (let bypass = ''127.0.0.1,localhost,::1''
      in setenv_new ''no_proxy'' bypass (setenv_new ''NO_PROXY'' bypass
           (if cf_agent_env c \<noteq> [] then putenv (cf_agent_env c) la else la)))"

definition prepare_agent :: "host \<Rightarrow> string \<Rightarrow> string \<Rightarrow> string \<Rightarrow> bridge_config \<Rightarrow> launch \<Rightarrow> prepared option \<times> launch" where
  "prepare_agent ho argv0 agent workspace c la =
     (case (if path_basename agent = ''ds4-agent'' then find_bundled_ds4_wrapper ho argv0 else None) of
        None \<Rightarrow> (Some (prepare_plain agent workspace c), la)
      | Some wrapper \<Rightarrow>
          (case find_venv_python ho argv0 of
             None \<Rightarrow> (None, tell ''Fatal: Python 3.14 venv missing at .venv/bin/python3'' la)
           | Some python \<Rightarrow>
               (case validate_ds4_agent_preflight ho agent (cf_model_path c) of
                  Some msg \<Rightarrow> (None, tell msg la)
                | None \<Rightarrow>
                    let c1 = ds4_config ho c
                    in (Some \<lparr>pr_cfg = c1, pr_command = python, pr_argv = child_args python (Some wrapper) c1,
                              pr_workspace = workspace\<rparr>,
                        tell (''Info: using ds4 framed wrapper for native agent '' @ quoted agent @ '' via '' @ python
                              @ '' (UDS transport to bridge)'') (foldl (\<lambda>l s. putenv s l) la (ds4_environment ho agent c))))))"

definition clean_socket :: "host \<Rightarrow> prepared \<Rightarrow> launch \<Rightarrow> launch" where
  "clean_socket ho p la =
     (if cf_native_socket_path (pr_cfg p) \<noteq> [] \<and> cf_uds_owner_mode (pr_cfg p) = ''launch_and_connect''
      then la\<lparr>la_removed := la_removed la @ snd (cleanup_stale_socket (ho_globbed ho) (pr_cfg p))\<rparr> else la)"

text \<open>Everything before \<open>engine_init\<close>: an exit code, or what the engine is started with.\<close>

definition prepare :: "host \<Rightarrow> string \<Rightarrow> string list \<Rightarrow> launch \<Rightarrow> (bool + prepared) \<times> launch" where
  "prepare ho argv0 args la =
     (case find_command args of
        Some cmd \<Rightarrow> (case run_command ho argv0 (early_scan args) cmd la of (ok, la1) \<Rightarrow> (Inl ok, la1))
      | None \<Rightarrow>
          if args = [] then
            (Inl False, tell (''       '' @ argv0 @ '' --help for detailed help'')
                          (tell (''Usage: '' @ argv0 @ '' <agent_binary> [workspace_path] [options]'') la))
          else case configure ho args la of
            (None, la1) \<Rightarrow> (Inl False, la1)
          | (Some c, la1) \<Rightarrow>
              (case prepare_agent ho argv0 (hd args) (workspace_arg args) c (base_environment c la1) of
                 (None, la2) \<Rightarrow> (Inl False, la2)
               | (Some p, la2) \<Rightarrow> (Inr p, clean_socket ho p la2)))"

section \<open>The run\<close>

definition shell_names :: "string list" where
  "shell_names = [''zsh'', ''bash'', ''sh'', ''cat'']"

definition configure_timeouts :: "bridge_config \<Rightarrow> engine \<Rightarrow> engine" where
  "configure_timeouts c e = e
     \<lparr>en_socket_connect_timeout_ms := cf_uds_connect_timeout_ms c, en_hello_timeout_ms := cf_hello_timeout_ms c,
      en_model_load_timeout_ms := cf_model_load_timeout_ms c, en_turn_response_timeout_ms := cf_response_timeout_ms c\<rparr>"

definition start_engine :: "init_env \<Rightarrow> nat \<Rightarrow> bool \<Rightarrow> prepared \<Rightarrow> engine \<Rightarrow> bool \<times> engine" where
  "start_engine ie polls thread_ok p w =
     (let c = pr_cfg p
      in case engine_init ie c True (pr_workspace p) (cf_use_framed_protocol c) (cf_native_transport c)
                (cf_native_socket_path c) (cf_uds_owner_mode c) w of
           (False, e) \<Rightarrow> (False, e)
         | (True, e) \<Rightarrow>
             let e1 = configure_timeouts c e
             in if cf_use_framed_protocol c then framed_start polls thread_ok (pr_workspace p) e1 else (True, e1))"

definition run_bridge ::
    "init_env \<Rightarrow> nat \<Rightarrow> bool \<Rightarrow> visit list \<Rightarrow> prepared \<Rightarrow> server \<Rightarrow> (bool \<times> server) c_run option" where
  "run_bridge ie polls thread_ok visits p sv =
     (case start_engine ie polls thread_ok p (sv_eng sv) of
        (False, e) \<Rightarrow> Some (Ret (False, sv\<lparr>sv_eng := e\<rparr>))
      | (True, e) \<Rightarrow>
          (case start_codex_api_server visits (sv\<lparr>sv_eng := e\<rparr>) of
             None \<Rightarrow> None
           | Some Overrun \<Rightarrow> Some Overrun
           | Some (Ret sv1) \<Rightarrow> Some (Ret (True, on_engine (engine_destroy polls \<circ> engine_stop_heartbeat) sv1))))"

definition shell_warning :: "prepared \<Rightarrow> string \<Rightarrow> launch \<Rightarrow> launch" where
  "shell_warning p agent la =
     (if \<not> cf_use_framed_protocol (pr_cfg p) \<and> list_ex (contains agent) shell_names
      then tell (''Warning: starting interactive shell '' @ quoted agent
                 @ '' in non-framed mode. Codex app validation should use framed native-agent mode.'') la
      else la)"

definition bridge_main ::
    "host \<Rightarrow> string \<Rightarrow> string list \<Rightarrow> init_env \<Rightarrow> nat \<Rightarrow> bool \<Rightarrow> visit list \<Rightarrow> server \<Rightarrow> launch
      \<Rightarrow> (bool \<times> server \<times> launch) c_run option" where
  "bridge_main ho argv0 args ie polls thread_ok visits sv la =
     (case prepare ho argv0 args la of
        (Inl ok, la1) \<Rightarrow> Some (Ret (ok, sv, la1))
      | (Inr p, la1) \<Rightarrow>
          (case run_bridge ie polls thread_ok visits p sv of
             None \<Rightarrow> None
           | Some Overrun \<Rightarrow> Some Overrun
           | Some (Ret (ok, sv1)) \<Rightarrow>
               Some (Ret (ok, sv1, if fst (start_engine ie polls thread_ok p (sv_eng sv))
                                   then shell_warning p (hd args) la1
                                   else tell (''Failed to start agent process: '' @ pr_command p) la1))))"

section \<open>What the engine is started with\<close>

definition settled_config :: "bridge_config \<Rightarrow> bool" where
  "settled_config c =
     ((cf_native_transport c = ''uds'' \<or> cf_native_transport c = ''stdio_framed'' \<or> cf_native_transport c = ''stdio'')
      \<and> (cf_native_transport c = ''uds'' \<longrightarrow> cf_use_framed_protocol c)
      \<and> (cf_native_transport c = ''stdio'' \<longrightarrow> \<not> cf_use_framed_protocol c)
      \<and> length (cf_native_socket_path c) \<le> 103)"

lemma resolve_transport_settled:
  assumes "length (cf_native_socket_path c) \<le> 103"
  shows "settled_config (snd (resolve_transport c))"
  using assms by (simp add: resolve_transport_def settled_config_def Let_def)

lemma check_socket_length: "check_socket ho c = None \<Longrightarrow> length (cf_native_socket_path c) \<le> 103"
  by (auto simp: check_socket_def validate_native_socket_path_def Let_def split: option.splits if_splits)

lemma configure_settled: "configure ho args la = (Some c, la') \<Longrightarrow> settled_config c"
  by (auto simp: configure_def Let_def dest!: check_socket_length dest: resolve_transport_settled
      split: option.splits prod.splits)

lemma append_arg_bounds:
  "argv \<noteq> [] \<and> length argv \<le> 63 \<Longrightarrow>
     (case foldl append_arg argv xs of r \<Rightarrow> r \<noteq> [] \<and> hd r = hd argv \<and> length r \<le> 63)"
proof (induction xs arbitrary: argv)
  case (Cons x xs)
  have "append_arg argv x \<noteq> [] \<and> length (append_arg argv x) \<le> 63" "hd (append_arg argv x) = hd argv"
    using Cons.prems by (auto simp: append_arg_def)
  then show ?case using Cons.IH [of "append_arg argv x"] by simp
qed simp

definition proper_args :: "string \<Rightarrow> string list \<Rightarrow> bool" where
  "proper_args cmd argv = (argv \<noteq> [] \<and> hd argv = cmd \<and> length argv \<le> 63)"

lemma child_args_proper: "proper_args cmd (child_args cmd wrapper c)"
proof -
  obtain xs where "child_args cmd wrapper c = foldl append_arg [cmd] xs"
    by (simp add: child_args_def append_split_args_def append_arg_def [of "[]"] flip: foldl_append)
  then show ?thesis using append_arg_bounds [of "[cmd]" xs] by (simp add: proper_args_def)
qed


text \<open>The port: a usable \<^verbatim>\<open>-p\<close> on the command line wins over the environment, this over the file.\<close>

lemma try_option_rest: "set (fst (try_option t (args, c))) \<subseteq> set args"
  by (cases t) (auto split: list.splits)

lemma scan_args_keeps:
  assumes "\<And>t args c. t \<in> set tests \<Longrightarrow> set args \<subseteq> A \<Longrightarrow> f (snd (try_option t (args, c))) = f c"
    and "set args \<subseteq> A"
  shows "f (scan_args tests args c) = f c"
proof -
  have round: "f (snd (try_options ts as d)) = f d \<and> set (fst (try_options ts as d)) \<subseteq> set as"
    if "set ts \<subseteq> set tests" "set as \<subseteq> A" for ts as d
    using that
  proof (induction ts arbitrary: as d)
    case (Cons t ts)
    obtain as' d' where t: "try_option t (as, d) = (as', d')" by fastforce
    have "f d' = f d" "set as' \<subseteq> set as"
      using assms(1) [of t as d] try_option_rest [of t as d] Cons.prems by (simp_all add: t)
    moreover have "try_options (t # ts) as d = try_options ts as' d'" by (simp add: try_options_def t)
    ultimately show ?case using Cons.IH [of as' d'] Cons.prems by auto
  qed (simp add: try_options_def)
  show ?thesis using assms(2)
  proof (induction "length args" arbitrary: args c rule: less_induct)
    case less
    show ?case
    proof (cases "args = []")
      case False
      let ?r = "fst (try_options tests args c)" and ?d = "snd (try_options tests args c)"
      have "f ?d = f c" and r: "set ?r \<subseteq> set args" using round [of tests args c] less.prems by simp_all
      moreover have "length (tl ?r) < length args" using try_options_shrinks [of tests args c] False by (cases args) auto
      moreover have "set (tl ?r) \<subseteq> A" using r less.prems by (cases ?r) auto
      ultimately have "f (scan_args tests (tl ?r) ?d) = f c" using less.hyps by simp
      then show ?thesis using False by (subst scan_args.simps) simp
    qed (simp add: scan_args.simps)
  qed
qed

lemma option_tests_port:
  assumes "t \<in> set option_tests"
  shows "case t of Flag n f \<Rightarrow> \<forall>c. cf_server_port (f c) = cf_server_port c
    | Value n m f \<Rightarrow> n = ''-p'' \<or> (\<forall>v c. cf_server_port (f v c) = cf_server_port c)"
  using assms unfolding option_tests_def set_simps insert_iff empty_iff by (elim disjE) simp_all

lemma options_keep_port:
  assumes "''-p'' \<notin> set args"
  shows "cf_server_port (run_options args c) = cf_server_port c"
  unfolding run_options_def
proof (rule scan_args_keeps [where A = "- {''-p''}"])
  show "cf_server_port (snd (try_option t (as, d))) = cf_server_port d"
    if "t \<in> set option_tests" "set as \<subseteq> - {''-p''}" for t as d
    using option_tests_port [OF that(1)] that(2) by (cases t) (auto split: list.splits)
qed (use assms in auto)

lemma no_flag_port: "''-p'' \<notin> set args \<Longrightarrow> p_flag_port args = 0"
  by (induction args rule: p_flag_port.induct) auto

text \<open>Without \<^verbatim>\<open>-p\<close> the environment wins over the file.\<close>

theorem port_without_flag:
  assumes "configure_file ho args la = (Some c0, la1)" and "configure ho args la = (Some c, la2)"
    and "''-p'' \<notin> set args"
  shows "cf_server_port c = (case la_env la ''PORT'' of None \<Rightarrow> cf_server_port c0
    | Some v \<Rightarrow> if v \<noteq> [] \<and> c_atoi v > 0 then c_atoi v else cf_server_port c0)"
proof -
  let ?c1 = "resolve_native_socket_path (ho_real ho (workspace_arg args)) (ho_cwd ho)
    (port_from_env (la_env la ''PORT'') args (run_options args c0))"
  have "c = snd (resolve_transport ?c1)"
    using assms(1,2) by (simp add: configure_def Let_def split: option.splits prod.splits)
  then have "cf_server_port c = cf_server_port ?c1" by (simp add: resolve_transport_def Let_def)
  also have "\<dots> = cf_server_port (port_from_env (la_env la ''PORT'') args (run_options args c0))"
    by (simp add: resolve_native_socket_path_def Let_def split: option.split)
  also have "\<dots> = (case la_env la ''PORT'' of None \<Rightarrow> cf_server_port c0
      | Some v \<Rightarrow> if v \<noteq> [] \<and> c_atoi v > 0 then c_atoi v else cf_server_port c0)"
    using options_keep_port [OF assms(3), of c0]
    by (simp add: port_from_env_def no_flag_port [OF assms(3)] split: option.split)
  finally show ?thesis .
qed

section \<open>A start on pipes\<close>

definition some_host :: host where
  "some_host =
     \<lparr>ho_alloc = (\<lambda>_. True), ho_parse = (\<lambda>_. None), ho_print = (\<lambda>_. None), ho_exec = (\<lambda>_. True),
      ho_read = (\<lambda>_. True), ho_stat = (\<lambda>_. None), ho_git = (\<lambda>_. None), ho_socket = True, ho_bind = (\<lambda>_. True),
      ho_real = (\<lambda>_. None), ho_cwd = None, ho_pid = 7, ho_globbed = []\<rparr>"

definition some_launch :: launch where
  "some_launch =
     \<lparr>la_fs = \<lparr>hf_files = (\<lambda>_. None), hf_room = (\<lambda>_. None), hf_home = None, hf_said = []\<rparr>,
      la_env = (\<lambda>_. None), la_removed = []\<rparr>"

lemma some_configure:
  "configure some_host [''agent'', ''--no-config''] some_launch
    = (Some (snd (resolve_transport (run_options [''agent'', ''--no-config''] (init_global_config 8080)))), some_launch)"
proof -
  have "run_options [''agent'', ''--no-config''] (init_global_config 8080) = init_global_config 8080"
    by (simp add: run_options_def scan_args.simps try_options_def option_tests_def)
  then show ?thesis
    by (simp add: configure_def configure_file_def some_launch_def target_port_def port_from_env_def check_socket_def
        resolve_native_socket_path_def resolve_transport_def init_global_config_def Let_def)
qed

lemma some_prepared:
  "prepare some_host ''bridge'' [''agent'', ''--no-config''] some_launch =
    (case configure some_host [''agent'', ''--no-config''] some_launch of
       (c, _) \<Rightarrow> (Inr (prepare_plain ''agent'' ''.'' (the c)),
                   clean_socket some_host (prepare_plain ''agent'' ''.'' (the c)) (base_environment (the c) some_launch)))"
  by (simp add: prepare_def some_configure prepare_agent_def path_basename_def workspace_arg_def optional_arg_def)


end
