(* ===== verification/Frame_Extracts.thy ===== *)
theory Frame_Extracts
  imports Turn_Begin
begin

text \<open>
  The helpers of \<^verbatim>\<open>src/server.c\<close> that read members out of the text of a frame: balanced JSON
  values, string values with their escapes, tool intents and compaction events. A buffer is the
  bytes written to it; stepping over the end of the text is \<open>Overrun\<close>.
\<close>

section \<open>Balanced values\<close>

fun balanced_loop ::
    "nat \<Rightarrow> char \<Rightarrow> char \<Rightarrow> string \<Rightarrow> int \<Rightarrow> bool \<Rightarrow> bool \<Rightarrow> string \<Rightarrow> bool \<times> string" where
  "balanced_loop max_len opener closer out depth in_string escaped [] = (out \<noteq> [], out)"
| "balanced_loop max_len opener closer out depth in_string escaped (c # p) =
     (let out1 = out @ [c]
      in if \<not> length out + 1 < max_len then (out \<noteq> [], out)
         else if escaped then balanced_loop max_len opener closer out1 depth in_string False p
         else if c = bslash \<and> in_string then balanced_loop max_len opener closer out1 depth in_string True p
         else if c = dquote then balanced_loop max_len opener closer out1 depth (\<not> in_string) False p
         else if in_string then balanced_loop max_len opener closer out1 depth in_string False p
         else
           let d1 = (if c = opener then depth + 1 else depth);
               d2 = (if c = closer then d1 - 1 else d1)
           in if c = closer \<and> d2 = 0 then (True, out1)
              else balanced_loop max_len opener closer out1 d2 in_string False p)"

definition extract_balanced_json_local :: "string \<Rightarrow> nat \<Rightarrow> (bool \<times> string) option" where
  "extract_balanced_json_local start max_len =
     (if max_len = 0 \<or> start = [] then None
      else if hd start = CHR ''{'' then Some (balanced_loop max_len CHR ''{'' CHR ''}'' [] 0 False False start)
      else if hd start = CHR ''['' then Some (balanced_loop max_len CHR ''['' CHR '']'' [] 0 False False start)
      else None)"

section \<open>Strings\<close>

definition hex_digit :: "char \<Rightarrow> nat option" where
  "hex_digit c =
     (if is_digit c then Some (cval c - 48)
      else if 97 \<le> cval c \<and> cval c \<le> 102 then Some (cval c - 87)
      else if 65 \<le> cval c \<and> cval c \<le> 70 then Some (cval c - 55) else None)"

text \<open>The digits read, at most four, their value, and what follows.\<close>

fun hex_quad :: "nat \<Rightarrow> nat \<Rightarrow> string \<Rightarrow> nat \<times> nat \<times> string" where
  "hex_quad n v [] = (n, v, [])"
| "hex_quad n v (c # p) =
     (if n \<ge> 4 then (n, v, c # p)
      else case hex_digit c of None \<Rightarrow> (n, v, c # p) | Some d \<Rightarrow> hex_quad (n + 1) (16 * v + d) p)"

definition utf8_bytes :: "nat \<Rightarrow> string" where
  "utf8_bytes v =
     (if v < 0x80 then [char_of v]
      else if v < 0x800 then [char_of (0xC0 + v div 64 mod 32), char_of (0x80 + v mod 64)]
      else [char_of (0xE0 + v div 4096 mod 16), char_of (0x80 + v div 64 mod 64), char_of (0x80 + v mod 64)])"

definition append_code :: "nat \<Rightarrow> nat \<Rightarrow> string \<Rightarrow> string" where
  "append_code max_len v out = (let b = utf8_bytes v in if length out + length b < max_len then out @ b else out)"

definition local_escape :: "char \<Rightarrow> char" where
  "local_escape c =
     (if c = CHR ''n'' then CHR 0x0A else if c = CHR ''r'' then CHR 0x0D else if c = CHR ''t'' then CHR 0x09
      else if c = CHR ''b'' then CHR 0x08 else if c = CHR ''f'' then CHR 0x0C else c)"

definition after_value :: "string \<Rightarrow> string" where
  "after_value p = dropWhile (\<lambda>c. c = CHR '' '' \<or> c = CHR 0x09 \<or> c = CHR '','' \<or> c = CHR '':'') p"

lemma length_hex_quad: "length (snd (snd (hex_quad n v p))) \<le> length p"
  by (induction n v p rule: hex_quad.induct) (auto split: option.split)

lemma hex_quad_shorter: "hex_quad n v p = (k, w, r) \<Longrightarrow> length r \<le> length p"
  using length_hex_quad [of n v p] by simp

function decode_local :: "nat \<Rightarrow> string \<Rightarrow> string \<Rightarrow> (string option \<times> string) c_run" where
  "decode_local max_len out p =
     (case p of
        [] \<Rightarrow> Ret (None, out)
      | c # q \<Rightarrow>
          if \<not> length out + 1 < max_len then Ret (None, out)
          else if c = bslash then
            (case q of
               [] \<Rightarrow> Overrun
             | d # r \<Rightarrow>
                 if d = CHR ''u'' then
                   decode_local max_len
                     (if fst (hex_quad 0 0 r) = 4 then append_code max_len (fst (snd (hex_quad 0 0 r))) out
                      else out @ ''?'') (snd (snd (hex_quad 0 0 r)))
                 else decode_local max_len (out @ [local_escape d]) r)
          else if c = dquote then Ret (Some (after_value q), out)
          else decode_local max_len (out @ [c]) q)"
  by pat_completeness auto
termination
  by (relation "measure (\<lambda>(max_len, out, p). length p)")
    (auto intro: le_less_trans [OF length_hex_quad])

declare decode_local.simps [simp del]

definition decode_json_string_local :: "string \<Rightarrow> nat \<Rightarrow> (string option \<times> string) c_run" where
  "decode_json_string_local p max_len =
     (case p of c # q \<Rightarrow> if c = dquote then decode_local max_len [] q else Ret (None, []) | [] \<Rightarrow> Ret (None, []))"

section \<open>Frames\<close>

text \<open>The arguments keep \<open>old\<close>, the content of the caller's buffer, when the frame has none.\<close>

definition intent_arguments :: "string \<Rightarrow> string \<Rightarrow> nat \<Rightarrow> string c_run" where
  "intent_arguments obj old args_max =
     (case strstr obj ([dquote] @ ''arguments'' @ [dquote, CHR '':'']) of
        None \<Rightarrow> Ret old
      | Some a \<Rightarrow>
          (case dropWhile (\<lambda>c. c = CHR '' '' \<or> c = CHR 0x09) (drop 12 a) of
             [] \<Rightarrow> Ret old
           | c # v \<Rightarrow>
               if c = dquote then
                 (case decode_json_string_local (c # v) args_max of Overrun \<Rightarrow> Overrun | Ret (_, d) \<Rightarrow> Ret d)
               else if c = CHR ''{'' then
                 Ret (case extract_balanced_json_local (c # v) args_max of None \<Rightarrow> old | Some (_, d) \<Rightarrow> d)
               else Ret old))"

definition extract_tool_intent :: "string \<Rightarrow> nat \<Rightarrow> string \<Rightarrow> nat \<Rightarrow> (string \<times> string) option c_run" where
  "extract_tool_intent frame name_max old args_max =
     (case Option.bind (strstr frame ([dquote] @ ''tool_intent'' @ [dquote])) (\<lambda>p. strchr p CHR ''{'') of
        None \<Rightarrow> Ret None
      | Some obj \<Rightarrow>
          (case extract_json_string_field obj ''name'' name_max of
             None \<Rightarrow> Ret None
           | Some name \<Rightarrow>
               (case intent_arguments obj old args_max of
                  Overrun \<Rightarrow> Overrun | Ret args \<Rightarrow> Ret (Some (name, args)))))"

definition extract_compaction_event :: "string \<Rightarrow> nat \<Rightarrow> string option" where
  \<open>extract_compaction_event frame message_max =
     (if message_max = 0 \<or> \<not> contains frame ''"type":"event"''
         \<or> \<not> contains frame ''compact'' \<and> \<not> contains frame ''Compacting'' then None
      else
        let field = (\<lambda>k. extract_json_string_field frame k message_max)
        in Some (case field ''message'' of Some m \<Rightarrow> m | None \<Rightarrow>
             (case field ''summary'' of Some m \<Rightarrow> m | None \<Rightarrow>
             (case field ''text'' of Some m \<Rightarrow> m | None \<Rightarrow>
             (case field ''status'' of Some m \<Rightarrow> m | None \<Rightarrow>
               cstr_copy message_max ''Native agent is compacting context.'')))))\<close>

section \<open>Bounds and decoding\<close>

lemma balanced_bound:
  "length out < max_len \<Longrightarrow> length (snd (balanced_loop max_len o1 c1 out d s e p)) < max_len"
  by (induction max_len o1 c1 out d s e p rule: balanced_loop.induct) (simp_all add: Let_def)

lemma decode_local_bound:
  "length out < max_len \<Longrightarrow> decode_local max_len out p = Ret (r, d) \<Longrightarrow> length d < max_len"
proof (induction max_len out p rule: decode_local.induct)
  case (1 max_len out p)
  have "length (append_code max_len v out) < max_len" for v
    using "1.prems"(1) by (simp add: append_code_def Let_def)
  then show ?case
    using "1.prems"(2) [unfolded decode_local.simps [of max_len out p]] "1.IH" "1.prems"(1)
    by (auto split: list.splits if_splits)
qed

text \<open>What \<open>json_escape\<close> writes for a text of plain characters is read back.\<close>

lemma hex_digit_char:
  assumes "d < 16"
  shows "hex_digit (digit_char d) = Some d"
proof -
  have "cval (digit_char d) = (if d < 10 then 48 + d else 87 + d)"
    using assms by (simp add: cval_def digit_char_def)
  then show ?thesis using assms by (simp add: hex_digit_def is_digit_def)
qed

lemma hex_quad_hex4:
  assumes "n < 256"
  shows "hex_quad 0 0 (hex4 n @ p) = (4, n, p)"
proof -
  have "hex_quad (Suc (Suc (Suc (Suc 0)))) v p = (4, v, p)" for v by (cases p) simp_all
  moreover have "n div 4096 = 0" "n div 256 = 0" "n div 16 mod 16 = n div 16" using assms by simp_all
  moreover have "16 * (n div 16) + n mod 16 = n" by simp
  ultimately show ?thesis by (simp add: hex4_def hex_digit_char)
qed

lemma decode_esc_char:
  assumes "length out + 1 < max_len"
  shows "decode_local max_len out (esc_char c @ p) = decode_local max_len (out @ [c]) p"
proof -
  have ctl: "append_code max_len (cval c) out = out @ [c]" if "cval c < 32"
    using that assms by (simp add: append_code_def utf8_bytes_def cval_def)
  note quad = hex_quad_hex4 [OF cval_less_256 [of c], of p]
  show ?thesis
    using assms by (subst decode_local.simps) (auto simp: esc_char_def local_escape_def quad ctl)
qed

theorem decode_escaped:
  assumes "length out + length s + 1 < max_len"
  shows "decode_local max_len out (esc_all s @ dquote # rest) = Ret (Some (after_value rest), out @ s)"
  using assms
proof (induction s arbitrary: out)
  case Nil
  then show ?case by (subst decode_local.simps) (simp add: esc_all_def)
next
  case (Cons c s)
  then show ?case using decode_esc_char [of out max_len c "esc_all s @ dquote # rest"]
    by (simp add: esc_all_def)
qed

end
