(* ===== verification/Spec2Isabelle.thy ===== *)
theory Spec2Isabelle
  imports Ring_Buffer Json_Text Frame_Protocol Frame_Builders Tool_Policy Tool_History Stream_State
    Native_Response Native_Connection Tool_Normalizer Capability_Router Tool_Runner Session_Index
    Log_Lines Turn_Answer Bridge_Config Http_Safety
    Managed_Properties Bridge_Start Frame_Extracts
begin

text \<open>
  Star Bridge: a verification development.

  The program is a bridge between an editor that speaks the Responses API over HTTP and a native
  agent that speaks length-prefixed JSON frames over pipes or a Unix socket. A request of the
  editor becomes a turn: the bridge chooses the session whose saved state the agent is to use,
  sends a request frame, waits for the acknowledgement, and takes the agent's frames until its
  response, running the tools it asks for and passing the text on as server-sent events.

  \<^bold>\<open>Theories and sources\<close> (all under \<^verbatim>\<open>src/src\<close>, headers under \<^verbatim>\<open>src/include\<close>).

  \<^item> \<open>Bridge_Prelude\<close>: C strings, searching, numbers as text.
  \<^item> \<open>Ring_Buffer\<close>: \<^verbatim>\<open>ring_buffer.c\<close>; a window over the bytes appended.
  \<^item> \<open>Json_Value\<close>, \<open>Json_Text\<close>: \<^verbatim>\<open>json_utils.c\<close>; accessors over the cJSON tree, escaping, decoding.
  \<^item> \<open>Frame_Protocol\<close>, \<open>Frame_Builders\<close>: \<^verbatim>\<open>native_frame.c\<close>; reading and writing frames over scripts
    of system call outcomes, and the envelopes with their buffer cursor.
  \<^item> \<open>Native_Connection\<close>: \<^verbatim>\<open>uds_transport.c\<close> and \<^verbatim>\<open>native_connection.c\<close>.
  \<^item> \<open>Native_Response\<close>: \<^verbatim>\<open>native_response.c\<close>; from a frame to a typed event.
  \<^item> \<open>Stream_Events\<close>, \<open>Stream_State\<close>: \<^verbatim>\<open>codex_stream_events.c\<close>, \<^verbatim>\<open>responses_stream_state.c\<close>.
  \<^item> \<open>Tool_Policy\<close>, \<open>Tool_History\<close>, \<open>Tool_Runner\<close>, \<open>Tool_Normalizer\<close>, \<open>Capability_Router\<close>:
    the files of the same names.
  \<^item> \<open>Session_Index\<close>: the session part of \<^verbatim>\<open>config_manager.c\<close>; \<open>Bridge_Config\<close>: the configuration
    file, its validation and the socket path; \<open>Managed_Config\<close>, \<open>Managed_Properties\<close>: the block the
    program manages in the editor's own configuration.
  \<^item> \<open>Bridge_Engine\<close>: \<^verbatim>\<open>bridge_core.c\<close> but the log lines, and the handshake of \<^verbatim>\<open>main.c\<close>.
  \<^item> \<open>Log_Lines\<close>: log lines and the reader thread of \<^verbatim>\<open>bridge_core.c\<close>.
  \<^item> \<open>Turn_Begin\<close>, \<open>Turn_Events\<close>: \<^verbatim>\<open>turn_context.c\<close> and what \<^verbatim>\<open>server.c\<close> does for a framed turn;
    \<open>Turn_Properties\<close>, \<open>Turn_Answer\<close>: what a turn guarantees.
  \<^item> \<open>Http_Request\<close>, \<open>Http_Properties\<close>: reading a request and its body in \<^verbatim>\<open>server.c\<close>;
    \<open>Native_Input\<close>, \<open>Http_Server\<close>, \<open>Http_Endpoints\<close>: the text for the agent, the guards, the answers
    and the handlers of \<^verbatim>\<open>server.c\<close>; \<open>Http_Safety\<close>: what the server guarantees, over the step relation
    \<open>engine_step\<close> of the changes a connection can make to the engine; \<open>Debug_Session\<close>: the trace record
    and the body of the debug route; \<open>Frame_Extracts\<close>: the readers of members of a frame's text.
  \<^item> \<open>Request_Parser\<close>: \<^verbatim>\<open>codex_request_parser.c\<close>; \<open>Responses_Api\<close>: \<^verbatim>\<open>responses_api.c\<close> and
    \<^verbatim>\<open>codex_response_formatter.c\<close>; \<open>Debug_Trace\<close>: \<^verbatim>\<open>debug_trace.c\<close> and \<^verbatim>\<open>json_log.c\<close>.
  \<^item> \<open>Bridge_Start\<close>: \<^verbatim>\<open>main.c\<close>, from the command line to the run of the engine and the server.

  \<^bold>\<open>State.\<close> The record \<open>engine\<close> has the fields of \<^verbatim>\<open>BridgeEngine\<close> and after them the world: what
  the agent will send (a script of poll and read outcomes), what the socket will accept, what
  was sent, which allocations succeed, the clock. The record \<open>turn\<close> has the fields of
  \<^verbatim>\<open>TurnContext\<close> and logs of what left the turn by other ways. The record \<open>server\<close> adds the request
  counter, the tool history and the connection being served; a client is a \<open>visit\<close>, the bytes it
  sends and the writes it accepts. \<open>home_fs\<close> and \<open>launch\<close> are the files, the environment and the
  lines printed by the commands. Every operation returns the state it leaves; failures are
  options, sums or a flag as in the code, and writing outside a local buffer is a result of its
  own (\<open>Overrun\<close>, \<open>Smash\<close>).

  \<^bold>\<open>Lemma groups.\<close> Each theory proves the bounds and frame conditions of its operations first, then
  its properties. Contracts between parts are locales interpreted on the model: the queue behind
  the ring buffer, the escaped text of JSON, the map behind the session index. The turn rests on
  \<open>turn_loop_rule\<close>, which carries an invariant of one round through the loop; the server on the
  rule inversion of its steps; the request parser on a reference rendering that knows no buffers;
  the managed block on the lemma that a marker is found exactly at the end of a line.

  \<^bold>\<open>Bounds and termination.\<close> There is no fuel. Reads recurse over their script. The event loop is total
  by the size of what is left to read and then by the remaining timeout: every round takes a
  frame or uses some of the timeout. Two loops are partial functions whose result \<open>None\<close> means
  that they do not return: the chunk loop of the text stream, for a chunk size of zero, and the
  doubling of the capacity for a huge chunk of a request. A tool process is a script of rounds;
  one that never ends the process gives \<open>None\<close>, and with these whatever calls them. Properties that something comes back exclude exactly these causes.

  \<^bold>\<open>Not modelled.\<close> Threads and locks (each operation is a step of its own), the
  calls that fill the trace record (the debug route takes it as a parameter), the file monitor,
  \<^verbatim>\<open>json_builder.c\<close>, which is not called, and the table of function pointers in
  \<^verbatim>\<open>codex_tool_detector.c\<close>. The JSON parser and printer, the
  processes behind tools, git, the port probe and the clients waiting at the listening socket
  are parameters; listening itself, signals and trace lines inside the handlers are left out.
\<close>

end
